theory Spec2Isabelle
  imports Complex_Main "HOL-Library.Sublist" "HOL-Library.Multiset"
begin

section \<open>Python strings\<close>

text \<open>
  The analyzer works on \<open>str\<close> values. The addresses it filters are matches of the ASCII
  pattern of \<open>_extract_emails\<close>, so a character is modelled as a \<^typ>\<open>char\<close> and the
  character tests below are the ASCII ones.
\<close>

definition py_lower_char :: "char \<Rightarrow> char" where
  "py_lower_char c =
     (case map_of (zip ''ABCDEFGHIJKLMNOPQRSTUVWXYZ'' ''abcdefghijklmnopqrstuvwxyz'') c of
        Some d \<Rightarrow> d
      | None \<Rightarrow> c)"

definition py_lower :: "string \<Rightarrow> string" where
  "py_lower s = map py_lower_char s"

definition digit_chars :: string where
  "digit_chars = ''0123456789''"

definition hex_chars :: string where
  "hex_chars = ''0123456789abcdef''"

text \<open>\<open>str.isdigit\<close>: every character is a digit and there is at least one.\<close>

definition py_isdigit :: "string \<Rightarrow> bool" where
  "py_isdigit s = (s \<noteq> [] \<and> list_all (\<lambda>c. c \<in> set digit_chars) s)"

text \<open>\<open>s.replace(c, '')\<close> for a one-character \<open>c\<close>.\<close>

definition py_remove_char :: "char \<Rightarrow> string \<Rightarrow> string" where
  "py_remove_char c s = filter (\<lambda>d. d \<noteq> c) s"

definition py_startswith :: "string \<Rightarrow> string \<Rightarrow> bool" where
  "py_startswith s p = (take (length p) s = p)"

text \<open>\<open>sub in s\<close>: \<open>sub\<close> occurs in \<open>s\<close> as a contiguous run.\<close>

fun py_in :: "string \<Rightarrow> string \<Rightarrow> bool" where
  "py_in sub [] = (sub = [])"
| "py_in sub (c # s) = (py_startswith (c # s) sub \<or> py_in sub s)"

text \<open>\<open>s.split(sep)\<close> for a one-character separator: always at least one part.\<close>

fun py_split_aux :: "char \<Rightarrow> string \<Rightarrow> string \<Rightarrow> string list" where
  "py_split_aux sep cur [] = [rev cur]"
| "py_split_aux sep cur (c # s) =
     (if c = sep then rev cur # py_split_aux sep [] s else py_split_aux sep (c # cur) s)"

definition py_split :: "char \<Rightarrow> string \<Rightarrow> string list" where
  "py_split sep s = py_split_aux sep [] s"

text \<open>\<open>sep.join(parts)\<close>.\<close>

fun py_join :: "string \<Rightarrow> string list \<Rightarrow> string" where
  "py_join sep [] = []"
| "py_join sep [p] = p"
| "py_join sep (p # q # ps) = p @ sep @ py_join sep (q # ps)"

section \<open>The regular expressions of the configuration\<close>

text \<open>
  Every pattern of \<open>BLACKLIST_EMAIL_PATTERNS\<close> and the hash test of
  \<open>filter_business_emails\<close> is a sequence of character classes, each with a repetition
  range, possibly closed by \<open>$\<close>. \<open>re.match\<close> anchors at the start of the string and
  accepts any continuation, so a leading \<open>^\<close> changes nothing. \<open>$\<close> holds at the end of
  the string and just before a final newline.
\<close>

datatype re_item = Rep string nat "nat option" | Eol

type_synonym pattern = "re_item list"

fun re_match :: "pattern \<Rightarrow> string \<Rightarrow> bool" where
  "re_match [] s = True"
| "re_match (Eol # r) s = ((s = [] \<or> s = [CHR 0x0A]) \<and> re_match r s)"
| "re_match (Rep cls lo hi # r) s =
     list_ex (\<lambda>k. list_all (\<lambda>c. c \<in> set cls) (take k s) \<and> re_match r (drop k s))
       [lo ..< Suc (case hi of None \<Rightarrow> length s | Some h \<Rightarrow> min h (length s))]"

definition lit :: "string \<Rightarrow> pattern" where
  "lit s = map (\<lambda>c. Rep [c] 1 (Some 1)) s"

section \<open>config.py\<close>

definition BLACKLIST_DOMAINS :: "string list" where
  "BLACKLIST_DOMAINS =
    [''sentry'', ''wixpress'', ''example'', ''test'', ''schema.org'',
     ''w3.org'', ''googleapis'', ''gstatic'', ''google-analytics'',
     ''facebook.com'', ''twitter.com'', ''schema.org'', ''json-ld'',
     ''wordpress.com'', ''wp.com'', ''cloudflare'', ''jquery'',
     ''bootstrap'', ''fontawesome'', ''googleapis.com'', ''github.com'',
     ''gravatar.com'', ''wp.org'', ''wordpress.org'']"

definition BLACKLIST_EMAIL_PATTERNS :: "pattern list" where
  "BLACKLIST_EMAIL_PATTERNS =
    [Rep hex_chars 20 None # lit ''@'',
     lit ''noreply@'', lit ''no-reply@'', lit ''donotreply@'',
     lit ''id'' @ Rep digit_chars 1 None # lit ''@'',
     Rep digit_chars 1 None # lit ''@'',
     Rep hex_chars 32 (Some 32) # lit ''@'',
     Rep hex_chars 40 (Some 40) # lit ''@'',
     Rep hex_chars 64 (Some 64) # lit ''@'']"

definition BUSINESS_EMAIL_KEYWORDS :: "string list" where
  "BUSINESS_EMAIL_KEYWORDS =
    [''contact'', ''info'', ''sales'', ''support'', ''hello'', ''admin'',
     ''office'', ''help'', ''inquiry'', ''service'', ''team'', ''business'',
     ''enquiry'', ''customer'', ''marketing'']"

section \<open>utils.py: filter\_business\_emails\<close>

text \<open>
  The body of the loop of \<open>filter_business_emails\<close> for one address: \<open>True\<close> when the
  address reaches \<open>filtered_emails.append(email)\<close>, \<open>False\<close> when the guard fails or a
  \<open>continue\<close> is taken. \<open>email.split('@')[1]\<close> is read only when \<open>'@' in email\<close>, where
  the split has at least two parts.

  The digit test of the source is \<open>sum(c.isdigit() for c in local_part) >
  len(local_part) * 0.7\<close>. It is reached only with \<open>len(local_part) \<le> 30\<close>; there the
  double \<open>len * 0.7\<close> is the integer \<open>7 * len / 10\<close> when \<open>len\<close> is 0, 10, 20 or 30 and
  is at least a tenth away from every integer otherwise, so the comparison is that of the
  exact numbers: \<open>10 * digits > 7 * len\<close>.
\<close>

definition email_domain :: "string \<Rightarrow> string" where
  "email_domain email = py_lower (py_split (CHR ''@'') email ! 1)"

definition email_local_part :: "string \<Rightarrow> string" where
  "email_local_part email = py_lower (py_split (CHR ''@'') email ! 0)"

definition digit_count :: "string \<Rightarrow> nat" where
  "digit_count s = length (filter (\<lambda>c. c \<in> set digit_chars) s)"

definition hex_only :: pattern where
  "hex_only = [Rep hex_chars 1 None, Eol]"

definition email_passes :: "string \<Rightarrow> string list \<Rightarrow> pattern list \<Rightarrow> bool" where
  "email_passes email blacklist_domains blacklist_patterns =
     (if CHR ''@'' \<in> set email \<and> CHR ''.'' \<in> set (py_split (CHR ''@'') email ! 1) then
        (let domain = email_domain email;
             local_part = email_local_part email
         in if list_ex (\<lambda>blacklist. py_in blacklist domain) blacklist_domains then False
            else if list_ex (\<lambda>pattern. re_match pattern (py_lower email)) blacklist_patterns
              then False
            else if length local_part > 30 \<or>
                    py_isdigit (py_remove_char (CHR ''-'')
                      (py_remove_char (CHR ''_'') (py_remove_char (CHR ''.'') local_part)))
              then False
            else if 10 * digit_count local_part > 7 * length local_part then False
            else if re_match hex_only local_part \<and> length local_part > 10 then False
            else True)
      else False)"

fun filter_business_emails :: "string list \<Rightarrow> string list \<Rightarrow> pattern list \<Rightarrow> string list" where
  "filter_business_emails [] blacklist_domains blacklist_patterns = []"
| "filter_business_emails (email # emails) blacklist_domains blacklist_patterns =
     (if email_passes email blacklist_domains blacklist_patterns
      then email # filter_business_emails emails blacklist_domains blacklist_patterns
      else filter_business_emails emails blacklist_domains blacklist_patterns)"

section \<open>analyzer.py: \_extract\_emails\<close>

text \<open>
  \<open>list.sort(key=..., reverse=True)\<close> is stable: elements with equal keys keep their
  order. With a Boolean key it is the stable ascending sort by the negated key.
\<close>

definition py_sort_reverse :: "('a \<Rightarrow> bool) \<Rightarrow> 'a list \<Rightarrow> 'a list" where
  "py_sort_reverse key xs = sort_key (\<lambda>x. \<not> key x) xs"

definition is_business :: "string \<Rightarrow> bool" where
  "is_business x = list_ex (\<lambda>keyword. py_in keyword (py_lower x)) BUSINESS_EMAIL_KEYWORDS"

text \<open>
  \<open>found\<close> is the result of \<open>re.findall(email_pattern, html_content)\<close>.
  \<open>list(set(found))\<close> keeps one copy of each match, in the iteration order of the set,
  which the language leaves open: \<open>set_iter\<close> is that order, a rearrangement of the
  distinct matches.
\<close>

definition extract_emails :: "(string list \<Rightarrow> string list) \<Rightarrow> string list \<Rightarrow> string list" where
  "extract_emails set_iter found =
     (let emails = set_iter (remdups found);
          filtered_emails = filter_business_emails emails BLACKLIST_DOMAINS BLACKLIST_EMAIL_PATTERNS;
          filtered_emails = py_sort_reverse is_business filtered_emails
      in take 10 filtered_emails)"


section \<open>Python values used by the analyzer\<close>

text \<open>Truth value of an optional string: \<open>None\<close> and the empty string are false.\<close>

definition py_truthy :: "string option \<Rightarrow> bool" where
  "py_truthy v = (case v of None \<Rightarrow> False | Some s \<Rightarrow> s \<noteq> [])"

text \<open>\<open>str(n)\<close> for an integer.\<close>

fun str_nat :: "nat \<Rightarrow> string" where
  "str_nat n = (if n < 10 then [digit_chars ! n] else str_nat (n div 10) @ [digit_chars ! (n mod 10)])"

declare str_nat.simps [simp del]

definition py_str_int :: "int \<Rightarrow> string" where
  "py_str_int i = (if i < 0 then ''-'' @ str_nat (nat (- i)) else str_nat (nat i))"

text \<open>
  The exceptions that reach the handlers of \<open>analyze_website\<close>, by the first
  \<open>except\<close> clause that catches them, and \<open>str(e)\<close>.
\<close>

datatype exc =
    Timeout
  | ConnectionError
  | KeyError string
  | NameError string
  | OtherException string

fun str_exc :: "exc \<Rightarrow> string" where
  "str_exc Timeout = ''''"
| "str_exc ConnectionError = ''''"
| "str_exc (KeyError k) = [CHR 0x27] @ k @ [CHR 0x27]"
| "str_exc (NameError n) = ''name '' @ [CHR 0x27] @ n @ [CHR 0x27] @ '' is not defined''"
| "str_exc (OtherException m) = m"

section \<open>analyzer.py: the result record\<close>

text \<open>
  The dictionary returned by \<open>_analyze_seo\<close>, with the keys that the issue checks and the
  score read. \<open>headers\<close> holds the items of the dictionary \<open>h1\<close> .. \<open>h6\<close>.
\<close>

record seo_analysis_dict =
  title :: "string option"
  title_length :: int
  meta_description :: "string option"
  meta_desc_length :: int
  headers :: "(string \<times> int) list"
  images_without_alt :: int
  images_without_lazy_loading :: int
  has_schema :: bool

text \<open>
  \<open>result['technical_seo']\<close>: \<open>{}\<close> at first, the dictionary of
  \<open>_analyze_technical_seo\<close> later, to which \<open>_check_important_files\<close> adds two keys. It is
  read with \<open>.get\<close> only, so a missing key and the value \<open>None\<close> are one case.
\<close>

record technical_seo_dict =
  viewport :: "string option"
  lang_attribute :: "string option"
  charset :: "string option"
  https :: "bool option"
  www_redirect :: "bool option"
  robots_txt :: "bool option"
  sitemap_xml :: "bool option"

definition empty_technical_seo :: technical_seo_dict where
  "empty_technical_seo =
     \<lparr>viewport = None, lang_attribute = None, charset = None, https = None,
      www_redirect = None, robots_txt = None, sitemap_xml = None\<rparr>"

record basic_info_dict =
  status_code :: int
  load_time_score :: int
  final_url :: string
  redirects :: int

text \<open>
  The result dictionary. \<open>basic_info\<close> and \<open>seo_analysis\<close> are \<open>None\<close> while they are
  still \<open>{}\<close>. \<open>seo_score\<close>, \<open>score_breakdown\<close>, \<open>error\<close>, \<open>is_competitor\<close> and
  \<open>main_site\<close> are \<open>None\<close> while the key is absent.
\<close>

record result =
  url :: string
  basic_info :: "basic_info_dict option"
  seo_analysis :: "seo_analysis_dict option"
  technical_seo :: technical_seo_dict
  open_graph :: "(string \<times> string) list"
  emails :: "string list"
  issues :: "string list"
  recommendations :: "string list"
  seo_score :: "int option"
  score_breakdown :: "(string \<times> int) list option"
  error :: "string option"
  is_competitor :: "bool option"
  main_site :: "string option"

definition add_issue :: "string \<Rightarrow> string \<Rightarrow> result \<Rightarrow> result" where
  "add_issue issue recommendation r =
     r\<lparr>issues := issues r @ [issue], recommendations := recommendations r @ [recommendation]\<rparr>"

definition add_recommendation :: "string \<Rightarrow> result \<Rightarrow> result" where
  "add_recommendation recommendation r =
     r\<lparr>recommendations := recommendations r @ [recommendation]\<rparr>"

text \<open>\<open>seo['headers'].get('h1', 0)\<close>\<close>

definition h1_count :: "seo_analysis_dict \<Rightarrow> int" where
  "h1_count seo = (case map_of (headers seo) ''h1'' of None \<Rightarrow> 0 | Some n \<Rightarrow> n)"

section \<open>analyzer.py: \_check\_seo\_issues\<close>

definition title_checks :: "seo_analysis_dict \<Rightarrow> result \<Rightarrow> result" where
  "title_checks seo r =
     (if \<not> py_truthy (title seo) then
        add_issue ''Missing title tag''
          ''Add a unique, descriptive title tag (30-60 characters)'' r
      else if title_length seo < 30 then
        add_issue ''Title too short (< 30 chars)''
          ''Expand title to 30-60 characters with relevant keywords'' r
      else if title_length seo > 60 then
        add_issue ''Title too long (> 60 chars)'' ''Shorten title to under 60 characters'' r
      else r)"

definition meta_description_checks :: "seo_analysis_dict \<Rightarrow> result \<Rightarrow> result" where
  "meta_description_checks seo r =
     (if \<not> py_truthy (meta_description seo) then
        add_issue ''Missing meta description''
          ''Add a compelling meta description (120-160 characters)'' r
      else if meta_desc_length seo < 120 then
        add_issue ''Meta description too short (< 120 chars)''
          ''Expand meta description to 120-160 characters'' r
      else if meta_desc_length seo > 160 then
        add_issue ''Meta description too long (> 160 chars)''
          ''Shorten meta description to under 160 characters'' r
      else r)"

definition header_checks :: "seo_analysis_dict \<Rightarrow> result \<Rightarrow> result" where
  "header_checks seo r =
     (if h1_count seo = 0 then
        add_issue ''Missing H1 tag'' ''Add one H1 tag with main keyword'' r
      else if h1_count seo > 1 then
        add_issue (''Multiple H1 tags ('' @ py_str_int (h1_count seo) @ '')'')
          ''Use only one H1 tag per page'' r
      else r)"

definition image_checks :: "seo_analysis_dict \<Rightarrow> result \<Rightarrow> result" where
  "image_checks seo r =
     (let r = (if images_without_alt seo > 0 then
                 add_issue (py_str_int (images_without_alt seo) @ '' images missing alt text'')
                   ''Add descriptive alt text to all images'' r
               else r)
      in if images_without_lazy_loading seo > 5 then
           add_recommendation ''Implement lazy loading for images'' r
         else r)"

definition schema_check :: "seo_analysis_dict \<Rightarrow> result \<Rightarrow> result" where
  "schema_check seo r =
     (if \<not> has_schema seo then add_recommendation ''Add Schema.org structured data'' r else r)"

definition open_graph_check :: "result \<Rightarrow> result" where
  "open_graph_check r =
     (if open_graph r = [] then
        add_recommendation ''Add Open Graph tags for better social sharing'' r
      else r)"

text \<open>
  \<open>_check_seo_issues\<close> appends to the lists of the result in place and returns nothing:
  the model returns the raised exception, if any, and the result as it stands then. On
  the \<open>{}\<close> of a fresh result both \<open>.get\<close> tests see \<open>None\<close> and \<open>seo['headers']\<close>
  raises.
\<close>

definition check_seo_issues :: "result \<Rightarrow> exc option \<times> result" where
  "check_seo_issues r =
     (case seo_analysis r of
        None \<Rightarrow>
          (Some (KeyError ''headers''),
           add_issue ''Missing meta description''
             ''Add a compelling meta description (120-160 characters)''
             (add_issue ''Missing title tag''
                ''Add a unique, descriptive title tag (30-60 characters)'' r))
      | Some seo \<Rightarrow>
          (None,
           open_graph_check (schema_check seo (image_checks seo
             (header_checks seo (meta_description_checks seo (title_checks seo r)))))))"

section \<open>analyzer.py: calculate\_seo\_score\<close>

text \<open>The state of the function: \<open>score\<close> and the list \<open>penalties\<close>.\<close>

type_synonym score_state = "int \<times> (string \<times> int) list"

definition penalise :: "string \<Rightarrow> int \<Rightarrow> score_state \<Rightarrow> score_state" where
  "penalise label amount st = (fst st - amount, snd st @ [(label, - amount)])"

definition title_penalties :: "seo_analysis_dict \<Rightarrow> score_state \<Rightarrow> score_state" where
  "title_penalties seo st =
     (if \<not> py_truthy (title seo) then penalise ''Missing title tag'' 15 st
      else if title_length seo < 30 then penalise ''Title too short'' 5 st
      else if title_length seo > 60 then penalise ''Title too long'' 5 st
      else st)"

definition meta_description_penalties :: "seo_analysis_dict \<Rightarrow> score_state \<Rightarrow> score_state" where
  "meta_description_penalties seo st =
     (if \<not> py_truthy (meta_description seo) then penalise ''Missing meta description'' 10 st
      else if meta_desc_length seo < 120 then penalise ''Meta description too short'' 5 st
      else if meta_desc_length seo > 160 then penalise ''Meta description too long'' 5 st
      else st)"

definition h1_penalties :: "seo_analysis_dict \<Rightarrow> score_state \<Rightarrow> score_state" where
  "h1_penalties seo st =
     (if h1_count seo = 0 then penalise ''Missing H1 tag'' 10 st
      else if h1_count seo > 1 then penalise ''Multiple H1 tags'' 5 st
      else st)"

definition image_penalties :: "seo_analysis_dict \<Rightarrow> score_state \<Rightarrow> score_state" where
  "image_penalties seo st =
     (if images_without_alt seo > 0 then
        penalise (py_str_int (images_without_alt seo) @ '' images without alt text'')
          (min 10 (images_without_alt seo * 2)) st
      else st)"

definition technical_penalties :: "technical_seo_dict \<Rightarrow> score_state \<Rightarrow> score_state" where
  "technical_penalties tech st =
     (let st = (if https tech \<noteq> Some True then penalise ''Not using HTTPS'' 10 st else st);
          st = (if \<not> py_truthy (viewport tech) then penalise ''Not mobile-friendly'' 10 st else st);
          st = (if robots_txt tech \<noteq> Some True then penalise ''Missing robots.txt'' 5 st else st);
          st = (if sitemap_xml tech \<noteq> Some True then penalise ''Missing sitemap.xml'' 5 st else st)
      in st)"

text \<open>\<open>result.get('basic_info', {}).get('load_time_score', 100)\<close>\<close>

definition get_load_time_score :: "result \<Rightarrow> int" where
  "get_load_time_score r = (case basic_info r of None \<Rightarrow> 100 | Some b \<Rightarrow> load_time_score b)"

definition performance_penalties :: "result \<Rightarrow> score_state \<Rightarrow> score_state" where
  "performance_penalties r st =
     (if get_load_time_score r < 50 then penalise ''Slow load time'' 10 st else st)"

definition schema_bonus :: "seo_analysis_dict \<Rightarrow> score_state \<Rightarrow> score_state" where
  "schema_bonus seo st =
     (if has_schema seo then (min 100 (fst st + 5), snd st @ [(''Has Schema markup'', 5)]) else st)"

text \<open>
  \<open>calculate_seo_score\<close>. On a result whose \<open>seo_analysis\<close> is still \<open>{}\<close> the title and
  the description are read with \<open>.get\<close>, then \<open>result['seo_analysis']['headers']\<close> raises.
\<close>

definition calculate_seo_score :: "result \<Rightarrow> exc + (int \<times> (string \<times> int) list)" where
  "calculate_seo_score r =
     (case seo_analysis r of
        None \<Rightarrow> Inl (KeyError ''headers'')
      | Some seo \<Rightarrow>
          (let st = (100, []);
               st = title_penalties seo st;
               st = meta_description_penalties seo st;
               st = h1_penalties seo st;
               st = image_penalties seo st;
               st = technical_penalties (technical_seo r) st;
               st = performance_penalties r st;
               st = schema_bonus seo st
           in Inr (max 0 (fst st), snd st)))"

text \<open>The state of \<open>calculate_seo_score\<close> when it reaches the schema bonus.\<close>

definition penalties_before_bonus :: "result \<Rightarrow> seo_analysis_dict \<Rightarrow> score_state" where
  "penalties_before_bonus r seo =
     performance_penalties r (technical_penalties (technical_seo r)
       (image_penalties seo (h1_penalties seo
          (meta_description_penalties seo (title_penalties seo (100, []))))))"


text \<open>
  The rubric as the specification words it: the signed deltas, in the fixed order title,
  meta description, H1, images without alt text, HTTPS, viewport, robots.txt, sitemap.xml,
  slow load, schema.
\<close>

definition spec_title_deltas :: "seo_analysis_dict \<Rightarrow> int list" where
  "spec_title_deltas seo =
     (if \<not> py_truthy (title seo) then [- 15]
      else if title_length seo < 30 then [- 5]
      else if title_length seo > 60 then [- 5]
      else [])"

definition spec_meta_deltas :: "seo_analysis_dict \<Rightarrow> int list" where
  "spec_meta_deltas seo =
     (if \<not> py_truthy (meta_description seo) then [- 10]
      else if meta_desc_length seo < 120 then [- 5]
      else if meta_desc_length seo > 160 then [- 5]
      else [])"

definition spec_h1_deltas :: "seo_analysis_dict \<Rightarrow> int list" where
  "spec_h1_deltas seo =
     (if h1_count seo = 0 then [- 10] else if h1_count seo > 1 then [- 5] else [])"

definition spec_image_deltas :: "seo_analysis_dict \<Rightarrow> int list" where
  "spec_image_deltas seo =
     (if images_without_alt seo > 0 then [max (- 10) (- 2 * images_without_alt seo)] else [])"

definition spec_deltas :: "result \<Rightarrow> seo_analysis_dict \<Rightarrow> int list" where
  "spec_deltas r seo =
     spec_title_deltas seo @ spec_meta_deltas seo @ spec_h1_deltas seo @ spec_image_deltas seo
     @ (if https (technical_seo r) = Some True then [] else [- 10])
     @ (if py_truthy (viewport (technical_seo r)) then [] else [- 10])
     @ (if robots_txt (technical_seo r) = Some True then [] else [- 5])
     @ (if sitemap_xml (technical_seo r) = Some True then [] else [- 5])
     @ (if get_load_time_score r < 50 then [- 10] else [])
     @ (if has_schema seo then [5] else [])"

text \<open>The entries that the title block of \<open>calculate_seo_score\<close> appends to \<open>penalties\<close>.\<close>

definition title_breakdown :: "seo_analysis_dict \<Rightarrow> (string \<times> int) list" where
  "title_breakdown seo = snd (title_penalties seo (100, []))"

section \<open>analyzer.py: analyze\_website\<close>

text \<open>
  The page parser and the network are outside the model. A fetched page is given by what
  the queries of the analyzer return on it: \<open>soup_seo\<close> is the dictionary of
  \<open>_analyze_seo(soup)\<close>; \<open>soup_viewport\<close> is \<open>None\<close> when the page has no viewport
  meta tag and the tag's \<open>content\<close> attribute otherwise; \<open>soup_lang\<close> is the \<open>lang\<close>
  attribute of the \<open>html\<close> element; \<open>found_emails\<close> is the result of \<open>re.findall\<close> on
  the page text.
\<close>

record response =
  resp_status_code :: int
  resp_url :: string
  resp_history_length :: int
  soup_seo :: seo_analysis_dict
  soup_viewport :: "string option option"
  soup_lang :: "string option"
  soup_charset :: "string option"
  soup_open_graph :: "(string \<times> string) list"
  found_emails :: "string list"

text \<open>
  The network: \<open>http_get\<close> is the page fetch of \<open>analyze_website\<close>, which raises or
  returns the response with the measured load time in seconds; \<open>http_status\<close> is the
  fetch of an auxiliary file, which raises or returns the status code; \<open>site_root\<close> is
  \<open>urlparse(url).scheme + '://' + urlparse(url).netloc\<close>; \<open>set_order\<close> is the iteration
  order of a set of strings.
\<close>

record network =
  http_get :: "string \<Rightarrow> exc + response \<times> rat"
  http_status :: "string \<Rightarrow> exc + int"
  site_root :: "string \<Rightarrow> string"
  set_order :: "string list \<Rightarrow> string list"

definition new_result :: "string \<Rightarrow> result" where
  "new_result u =
     \<lparr>url = u, basic_info = None, seo_analysis = None, technical_seo = empty_technical_seo,
      open_graph = [], emails = [], issues = [], recommendations = [], seo_score = None,
      score_breakdown = None, error = None, is_competitor = None, main_site = None\<rparr>"

definition analyze_basic_info :: "response \<Rightarrow> rat \<Rightarrow> basic_info_dict" where
  "analyze_basic_info response load_time =
     \<lparr>status_code = resp_status_code response,
      load_time_score = (if load_time < 1 then 100 else if load_time < 3 then 80
                         else if load_time < 5 then 50 else 20),
      final_url = resp_url response,
      redirects = resp_history_length response\<rparr>"

text \<open>
  \<open>_analyze_technical_seo(self, soup, url, response)\<close> builds its dictionary and then, in
  each of its three \<open>if\<close> blocks, evaluates \<open>result['issues']\<close>. The name \<open>result\<close> is
  neither a parameter, nor a local, nor a global of the module: the first block entered
  raises \<open>NameError\<close>.
\<close>

definition analyze_technical_seo :: "response \<Rightarrow> string \<Rightarrow> exc + technical_seo_dict" where
  "analyze_technical_seo response u =
     (let viewport_tag = soup_viewport response;
          lang = soup_lang response;
          tech_seo =
            \<lparr>viewport = (case viewport_tag of None \<Rightarrow> None | Some content \<Rightarrow> content),
             lang_attribute = lang,
             charset = soup_charset response,
             https = Some (py_startswith u ''https://''),
             www_redirect = Some (py_in ''www.'' (resp_url response)),
             robots_txt = None, sitemap_xml = None\<rparr>
      in if viewport_tag = None then Inl (NameError ''result'')
         else if \<not> py_truthy lang then Inl (NameError ''result'')
         else if \<not> py_startswith u ''https://'' then Inl (NameError ''result'')
         else Inr tech_seo)"

text \<open>
  \<open>_check_important_files\<close>: any exception of an auxiliary fetch counts as absence.
\<close>

definition file_present :: "network \<Rightarrow> string \<Rightarrow> bool" where
  "file_present net u = (case http_status net u of Inl e \<Rightarrow> False | Inr code \<Rightarrow> code = 200)"

definition check_important_files :: "network \<Rightarrow> string \<Rightarrow> result \<Rightarrow> result" where
  "check_important_files net u r =
     (let domain = site_root net u;
          robots = file_present net (domain @ ''/robots.txt'');
          sitemap = file_present net (domain @ ''/sitemap.xml'');
          r = r\<lparr>technical_seo :=
                  (technical_seo r)\<lparr>robots_txt := Some robots, sitemap_xml := Some sitemap\<rparr>\<rparr>;
          r = (if robots then r
               else add_issue ''No robots.txt file found'' ''Create robots.txt file'' r);
          r = (if sitemap then r
               else add_issue ''No sitemap.xml file found'' ''Create XML sitemap'' r)
      in r)"

text \<open>
  The body of the \<open>try\<close> block of \<open>analyze_website\<close>: the exception that leaves it, if
  any, and the result dictionary as it stands then. The content-quality and social-media
  steps catch their own exceptions and touch no field modelled here.
\<close>

definition try_analyze :: "network \<Rightarrow> string \<Rightarrow> result \<Rightarrow> exc option \<times> result" where
  "try_analyze net u r =
     (case http_get net u of
        Inl e \<Rightarrow> (Some e, r)
      | Inr (response, load_time) \<Rightarrow>
          (let r = r\<lparr>basic_info := Some (analyze_basic_info response load_time)\<rparr>;
               r = r\<lparr>seo_analysis := Some (soup_seo response)\<rparr>
           in case check_seo_issues r of
                (Some e, r) \<Rightarrow> (Some e, r)
              | (None, r) \<Rightarrow>
                  (case analyze_technical_seo response u of
                     Inl e \<Rightarrow> (Some e, r)
                   | Inr tech \<Rightarrow>
                       (let r = r\<lparr>technical_seo := tech\<rparr>;
                            r = r\<lparr>open_graph := soup_open_graph response\<rparr>;
                            r = r\<lparr>emails := extract_emails (set_order net) (found_emails response)\<rparr>;
                            r = check_important_files net u r
                        in case calculate_seo_score r of
                             Inl e \<Rightarrow> (Some e, r)
                           | Inr (score, breakdown) \<Rightarrow>
                               (None, r\<lparr>seo_score := Some score,
                                        score_breakdown := Some breakdown\<rparr>)))))"

definition on_exception :: "string \<Rightarrow> string \<Rightarrow> result \<Rightarrow> result" where
  "on_exception message issue r =
     r\<lparr>error := Some message, issues := issues r @ [issue], seo_score := Some 0\<rparr>"

definition analyze_website :: "network \<Rightarrow> string \<Rightarrow> result" where
  "analyze_website net u =
     (case try_analyze net u (new_result u) of
        (None, r) \<Rightarrow> r
      | (Some Timeout, r) \<Rightarrow> on_exception ''Website took too long to respond'' ''Timeout error'' r
      | (Some ConnectionError, r) \<Rightarrow>
          on_exception ''Could not connect to website'' ''Connection error'' r
      | (Some e, r) \<Rightarrow> on_exception (str_exc e) (''Analysis error: '' @ str_exc e) r)"

section \<open>app.py: the pipeline\<close>

text \<open>The ASCII characters that \<open>str.strip\<close> removes.\<close>

definition py_whitespace :: string where
  "py_whitespace =
     [CHR '' '', CHR 0x09, CHR 0x0A, CHR 0x0B, CHR 0x0C, CHR 0x0D,
      CHR 0x1C, CHR 0x1D, CHR 0x1E, CHR 0x1F]"

definition py_strip :: "string \<Rightarrow> string" where
  "py_strip s =
     rev (dropWhile (\<lambda>c. c \<in> set py_whitespace) (rev (dropWhile (\<lambda>c. c \<in> set py_whitespace) s)))"

definition ensure_url_protocol :: "string \<Rightarrow> string" where
  "ensure_url_protocol u0 =
     (let u = py_strip u0
      in if u \<noteq> [] \<and> \<not> (py_startswith u ''http://'' \<or> py_startswith u ''https://'')
         then ''https://'' @ u else u)"

text \<open>
  \<open>parse_websites\<close>: one seed per non-empty line of the input text. \<open>is_valid_url\<close>
  (\<open>urlparse\<close> finds a scheme and a host) is a parameter.
\<close>

fun parse_lines :: "(string \<Rightarrow> bool) \<Rightarrow> string list \<Rightarrow> string list" where
  "parse_lines is_valid_url [] = []"
| "parse_lines is_valid_url (line # lines) =
     (let u = py_strip line
      in if u \<noteq> [] then
           (let u = ensure_url_protocol u
            in if is_valid_url u then u # parse_lines is_valid_url lines
               else parse_lines is_valid_url lines)
         else parse_lines is_valid_url lines)"

definition parse_websites :: "(string \<Rightarrow> bool) \<Rightarrow> string \<Rightarrow> string list" where
  "parse_websites is_valid_url text = parse_lines is_valid_url (py_split (CHR 0x0A) (py_strip text))"

text \<open>
  \<open>run_analysis\<close>: \<open>all_sites\<close> starts as a copy of the seeds; each competitor that is
  not yet in the list is appended. \<open>competitors\<close> holds the items of the dictionary
  returned by \<open>find_all_competitors\<close>.
\<close>

fun add_unique :: "string list \<Rightarrow> string list \<Rightarrow> string list" where
  "add_unique all_sites [] = all_sites"
| "add_unique all_sites (competitor # comps) =
     (if competitor \<in> set all_sites then add_unique all_sites comps
      else add_unique (all_sites @ [competitor]) comps)"

fun collect_sites :: "string list \<Rightarrow> (string \<times> string list) list \<Rightarrow> string list" where
  "collect_sites all_sites [] = all_sites"
| "collect_sites all_sites ((site, comps) # rest) = collect_sites (add_unique all_sites comps) rest"

text \<open>\<open>analysis_callback\<close> of \<open>analyze_all_sites\<close>.\<close>

definition analysis_callback ::
  "string list \<Rightarrow> (string \<times> string list) list \<Rightarrow> result \<Rightarrow> result" where
  "analysis_callback websites competitor_map r =
     (if url r \<in> set websites then r\<lparr>is_competitor := Some False, main_site := Some (url r)\<rparr>
      else (case find (\<lambda>(main, comps). url r \<in> set comps) competitor_map of
              None \<Rightarrow> r\<lparr>is_competitor := Some True\<rparr>
            | Some (main, comps) \<Rightarrow> r\<lparr>is_competitor := Some True, main_site := Some main\<rparr>))"

text \<open>
  One analysis is started for each element of \<open>all_sites\<close>; each hands one result to the
  callback, and \<open>handle_analysis_result\<close> appends it to \<open>self.results\<close>. The results are
  listed here in the order of dispatch.
\<close>

definition run_analysis ::
  "network \<Rightarrow> bool \<Rightarrow> (string \<times> string list) list \<Rightarrow> string list \<Rightarrow> result list" where
  "run_analysis net include_competitors competitors websites =
     (let all_sites = (if include_competitors then collect_sites websites competitors else websites);
          competitor_map = (if include_competitors then competitors else [])
      in map (\<lambda>site. analysis_callback websites competitor_map (analyze_website net site)) all_sites)"

text \<open>
  Names for two intermediate states of \<open>analyze_website\<close>: the result after
  \<open>_check_seo_issues\<close>, and the result that is handed to \<open>calculate_seo_score\<close>.
\<close>

definition after_seo_checks :: "response \<Rightarrow> rat \<Rightarrow> result \<Rightarrow> result" where
  "after_seo_checks response load_time r =
     snd (check_seo_issues
            (r\<lparr>basic_info := Some (analyze_basic_info response load_time),
               seo_analysis := Some (soup_seo response)\<rparr>))"

definition before_scoring ::
  "network \<Rightarrow> string \<Rightarrow> response \<Rightarrow> rat \<Rightarrow> technical_seo_dict \<Rightarrow> result \<Rightarrow> result" where
  "before_scoring net u response load_time tech r =
     check_important_files net u
       ((after_seo_checks response load_time r)
          \<lparr>technical_seo := tech, open_graph := soup_open_graph response,
           emails := extract_emails (set_order net) (found_emails response)\<rparr>)"

section \<open>Example inputs\<close>

definition example_seo_all_penalties :: seo_analysis_dict where
  "example_seo_all_penalties =
     \<lparr>title = None, title_length = 0, meta_description = None, meta_desc_length = 0,
      headers = [(''h1'', 0), (''h2'', 0), (''h3'', 0), (''h4'', 0), (''h5'', 0), (''h6'', 0)],
      images_without_alt = 7, images_without_lazy_loading = 9, has_schema = False\<rparr>"

definition example_all_penalties :: result where
  "example_all_penalties =
     (new_result ''http://acme.test'')
       \<lparr>basic_info := Some \<lparr>status_code = 200, load_time_score = 20,
                             final_url = ''http://acme.test'', redirects = 0\<rparr>,
        seo_analysis := Some example_seo_all_penalties,
        technical_seo := empty_technical_seo\<lparr>https := Some False, robots_txt := Some False,
                                               sitemap_xml := Some False\<rparr>\<rparr>"

definition example_seo_good :: seo_analysis_dict where
  "example_seo_good =
     \<lparr>title = Some ''Acme Tools - Hand Tools and Power Tools Store'', title_length = 45,
      meta_description = Some ''Acme sells hand tools and power tools.'', meta_desc_length = 140,
      headers = [(''h1'', 1), (''h2'', 3), (''h3'', 0), (''h4'', 0), (''h5'', 0), (''h6'', 0)],
      images_without_alt = 0, images_without_lazy_loading = 2, has_schema = True\<rparr>"

definition example_seo_short_title :: seo_analysis_dict where
  "example_seo_short_title = example_seo_good\<lparr>title := Some ''Acme store'', title_length := 10\<rparr>"

definition example_short_title :: result where
  "example_short_title =
     (new_result ''https://acme.test'')\<lparr>seo_analysis := Some example_seo_short_title\<rparr>"

definition example_page :: response where
  "example_page =
     \<lparr>resp_status_code = 200, resp_url = ''https://acme.test/'', resp_history_length = 0,
      soup_seo = example_seo_good,
      soup_viewport = Some (Some ''width=device-width, initial-scale=1''),
      soup_lang = Some ''en'', soup_charset = Some ''utf-8'',
      soup_open_graph = [(''og:title'', ''Acme Tools'')],
      found_emails = [''contact@acme.com'', ''noreply@acme.com'']\<rparr>"

text \<open>
  A network in which \<open>acme.test\<close> answers with the example page over both schemes,
  \<open>slow.test\<close> times out, \<open>down.test\<close> refuses the connection, every other fetch fails
  otherwise, and every auxiliary file exists.
\<close>

definition example_network :: network where
  "example_network =
     \<lparr>http_get = (\<lambda>u. if u = ''https://acme.test'' \<or> u = ''http://acme.test''
                          then Inr (example_page, 1 / 2)
                        else if u = ''https://slow.test'' then Inl Timeout
                        else if u = ''https://down.test'' then Inl ConnectionError
                        else Inl (OtherException ''Invalid URL'')),
      http_status = (\<lambda>u. Inr 200),
      site_root = (\<lambda>u. u),
      set_order = (\<lambda>xs. xs)\<rparr>"

section \<open>ai\_module.py: credentials and generate\_with\_retry\<close>

text \<open>
  The state of \<open>AIModule\<close> that generation reads and writes. A model is identified by
  the key it was configured with. The provider is outside the model: \<open>generate_content\<close>
  is a parameter that maps the number of calls made so far in this request, the model and
  the prompt to the text of the response (\<open>Inr\<close>) or to the message of the exception it
  raises (\<open>Inl\<close>).
\<close>

record ai_module =
  gemini_models :: "string list"
  current_key_index :: nat
  is_initialized :: bool

type_synonym provider = "nat \<Rightarrow> string \<Rightarrow> string \<Rightarrow> string + string"

text \<open>
  \<open>get_current_model\<close>: \<open>None\<close> without models, the model at the current index
  otherwise; \<open>IndexError\<close> (as its message) if the index were out of range.
\<close>

definition get_current_model :: "ai_module \<Rightarrow> string + string option" where
  "get_current_model ai =
     (if \<not> is_initialized ai \<or> gemini_models ai = [] then Inr None
      else if current_key_index ai < length (gemini_models ai)
        then Inr (Some (gemini_models ai ! current_key_index ai))
      else Inl ''list index out of range'')"

definition rotate_key :: "ai_module \<Rightarrow> bool \<times> ai_module" where
  "rotate_key ai =
     (if length (gemini_models ai) > 1 then
        (True, ai\<lparr>current_key_index := (current_key_index ai + 1) mod length (gemini_models ai)\<rparr>)
      else (False, ai))"

definition is_rate_limit :: "string \<Rightarrow> bool" where
  "is_rate_limit error_msg = (py_in ''RATE_LIMIT_EXCEEDED'' error_msg \<or> py_in ''429'' error_msg)"

text \<open>
  What one request does: how it ends, the module afterwards, the attempts in order (the
  index of the key used and what the attempt gave), and the arguments of \<open>time.sleep\<close> in
  order.
\<close>

datatype gen_result = Response string | NoResponse | Raised string

record gen_run =
  outcome :: gen_result
  final_ai :: ai_module
  attempts :: "(nat \<times> (string + string)) list"
  sleeps :: "nat list"

definition cons_attempt :: "nat \<times> (string + string) \<Rightarrow> gen_run \<Rightarrow> gen_run" where
  "cons_attempt a run = run\<lparr>attempts := a # attempts run\<rparr>"

definition cons_sleep :: "nat \<Rightarrow> gen_run \<Rightarrow> gen_run" where
  "cons_sleep d run = run\<lparr>sleeps := d # sleeps run\<rparr>"

text \<open>
  The body of the \<open>try\<close> of one iteration: \<open>None\<close> when there is no model and the
  function returns \<open>None\<close>, the response, or the message of the exception caught.
\<close>

definition try_generate :: "provider \<Rightarrow> nat \<Rightarrow> ai_module \<Rightarrow> string \<Rightarrow> (string + string) option" where
  "try_generate generate_content calls ai prompt =
     (case get_current_model ai of
        Inl error_msg \<Rightarrow> Some (Inl error_msg)
      | Inr None \<Rightarrow> None
      | Inr (Some model) \<Rightarrow> Some (generate_content calls model prompt))"

function retry_loop ::
  "provider \<Rightarrow> string \<Rightarrow> nat \<Rightarrow> ai_module \<Rightarrow> nat \<Rightarrow> nat \<Rightarrow> nat \<Rightarrow> gen_run" where
  "retry_loop generate_content prompt max_retries ai retries keys_tried calls =
     (if retries < max_retries \<and> keys_tried < length (gemini_models ai) then
        (case try_generate generate_content calls ai prompt of
           None \<Rightarrow> \<lparr>outcome = NoResponse, final_ai = ai, attempts = [], sleeps = []\<rparr>
         | Some (Inr text) \<Rightarrow>
             \<lparr>outcome = Response text, final_ai = ai,
              attempts = [(current_key_index ai, Inr text)], sleeps = []\<rparr>
         | Some (Inl error_msg) \<Rightarrow>
             (if is_rate_limit error_msg then
                (if fst (rotate_key ai) then
                   cons_attempt (current_key_index ai, Inl error_msg)
                     (retry_loop generate_content prompt max_retries (snd (rotate_key ai))
                        retries (keys_tried + 1) (calls + 1))
                 else
                   \<lparr>outcome = Raised ''All API keys have hit rate limits'',
                    final_ai = snd (rotate_key ai),
                    attempts = [(current_key_index ai, Inl error_msg)], sleeps = []\<rparr>)
              else if retries + 1 < max_retries then
                cons_attempt (current_key_index ai, Inl error_msg)
                  (cons_sleep (2 ^ (retries + 1))
                     (retry_loop generate_content prompt max_retries ai
                        (retries + 1) keys_tried (calls + 1)))
              else
                \<lparr>outcome = Raised error_msg, final_ai = ai,
                 attempts = [(current_key_index ai, Inl error_msg)], sleeps = []\<rparr>))
      else \<lparr>outcome = NoResponse, final_ai = ai, attempts = [], sleeps = []\<rparr>)"
  by pat_completeness auto
termination
  by (relation "measure (\<lambda>(g, p, max_retries, ai, retries, keys_tried, calls).
         (max_retries - retries) + (length (gemini_models ai) - keys_tried))")
     (auto simp: rotate_key_def)

declare retry_loop.simps [simp del]

definition generate_with_retry :: "provider \<Rightarrow> ai_module \<Rightarrow> string \<Rightarrow> gen_run" where
  "generate_with_retry generate_content ai prompt =
     (if \<not> is_initialized ai then
        \<lparr>outcome = NoResponse, final_ai = ai, attempts = [], sleeps = []\<rparr>
      else retry_loop generate_content prompt 3 ai 0 0 0)"

definition rate_limited :: "nat \<times> (string + string) \<Rightarrow> bool" where
  "rate_limited a = (case snd a of Inl error_msg \<Rightarrow> is_rate_limit error_msg | Inr text \<Rightarrow> False)"

definition other_error :: "nat \<times> (string + string) \<Rightarrow> bool" where
  "other_error a = (case snd a of Inl error_msg \<Rightarrow> \<not> is_rate_limit error_msg | Inr text \<Rightarrow> False)"

text \<open>The key that the attempt after \<open>a\<close> uses, with \<open>n\<close> keys in the rotation.\<close>

definition key_after :: "nat \<Rightarrow> nat \<times> (string + string) \<Rightarrow> nat" where
  "key_after n a = (if rate_limited a then (fst a + 1) mod n else fst a)"

text \<open>
  How a request ends after a last attempt \<open>a\<close>, with \<open>n\<close> keys in the rotation: with the
  response; after a rate-limit error with \<open>None\<close> when the rotation has come round, and
  with the exception of the exhausted keys when there is one key only; after another error
  with that error.
\<close>

definition final_outcome :: "nat \<Rightarrow> nat \<times> (string + string) \<Rightarrow> gen_result" where
  "final_outcome n a =
     (case snd a of
        Inr reply \<Rightarrow> Response reply
      | Inl error_msg \<Rightarrow>
          if is_rate_limit error_msg then
            (if 1 < n then NoResponse else Raised ''All API keys have hit rate limits'')
          else Raised error_msg)"

text \<open>
  An example: two keys; the first is rate-limited, the second fails twice with another
  error and then answers.
\<close>

definition example_ai :: ai_module where
  "example_ai = \<lparr>gemini_models = [''key-a'', ''key-b''], current_key_index = 0, is_initialized = True\<rparr>"

definition example_provider :: provider where
  "example_provider calls model prompt =
     (if model = ''key-a'' then Inl ''429 RATE_LIMIT_EXCEEDED''
      else if calls < 3 then Inl ''503 unavailable''
      else Inr ''generated text'')"

definition always_rate_limited :: provider where
  "always_rate_limited calls model prompt = Inl ''429 RATE_LIMIT_EXCEEDED''"

definition always_unavailable :: provider where
  "always_unavailable calls model prompt = Inl ''503 unavailable''"

section \<open>ai\_module.py: finding competitors\<close>

text \<open>A parsed JSON document; an object is the list of its items.\<close>

datatype json =
    JNull
  | JBool bool
  | JNum int
  | JStr string
  | JArr "json list"
  | JObj "(string \<times> json) list"

text \<open>
  What lies outside \<open>find_competitors\<close>: whether the search library was imported;
  \<open>search\<close>, the result URLs that a query yields before the search ends or raises (an
  exception of the search is caught and only ends that query); \<open>tld_extract\<close>, the
  \<open>domain\<close> and \<open>suffix\<close> that \<open>tldextract.extract\<close> finds; \<open>urlparse_ok\<close>, whether
  \<open>urlparse\<close> accepts the URL; \<open>parse_response\<close>, the response text stripped, freed of
  code fences and given to \<open>json.loads\<close>, \<open>None\<close> for \<open>JSONDecodeError\<close>;
  \<open>competitor_prompt\<close>, the prompt text for a URL.
\<close>

record finder =
  GOOGLE_SEARCH_AVAILABLE :: bool
  search :: "string \<Rightarrow> string list"
  tld_extract :: "string \<Rightarrow> string \<times> string"
  urlparse_ok :: "string \<Rightarrow> bool"
  parse_response :: "string \<Rightarrow> json option"
  competitor_prompt :: "string \<Rightarrow> string"

text \<open>The registered domain of a URL, \<open>f"{ext.domain}.{ext.suffix}"\<close>.\<close>

definition registered_domain :: "(string \<Rightarrow> string \<times> string) \<Rightarrow> string \<Rightarrow> string" where
  "registered_domain extract u = fst (extract u) @ ''.'' @ snd (extract u)"

text \<open>
  The inner loop of \<open>find_competitors_fallback\<close> over the results of one query, on the
  pair of \<open>found_domains\<close> and \<open>competitors\<close>; it stops at three competitors.
\<close>

fun scan_results ::
  "(string \<Rightarrow> string \<times> string) \<Rightarrow> string \<Rightarrow> string list \<Rightarrow> string list \<times> string list
     \<Rightarrow> string list \<times> string list" where
  "scan_results extract own [] st = st"
| "scan_results extract own (result # results) st =
     (let result_domain = registered_domain extract result
      in if result_domain \<noteq> own \<and> result_domain \<notin> set (fst st)
            \<and> fst (extract result) \<noteq> [] \<and> snd (extract result) \<noteq> [] then
           (let st = (fst st @ [result_domain], snd st @ [''https://'' @ result_domain])
            in if length (snd st) \<ge> 3 then st else scan_results extract own results st)
         else scan_results extract own results st)"

text \<open>The outer loop over the queries; it stops at three competitors.\<close>

fun run_queries ::
  "finder \<Rightarrow> string \<Rightarrow> string list \<Rightarrow> string list \<times> string list \<Rightarrow> string list \<times> string list" where
  "run_queries f own [] st = st"
| "run_queries f own (query # queries) st =
     (let st = scan_results (tld_extract f) own (search f query) st
      in if length (snd st) \<ge> 3 then st else run_queries f own queries st)"

definition find_competitors_fallback :: "finder \<Rightarrow> string \<Rightarrow> string list" where
  "find_competitors_fallback f domain =
     (if \<not> GOOGLE_SEARCH_AVAILABLE f then []
      else
        (let domain_name = fst (tld_extract f domain);
             own = registered_domain (tld_extract f) domain;
             search_queries = [domain_name @ '' competitors'', ''sites like '' @ domain_name,
                               domain_name @ '' alternatives''];
             competitors = snd (run_queries f own (take 2 search_queries) ([], []))
         in take 3 competitors))"

text \<open>
  Reading the competitors out of the parsed answer. \<open>None\<close> stands for an exception
  (\<open>AttributeError\<close> or \<open>TypeError\<close> on a value of the wrong shape), which the outer
  handler of the function turns into the fallback.
\<close>

fun json_truthy :: "json \<Rightarrow> bool" where
  "json_truthy JNull = False"
| "json_truthy (JBool b) = b"
| "json_truthy (JNum n) = (n \<noteq> 0)"
| "json_truthy (JStr s) = (s \<noteq> [])"
| "json_truthy (JArr xs) = (xs \<noteq> [])"
| "json_truthy (JObj kvs) = (kvs \<noteq> [])"

text \<open>\<open>for comp in value\<close>: the elements of a list, the keys of an object, the characters of a string.\<close>

fun json_iter :: "json \<Rightarrow> json list option" where
  "json_iter (JArr xs) = Some xs"
| "json_iter (JObj kvs) = Some (map (\<lambda>kv. JStr (fst kv)) kvs)"
| "json_iter (JStr s) = Some (map (\<lambda>c. JStr [c]) s)"
| "json_iter v = None"

fun collect_urls :: "json list \<Rightarrow> string list \<Rightarrow> string list option" where
  "collect_urls [] competitors = Some competitors"
| "collect_urls (JObj kvs # comps) competitors =
     (let u = (case map_of kvs ''url'' of None \<Rightarrow> JStr [] | Some v \<Rightarrow> v)
      in if json_truthy u then
           (case u of
              JStr s \<Rightarrow>
                collect_urls comps
                  (competitors @ [if py_startswith s ''http://'' \<or> py_startswith s ''https://''
                                  then s else ''https://'' @ s])
            | _ \<Rightarrow> None)
         else collect_urls comps competitors)"
| "collect_urls (v # comps) competitors = None"

definition competitors_of_json :: "json \<Rightarrow> string list option" where
  "competitors_of_json data =
     (case data of
        JObj kvs \<Rightarrow>
          (case json_iter (case map_of kvs ''competitors'' of None \<Rightarrow> JArr [] | Some v \<Rightarrow> v) of
             None \<Rightarrow> None
           | Some comps \<Rightarrow> collect_urls comps [])
      | _ \<Rightarrow> None)"

definition find_competitors_with_gemini ::
  "provider \<Rightarrow> finder \<Rightarrow> ai_module \<Rightarrow> string \<Rightarrow> string list" where
  "find_competitors_with_gemini g f ai website_url =
     (if \<not> is_initialized ai then find_competitors_fallback f website_url
      else if \<not> urlparse_ok f website_url then find_competitors_fallback f website_url
      else
        (case outcome (generate_with_retry g ai (competitor_prompt f website_url)) of
           Raised error_msg \<Rightarrow> find_competitors_fallback f website_url
         | NoResponse \<Rightarrow> find_competitors_fallback f website_url
         | Response response_text \<Rightarrow>
             (case parse_response f response_text of
                None \<Rightarrow> find_competitors_fallback f website_url
              | Some data \<Rightarrow>
                  (case competitors_of_json data of
                     None \<Rightarrow> find_competitors_fallback f website_url
                   | Some competitors \<Rightarrow> take 3 competitors))))"

text \<open>
  An example: the search yields five result URLs for every query, two of them on the
  seed's own domain.
\<close>

definition example_finder :: finder where
  "example_finder =
     \<lparr>GOOGLE_SEARCH_AVAILABLE = True,
      search = (\<lambda>q. [''https://www.acme.com/about'', ''https://tools.example.org/'',
                     ''https://acme.com/'', ''https://www.bolt.io/x'', ''https://shop.nuts.com/'',
                     ''https://www.rivet.net/'']),
      tld_extract = (\<lambda>u. if py_in ''acme.com'' u then (''acme'', ''com'')
                           else if py_in ''example.org'' u then (''example'', ''org'')
                           else if py_in ''bolt.io'' u then (''bolt'', ''io'')
                           else if py_in ''nuts.com'' u then (''nuts'', ''com'')
                           else if py_in ''rivet.net'' u then (''rivet'', ''net'')
                           else ([], [])),
      urlparse_ok = (\<lambda>u. True),
      parse_response = (\<lambda>t. None),
      competitor_prompt = (\<lambda>u. ''Analyze the website '' @ u)\<rparr>"

definition example_uninitialised_ai :: ai_module where
  "example_uninitialised_ai = \<lparr>gemini_models = [], current_key_index = 0, is_initialized = False\<rparr>"

section \<open>ai\_module.py: generate\_fallback\_outreach\<close>

text \<open>
  The scores are Python integers, the average is a float. The model computes with exact
  rationals: the quotient of two integers is rounded correctly, an integer compares with a
  float exactly, and the average of fewer than \<open>10^14\<close> scores differs from an integer
  score by at least one part in the number of scores or not at all, so the comparison
  \<open>main_score < avg_comp_score\<close> and the rounding of \<open>:.0f\<close> (to the nearest integer, a half
  to the even one) give what they give on the exact numbers.
\<close>

definition round_half_even :: "rat \<Rightarrow> int" where
  "round_half_even q =
     (let f = \<lfloor>q\<rfloor>; d = q - of_int f
      in if d < 1 / 2 then f else if d > 1 / 2 then f + 1 else if even f then f else f + 1)"

text \<open>\<open>f"{q:.0f}"\<close> for a positive \<open>q\<close>, the only case that the function formats.\<close>

definition format_0f :: "rat \<Rightarrow> string" where
  "format_0f q = py_str_int (round_half_even q)"

definition get_seo_score :: "result \<Rightarrow> int" where
  "get_seo_score r = (case seo_score r of None \<Rightarrow> 0 | Some s \<Rightarrow> s)"

definition comp_scores :: "result list \<Rightarrow> int list" where
  "comp_scores competitor_data =
     map get_seo_score (filter (\<lambda>c. \<not> py_truthy (error c)) competitor_data)"

definition avg_comp_score :: "result list \<Rightarrow> rat" where
  "avg_comp_score competitor_data =
     (if comp_scores competitor_data \<noteq> [] then
        of_int (sum_list (comp_scores competitor_data))
          / of_int (int (length (comp_scores competitor_data)))
      else 0)"

definition outreach_opening :: "(string \<Rightarrow> string) \<Rightarrow> result \<Rightarrow> result list \<Rightarrow> string" where
  "outreach_opening netloc main_site_data competitor_data =
     (let main_score = get_seo_score main_site_data;
          domain = netloc (url main_site_data)
      in if of_int main_score < avg_comp_score competitor_data then
           ''Your competitors are outranking '' @ domain @ '' with ''
             @ format_0f (avg_comp_score competitor_data - of_int main_score)
             @ '' points higher SEO scores.''
         else ''While '' @ domain @ '' performs well, there are opportunities to extend your lead.'')"

definition outreach_issues_text :: "result \<Rightarrow> string" where
  "outreach_issues_text main_site_data =
     (if issues main_site_data \<noteq> [] then
        ''Key issues: '' @ py_join '', '' (take 2 (issues main_site_data))
      else ''Several technical improvements needed'')"

definition call_to_action :: string where
  "call_to_action =
     ''. '' @ [CHR 0x0A]
     @ ''Our analysis shows fixing these could increase organic traffic by 25-40% within 3 months. ''
     @ [CHR 0x0A]
     @ ''Interested in seeing the full competitive analysis report?''"

text \<open>
  \<open>netloc\<close> is \<open>urlparse(url).netloc\<close>; the URL of a main site has passed
  \<open>is_valid_url\<close>, so \<open>urlparse\<close> accepts it.
\<close>

definition generate_fallback_outreach :: "(string \<Rightarrow> string) \<Rightarrow> result \<Rightarrow> result list \<Rightarrow> string" where
  "generate_fallback_outreach netloc main_site_data competitor_data =
     outreach_opening netloc main_site_data competitor_data @ '' ''
       @ outreach_issues_text main_site_data @ call_to_action"

text \<open>
  The comparison as the specification words it: the main score is strictly below the
  average score of the competitors without an error, where there is one.
\<close>

definition non_errored :: "result list \<Rightarrow> result list" where
  "non_errored competitor_data = filter (\<lambda>c. \<not> py_truthy (error c)) competitor_data"

definition spec_behind :: "result \<Rightarrow> result list \<Rightarrow> bool" where
  "spec_behind main_site_data competitor_data =
     (non_errored competitor_data \<noteq> []
      \<and> of_int (get_seo_score main_site_data)
          < (of_int (sum_list (map get_seo_score (non_errored competitor_data))) :: rat)
              / of_int (int (length (non_errored competitor_data))))"

definition example_main :: result where
  "example_main =
     (new_result ''https://acme.test'')
       \<lparr>seo_score := Some 60,
        issues := [''Missing meta description'', ''Missing H1 tag'', ''Not using HTTPS'']\<rparr>"

definition example_competitors :: "result list" where
  "example_competitors =
     [(new_result ''https://bolt.test'')\<lparr>seo_score := Some 85\<rparr>,
      (new_result ''https://nuts.test'')\<lparr>seo_score := Some 56\<rparr>,
      (new_result ''https://slow.test'')\<lparr>seo_score := Some 0, error := Some ''Website took too long to respond''\<rparr>]"
section \<open>Properties of the email pipeline\<close>

lemma py_split_aux_nonempty: "py_split_aux sep cur s \<noteq> []"
  by (induction s arbitrary: cur) simp_all

lemma py_split_aux_length: "sep \<in> set s \<Longrightarrow> 2 \<le> length (py_split_aux sep cur s)"
proof (induction s arbitrary: cur)
  case Nil
  then show ?case by simp
next
  case (Cons c s)
  show ?case
  proof (cases "c = sep")
    case True
    have "py_split_aux sep [] s \<noteq> []" by (rule py_split_aux_nonempty)
    then have "1 \<le> length (py_split_aux sep [] s)" by (cases "py_split_aux sep [] s") simp_all
    with True show ?thesis by simp
  next
    case False
    with Cons show ?thesis by simp
  qed
qed

lemma py_split_length: "sep \<in> set s \<Longrightarrow> 2 \<le> length (py_split sep s)"
  by (simp add: py_split_def py_split_aux_length)

lemma filter_business_emails_filter:
  "filter_business_emails addresses bd bp = filter (\<lambda>e. email_passes e bd bp) addresses"
  by (induction addresses) simp_all

text \<open>
  C10. The output of \<open>filter_business_emails\<close> is a subsequence of its input, for every
  list of addresses and every blacklist configuration: the function only removes elements,
  it never adds, rewrites or reorders them.
\<close>

theorem filter_business_emails_subseq:
  "subseq (filter_business_emails addresses blacklist_domains blacklist_patterns) addresses"
  by (induction addresses) auto

theorem filter_business_emails_subseq_witness:
  "filter_business_emails [''noreply@acme.com'', ''contact@acme.com'']
       BLACKLIST_DOMAINS BLACKLIST_EMAIL_PATTERNS = [''contact@acme.com'']
   \<and> subseq [''contact@acme.com''] [''noreply@acme.com'', ''contact@acme.com'']"
proof -
  have e: "filter_business_emails [''noreply@acme.com'', ''contact@acme.com'']
       BLACKLIST_DOMAINS BLACKLIST_EMAIL_PATTERNS = [''contact@acme.com'']"
    by code_simp
  from filter_business_emails_subseq
         [of "[''noreply@acme.com'', ''contact@acme.com'']" BLACKLIST_DOMAINS BLACKLIST_EMAIL_PATTERNS]
  show ?thesis unfolding e by (simp add: e)
qed


lemma insort_key_bool_last:
  "\<forall>y\<in>set A. b y \<Longrightarrow> \<forall>y\<in>set B. \<not> b y \<Longrightarrow> \<not> b x \<Longrightarrow>
     insort_key (\<lambda>x. \<not> b x) x (A @ B) = A @ x # B"
proof (induction A)
  case Nil
  then show ?case by (cases B) simp_all
next
  case (Cons a A)
  then show ?case by simp
qed

lemma insort_key_bool_first: "b x \<Longrightarrow> insort_key (\<lambda>x. \<not> b x) x L = x # L"
  by (cases L) auto

lemma py_sort_reverse_partition:
  "py_sort_reverse b xs = filter b xs @ filter (\<lambda>x. \<not> b x) xs"
proof (induction xs)
  case Nil
  show ?case by (simp add: py_sort_reverse_def)
next
  case (Cons x xs)
  have step: "py_sort_reverse b (x # xs) = insort_key (\<lambda>x. \<not> b x) x (py_sort_reverse b xs)"
    by (simp add: py_sort_reverse_def)
  show ?case
  proof (cases "b x")
    case True
    have "insort_key (\<lambda>x. \<not> b x) x (py_sort_reverse b xs) = x # py_sort_reverse b xs"
      using True by (rule insort_key_bool_first)
    with step Cons True show ?thesis by simp
  next
    case False
    have "insort_key (\<lambda>x. \<not> b x) x (filter b xs @ filter (\<lambda>x. \<not> b x) xs)
            = filter b xs @ x # filter (\<lambda>x. \<not> b x) xs"
      using False by (intro insort_key_bool_last) simp_all
    with step Cons False show ?thesis by simp
  qed
qed

lemma take_partition_ranked:
  assumes "i < j" "j < length (take n (filter b xs @ filter (\<lambda>x. \<not> b x) xs))"
    and "b (take n (filter b xs @ filter (\<lambda>x. \<not> b x) xs) ! j)"
  shows "b (take n (filter b xs @ filter (\<lambda>x. \<not> b x) xs) ! i)"
proof -
  let ?A = "filter b xs" and ?B = "filter (\<lambda>x. \<not> b x) xs"
  from assms(2) have jn: "j < n" and jl: "j < length (?A @ ?B)" by simp_all
  have tj: "take n (?A @ ?B) ! j = (?A @ ?B) ! j" using jn by (rule nth_take)
  have "i < n" using assms(1) jn by simp
  then have ti: "take n (?A @ ?B) ! i = (?A @ ?B) ! i" by (rule nth_take)
  have "j < length ?A"
  proof (rule ccontr)
    assume a: "\<not> j < length ?A"
    then have "(?A @ ?B) ! j = ?B ! (j - length ?A)" by (simp add: nth_append)
    moreover have "j - length ?A < length ?B" using a jl by simp
    then have "?B ! (j - length ?A) \<in> set ?B" by (rule nth_mem)
    then have "\<not> b (?B ! (j - length ?A))" by simp
    ultimately have "\<not> b ((?A @ ?B) ! j)" by metis
    with assms(3) tj show False by metis
  qed
  with assms(1) have il: "i < length ?A" by simp
  then have "?A ! i \<in> set ?A" by (rule nth_mem)
  then have "b (?A ! i)" by simp
  moreover have "(?A @ ?B) ! i = ?A ! i" using il by (simp add: nth_append)
  ultimately have "b ((?A @ ?B) ! i)" by metis
  with ti show ?thesis by metis
qed

lemma extract_emails_eq:
  "extract_emails set_iter found =
     take 10 (filter is_business
                (filter (\<lambda>e. email_passes e BLACKLIST_DOMAINS BLACKLIST_EMAIL_PATTERNS)
                   (set_iter (remdups found))) @
              filter (\<lambda>x. \<not> is_business x)
                (filter (\<lambda>e. email_passes e BLACKLIST_DOMAINS BLACKLIST_EMAIL_PATTERNS)
                   (set_iter (remdups found))))"
  unfolding extract_emails_def Let_def filter_business_emails_filter py_sort_reverse_partition
  by (rule refl)

lemma set_iter_distinct:
  assumes h: "mset (set_iter (remdups found)) = mset (remdups found)"
  shows "distinct (set_iter (remdups found))" and "set (set_iter (remdups found)) = set found"
proof -
  have "distinct (set_iter (remdups found)) = distinct (remdups found)"
    using h by (rule mset_eq_imp_distinct_iff)
  then show "distinct (set_iter (remdups found))" by simp
  have "set (set_iter (remdups found)) = set (remdups found)"
    using h by (rule mset_eq_setD)
  then show "set (set_iter (remdups found)) = set found" by simp
qed

lemma extract_emails_set_subset:
  "set (extract_emails set_iter found) \<subseteq>
     {e \<in> set (set_iter (remdups found)). email_passes e BLACKLIST_DOMAINS BLACKLIST_EMAIL_PATTERNS}"
proof
  fix e
  assume "e \<in> set (extract_emails set_iter found)"
  then have "e \<in> set (filter is_business
                (filter (\<lambda>e. email_passes e BLACKLIST_DOMAINS BLACKLIST_EMAIL_PATTERNS)
                   (set_iter (remdups found))) @
              filter (\<lambda>x. \<not> is_business x)
                (filter (\<lambda>e. email_passes e BLACKLIST_DOMAINS BLACKLIST_EMAIL_PATTERNS)
                   (set_iter (remdups found))))"
    unfolding extract_emails_eq by (rule in_set_takeD)
  then show "e \<in> {e \<in> set (set_iter (remdups found)). email_passes e BLACKLIST_DOMAINS BLACKLIST_EMAIL_PATTERNS}"
    by auto
qed

lemma extract_emails_distinct:
  assumes "distinct (set_iter (remdups found))"
  shows "distinct (extract_emails set_iter found)"
proof -
  have "distinct (filter is_business
                (filter (\<lambda>e. email_passes e BLACKLIST_DOMAINS BLACKLIST_EMAIL_PATTERNS)
                   (set_iter (remdups found))) @
              filter (\<lambda>x. \<not> is_business x)
                (filter (\<lambda>e. email_passes e BLACKLIST_DOMAINS BLACKLIST_EMAIL_PATTERNS)
                   (set_iter (remdups found))))"
    using assms by auto
  then show ?thesis unfolding extract_emails_eq by (rule distinct_take)
qed

lemma extract_emails_all_when_few:
  assumes "distinct (set_iter (remdups found))"
    and "card {e \<in> set (set_iter (remdups found)). email_passes e BLACKLIST_DOMAINS BLACKLIST_EMAIL_PATTERNS} \<le> 10"
  shows "set (extract_emails set_iter found) =
     {e \<in> set (set_iter (remdups found)). email_passes e BLACKLIST_DOMAINS BLACKLIST_EMAIL_PATTERNS}"
proof -
  let ?F = "filter (\<lambda>e. email_passes e BLACKLIST_DOMAINS BLACKLIST_EMAIL_PATTERNS) (set_iter (remdups found))"
  have d: "distinct ?F" using assms(1) by simp
  have s: "set ?F = {e \<in> set (set_iter (remdups found)). email_passes e BLACKLIST_DOMAINS BLACKLIST_EMAIL_PATTERNS}"
    by auto
  have "card (set ?F) = length ?F" using d by (rule distinct_card)
  then have "length ?F \<le> 10" using assms(2) s by simp
  moreover have "length (filter is_business ?F @ filter (\<lambda>x. \<not> is_business x) ?F) = length ?F"
    using sum_length_filter_compl[of is_business ?F] by simp
  ultimately have "take 10 (filter is_business ?F @ filter (\<lambda>x. \<not> is_business x) ?F)
      = filter is_business ?F @ filter (\<lambda>x. \<not> is_business x) ?F" by simp
  then have "set (extract_emails set_iter found) = set (filter is_business ?F @ filter (\<lambda>x. \<not> is_business x) ?F)"
    unfolding extract_emails_eq by (simp only:)
  also have "\<dots> = set ?F" by auto
  finally show ?thesis using s by simp
qed

lemma email_passes_D:
  assumes "email_passes e bd bp"
  shows "\<not> list_ex (\<lambda>b. py_in b (email_domain e)) bd"
    and "\<not> list_ex (\<lambda>p. re_match p (py_lower e)) bp"
    and "length (email_local_part e) \<le> 30"
    and "10 * digit_count (email_local_part e) \<le> 7 * length (email_local_part e)"
    and "\<not> (re_match hex_only (email_local_part e) \<and> 10 < length (email_local_part e))"
proof -
  have a: "\<not> list_ex (\<lambda>b. py_in b (email_domain e)) bd"
    using assms unfolding email_passes_def Let_def by (metis (full_types))
  show "\<not> list_ex (\<lambda>b. py_in b (email_domain e)) bd" by (rule a)
  have b: "\<not> list_ex (\<lambda>p. re_match p (py_lower e)) bp"
    using assms unfolding email_passes_def Let_def by (metis (full_types))
  show "\<not> list_ex (\<lambda>p. re_match p (py_lower e)) bp" by (rule b)
  have c: "\<not> (length (email_local_part e) > 30 \<or>
                    py_isdigit (py_remove_char (CHR ''-'')
                      (py_remove_char (CHR ''_'') (py_remove_char (CHR ''.'') (email_local_part e)))))"
    using assms unfolding email_passes_def Let_def by (metis (full_types))
  then show "length (email_local_part e) \<le> 30" by simp
  have d: "\<not> 10 * digit_count (email_local_part e) > 7 * length (email_local_part e)"
    using assms unfolding email_passes_def Let_def by (metis (full_types))
  then show "10 * digit_count (email_local_part e) \<le> 7 * length (email_local_part e)" by simp
  show "\<not> (re_match hex_only (email_local_part e) \<and> 10 < length (email_local_part e))"
    using assms unfolding email_passes_def Let_def by (metis (full_types))
qed


lemma example_passes:
  "email_passes ''contact@acme.com'' BLACKLIST_DOMAINS BLACKLIST_EMAIL_PATTERNS"
  "\<not> email_passes ''a1b2c3d4e5f6a1b2c3d4e5f6a1b2c3d4@acme.com'' BLACKLIST_DOMAINS BLACKLIST_EMAIL_PATTERNS"
  "\<not> email_passes ''noreply@acme.com'' BLACKLIST_DOMAINS BLACKLIST_EMAIL_PATTERNS"
  "email_passes ''sales@acme.com'' BLACKLIST_DOMAINS BLACKLIST_EMAIL_PATTERNS"
  by code_simp+

lemma example_business:
  "is_business ''contact@acme.com''" "is_business ''sales@acme.com''"
  by code_simp+

text \<open>
  C6. The email extraction pipeline: the matches are deduplicated; no returned address has
  a domain containing a blacklisted substring, a lowercased form matching a blacklist
  pattern, a local part longer than 30 characters or with more than 70 percent digits, or a
  local part that is a bare hex string of 32, 40 or 64 characters; every address whose text
  contains a business keyword comes before every address without one; at most 10 addresses
  are returned. For the input of the four addresses \<open>contact@acme.com\<close>, the md5-like
  address, \<open>noreply@acme.com\<close> and \<open>sales@acme.com\<close>, exactly \<open>contact@acme.com\<close> and
  \<open>sales@acme.com\<close> are returned, both business addresses.
\<close>

theorem extract_emails_filters_and_ranks:
  assumes "mset (set_iter (remdups found)) = mset (remdups found)"
  shows "distinct (extract_emails set_iter found)
    \<and> set (extract_emails set_iter found) \<subseteq> set found
    \<and> length (extract_emails set_iter found) \<le> 10
    \<and> (\<forall>e \<in> set (extract_emails set_iter found).
          \<not> list_ex (\<lambda>blacklist. py_in blacklist (email_domain e)) BLACKLIST_DOMAINS
        \<and> \<not> list_ex (\<lambda>pattern. re_match pattern (py_lower e)) BLACKLIST_EMAIL_PATTERNS
        \<and> length (email_local_part e) \<le> 30
        \<and> 10 * digit_count (email_local_part e) \<le> 7 * length (email_local_part e)
        \<and> \<not> (list_all (\<lambda>c. c \<in> set hex_chars) (email_local_part e)
              \<and> length (email_local_part e) \<in> {32, 40, 64}))
    \<and> (\<forall>i j. i < j \<and> j < length (extract_emails set_iter found)
              \<and> is_business (extract_emails set_iter found ! j)
            \<longrightarrow> is_business (extract_emails set_iter found ! i))
    \<and> (set found = {''contact@acme.com'', ''a1b2c3d4e5f6a1b2c3d4e5f6a1b2c3d4@acme.com'',
                     ''noreply@acme.com'', ''sales@acme.com''}
        \<longrightarrow> set (extract_emails set_iter found) = {''contact@acme.com'', ''sales@acme.com''}
          \<and> is_business ''contact@acme.com'' \<and> is_business ''sales@acme.com'')"
proof -
  let ?out = "extract_emails set_iter found"
  let ?es = "set_iter (remdups found)"
  have d: "distinct ?es" and s: "set ?es = set found"
    using set_iter_distinct[of set_iter found] assms by simp_all
  have sub: "set ?out \<subseteq> {e \<in> set ?es. email_passes e BLACKLIST_DOMAINS BLACKLIST_EMAIL_PATTERNS}"
    by (rule extract_emails_set_subset)
  have c1: "distinct ?out" using d by (rule extract_emails_distinct)
  have c2: "set ?out \<subseteq> set found" using sub s by auto
  have c3: "length ?out \<le> 10" unfolding extract_emails_eq by simp
  have c4: "\<forall>e \<in> set ?out.
          \<not> list_ex (\<lambda>blacklist. py_in blacklist (email_domain e)) BLACKLIST_DOMAINS
        \<and> \<not> list_ex (\<lambda>pattern. re_match pattern (py_lower e)) BLACKLIST_EMAIL_PATTERNS
        \<and> length (email_local_part e) \<le> 30
        \<and> 10 * digit_count (email_local_part e) \<le> 7 * length (email_local_part e)
        \<and> \<not> (list_all (\<lambda>c. c \<in> set hex_chars) (email_local_part e)
              \<and> length (email_local_part e) \<in> {32, 40, 64})"
  proof
    fix e
    assume "e \<in> set ?out"
    with sub have p: "email_passes e BLACKLIST_DOMAINS BLACKLIST_EMAIL_PATTERNS" by auto
    have l: "length (email_local_part e) \<le> 30" using p by (rule email_passes_D(3))
    then have "length (email_local_part e) \<notin> {32, 40, 64}" by auto
    with email_passes_D(1,2,4)[OF p] l
    show "\<not> list_ex (\<lambda>blacklist. py_in blacklist (email_domain e)) BLACKLIST_DOMAINS
        \<and> \<not> list_ex (\<lambda>pattern. re_match pattern (py_lower e)) BLACKLIST_EMAIL_PATTERNS
        \<and> length (email_local_part e) \<le> 30
        \<and> 10 * digit_count (email_local_part e) \<le> 7 * length (email_local_part e)
        \<and> \<not> (list_all (\<lambda>c. c \<in> set hex_chars) (email_local_part e)
              \<and> length (email_local_part e) \<in> {32, 40, 64})"
      by blast
  qed
  have c5: "\<forall>i j. i < j \<and> j < length ?out \<and> is_business (?out ! j) \<longrightarrow> is_business (?out ! i)"
    unfolding extract_emails_eq using take_partition_ranked by blast
  have c6: "set found = {''contact@acme.com'', ''a1b2c3d4e5f6a1b2c3d4e5f6a1b2c3d4@acme.com'',
                     ''noreply@acme.com'', ''sales@acme.com''}
        \<longrightarrow> set ?out = {''contact@acme.com'', ''sales@acme.com''}
          \<and> is_business ''contact@acme.com'' \<and> is_business ''sales@acme.com''"
  proof
    assume f: "set found = {''contact@acme.com'', ''a1b2c3d4e5f6a1b2c3d4e5f6a1b2c3d4@acme.com'',
                     ''noreply@acme.com'', ''sales@acme.com''}"
    have k: "{e \<in> set ?es. email_passes e BLACKLIST_DOMAINS BLACKLIST_EMAIL_PATTERNS}
             = {''contact@acme.com'', ''sales@acme.com''}"
      unfolding s f using example_passes by blast
    have "card {''contact@acme.com'', ''sales@acme.com''} \<le> (10::nat)" by simp
    then have "card {e \<in> set ?es. email_passes e BLACKLIST_DOMAINS BLACKLIST_EMAIL_PATTERNS} \<le> 10"
      by (simp only: k)
    with d have "set ?out = {e \<in> set ?es. email_passes e BLACKLIST_DOMAINS BLACKLIST_EMAIL_PATTERNS}"
      by (rule extract_emails_all_when_few)
    with k example_business
    show "set ?out = {''contact@acme.com'', ''sales@acme.com''}
          \<and> is_business ''contact@acme.com'' \<and> is_business ''sales@acme.com''"
      by simp
  qed
  from c1 c2 c3 c4 c5 c6 show ?thesis by blast
qed

theorem extract_emails_filters_and_ranks_witness:
  "mset (rev (remdups [''contact@acme.com'', ''a1b2c3d4e5f6a1b2c3d4e5f6a1b2c3d4@acme.com'',
                       ''noreply@acme.com'', ''sales@acme.com'']))
     = mset (remdups [''contact@acme.com'', ''a1b2c3d4e5f6a1b2c3d4e5f6a1b2c3d4@acme.com'',
                       ''noreply@acme.com'', ''sales@acme.com''])
   \<and> set (extract_emails rev [''contact@acme.com'', ''a1b2c3d4e5f6a1b2c3d4e5f6a1b2c3d4@acme.com'',
                       ''noreply@acme.com'', ''sales@acme.com''])
     = {''contact@acme.com'', ''sales@acme.com''}
   \<and> extract_emails rev [''contact@acme.com'', ''a1b2c3d4e5f6a1b2c3d4e5f6a1b2c3d4@acme.com'',
                       ''noreply@acme.com'', ''sales@acme.com'']
     = [''sales@acme.com'', ''contact@acme.com'']"
proof -
  let ?ex = "[''contact@acme.com'', ''a1b2c3d4e5f6a1b2c3d4e5f6a1b2c3d4@acme.com'',
              ''noreply@acme.com'', ''sales@acme.com'']"
  have h: "mset (rev (remdups ?ex)) = mset (remdups ?ex)" by simp
  have e: "extract_emails rev ?ex = [''sales@acme.com'', ''contact@acme.com'']" by code_simp
  from extract_emails_filters_and_ranks[of rev ?ex] h e show ?thesis by simp
qed


section \<open>Properties of the score\<close>


lemma penalise_inv:
  assumes "0 \<le> a" "fst st = 100 + sum_list (map snd (snd st))" "fst st \<le> 100"
  shows "fst (penalise l a st) = 100 + sum_list (map snd (snd (penalise l a st)))
         \<and> fst (penalise l a st) \<le> 100"
  using assms by (simp add: penalise_def)

lemma title_penalties_inv:
  assumes "fst st = 100 + sum_list (map snd (snd st))" "fst st \<le> 100"
  shows "fst (title_penalties seo st) = 100 + sum_list (map snd (snd (title_penalties seo st)))
         \<and> fst (title_penalties seo st) \<le> 100"
  using assms by (simp add: title_penalties_def penalise_def)

lemma meta_description_penalties_inv:
  assumes "fst st = 100 + sum_list (map snd (snd st))" "fst st \<le> 100"
  shows "fst (meta_description_penalties seo st)
           = 100 + sum_list (map snd (snd (meta_description_penalties seo st)))
         \<and> fst (meta_description_penalties seo st) \<le> 100"
  using assms by (simp add: meta_description_penalties_def penalise_def)

lemma h1_penalties_inv:
  assumes "fst st = 100 + sum_list (map snd (snd st))" "fst st \<le> 100"
  shows "fst (h1_penalties seo st) = 100 + sum_list (map snd (snd (h1_penalties seo st)))
         \<and> fst (h1_penalties seo st) \<le> 100"
  using assms by (simp add: h1_penalties_def penalise_def)

lemma image_penalties_inv:
  assumes "fst st = 100 + sum_list (map snd (snd st))" "fst st \<le> 100"
  shows "fst (image_penalties seo st) = 100 + sum_list (map snd (snd (image_penalties seo st)))
         \<and> fst (image_penalties seo st) \<le> 100"
  using assms by (simp add: image_penalties_def penalise_def)

lemma technical_penalties_inv:
  assumes "fst st = 100 + sum_list (map snd (snd st))" "fst st \<le> 100"
  shows "fst (technical_penalties tech st)
           = 100 + sum_list (map snd (snd (technical_penalties tech st)))
         \<and> fst (technical_penalties tech st) \<le> 100"
  using assms by (simp add: technical_penalties_def penalise_def Let_def)

lemma performance_penalties_inv:
  assumes "fst st = 100 + sum_list (map snd (snd st))" "fst st \<le> 100"
  shows "fst (performance_penalties r st)
           = 100 + sum_list (map snd (snd (performance_penalties r st)))
         \<and> fst (performance_penalties r st) \<le> 100"
  using assms by (simp add: performance_penalties_def penalise_def)

lemma schema_bonus_clamp:
  assumes "fst st = 100 + sum_list (map snd (snd st))" "fst st \<le> 100"
  shows "max 0 (fst (schema_bonus seo st))
           = max 0 (min 100 (100 + sum_list (map snd (snd (schema_bonus seo st)))))"
  using assms by (simp add: schema_bonus_def)

lemma calculate_seo_score_unfold:
  "seo_analysis r = Some seo \<Longrightarrow>
     calculate_seo_score r =
       Inr (max 0 (fst (schema_bonus seo (penalties_before_bonus r seo))),
            snd (schema_bonus seo (penalties_before_bonus r seo)))"
  by (simp add: calculate_seo_score_def penalties_before_bonus_def Let_def)

lemma penalties_before_bonus_inv:
  "fst (penalties_before_bonus r seo) = 100 + sum_list (map snd (snd (penalties_before_bonus r seo)))
   \<and> fst (penalties_before_bonus r seo) \<le> 100"
proof -
  have i0: "fst (100::int, []::(string \<times> int) list) = 100 + sum_list (map snd (snd (100::int, []::(string \<times> int) list)))
     \<and> fst (100::int, []::(string \<times> int) list) \<le> 100" by simp
  note i1 = title_penalties_inv[OF conjunct1[OF i0] conjunct2[OF i0], of seo]
  note i2 = meta_description_penalties_inv[OF conjunct1[OF i1] conjunct2[OF i1], of seo]
  note i3 = h1_penalties_inv[OF conjunct1[OF i2] conjunct2[OF i2], of seo]
  note i4 = image_penalties_inv[OF conjunct1[OF i3] conjunct2[OF i3], of seo]
  note i5 = technical_penalties_inv[OF conjunct1[OF i4] conjunct2[OF i4], of "technical_seo r"]
  note i6 = performance_penalties_inv[OF conjunct1[OF i5] conjunct2[OF i5], of r]
  show ?thesis unfolding penalties_before_bonus_def by (rule i6)
qed

text \<open>
  C1. For every analysis result whose \<open>seo_analysis\<close> has been filled in,
  \<open>calculate_seo_score\<close> returns a pair \<open>(score, breakdown)\<close> with
  \<open>score = max(0, min(100, 100 + sum of the deltas of breakdown))\<close>, a function of the
  fields of that result alone; the score lies in \<open>[0, 100]\<close> whatever penalties apply.
\<close>

theorem calculate_seo_score_clamped:
  assumes "seo_analysis r = Some seo"
  shows "\<exists>score breakdown. calculate_seo_score r = Inr (score, breakdown)
           \<and> score = max 0 (min 100 (100 + sum_list (map snd breakdown)))
           \<and> 0 \<le> score \<and> score \<le> 100"
proof -
  let ?st = "schema_bonus seo (penalties_before_bonus r seo)"
  have e: "calculate_seo_score r = Inr (max 0 (fst ?st), snd ?st)"
    using assms by (rule calculate_seo_score_unfold)
  have c: "max 0 (fst ?st) = max 0 (min 100 (100 + sum_list (map snd (snd ?st))))"
    using penalties_before_bonus_inv[of r seo] by (intro schema_bonus_clamp) simp_all
  have "0 \<le> max 0 (min 100 (100 + sum_list (map snd (snd ?st))))"
    and "max 0 (min 100 (100 + sum_list (map snd (snd ?st)))) \<le> 100" by simp_all
  with e c show ?thesis by simp
qed


lemma penalise_deltas: "map snd (snd (penalise l a st)) = map snd (snd st) @ [- a]"
  by (simp add: penalise_def)

lemma title_penalties_deltas:
  "map snd (snd (title_penalties seo st)) = map snd (snd st) @ spec_title_deltas seo"
  by (simp add: title_penalties_def spec_title_deltas_def penalise_def)

lemma meta_description_penalties_deltas:
  "map snd (snd (meta_description_penalties seo st)) = map snd (snd st) @ spec_meta_deltas seo"
  by (simp add: meta_description_penalties_def spec_meta_deltas_def penalise_def)

lemma h1_penalties_deltas:
  "map snd (snd (h1_penalties seo st)) = map snd (snd st) @ spec_h1_deltas seo"
  by (simp add: h1_penalties_def spec_h1_deltas_def penalise_def)

lemma image_penalties_deltas:
  "map snd (snd (image_penalties seo st)) = map snd (snd st) @ spec_image_deltas seo"
  by (simp add: image_penalties_def spec_image_deltas_def penalise_def min_def max_def)

lemma technical_penalties_deltas:
  "map snd (snd (technical_penalties tech st)) = map snd (snd st)
     @ (if https tech = Some True then [] else [- 10])
     @ (if py_truthy (viewport tech) then [] else [- 10])
     @ (if robots_txt tech = Some True then [] else [- 5])
     @ (if sitemap_xml tech = Some True then [] else [- 5])"
  by (simp add: technical_penalties_def penalise_def Let_def)

lemma performance_penalties_deltas:
  "map snd (snd (performance_penalties r st)) = map snd (snd st)
     @ (if get_load_time_score r < 50 then [- 10] else [])"
  by (simp add: performance_penalties_def penalise_def)

lemma schema_bonus_deltas:
  "map snd (snd (schema_bonus seo st)) = map snd (snd st) @ (if has_schema seo then [5] else [])"
  by (simp add: schema_bonus_def)

lemma breakdown_deltas:
  "map snd (snd (schema_bonus seo (penalties_before_bonus r seo))) = spec_deltas r seo"
  unfolding penalties_before_bonus_def spec_deltas_def
    schema_bonus_deltas performance_penalties_deltas technical_penalties_deltas
    image_penalties_deltas h1_penalties_deltas meta_description_penalties_deltas
    title_penalties_deltas
  by simp




lemma penalise_prefix: "prefix (snd st) (snd (penalise l a st))"
  by (simp add: penalise_def)

lemma title_penalties_snd: "snd (title_penalties seo st) = snd st @ title_breakdown seo"
  by (simp add: title_breakdown_def title_penalties_def penalise_def)

lemma meta_description_penalties_prefix: "prefix (snd st) (snd (meta_description_penalties seo st))"
  by (simp add: meta_description_penalties_def penalise_prefix)

lemma h1_penalties_prefix: "prefix (snd st) (snd (h1_penalties seo st))"
  by (simp add: h1_penalties_def penalise_prefix)

lemma image_penalties_prefix: "prefix (snd st) (snd (image_penalties seo st))"
  by (simp add: image_penalties_def penalise_prefix)

lemma technical_penalties_prefix: "prefix (snd st) (snd (technical_penalties tech st))"
  by (simp add: technical_penalties_def penalise_def Let_def)

lemma performance_penalties_prefix: "prefix (snd st) (snd (performance_penalties r st))"
  by (simp add: performance_penalties_def penalise_prefix)

lemma schema_bonus_prefix: "prefix (snd st) (snd (schema_bonus seo st))"
  by (simp add: schema_bonus_def)

lemma breakdown_title_prefix:
  "prefix (title_breakdown seo) (snd (schema_bonus seo (penalties_before_bonus r seo)))"
proof -
  have "prefix (title_breakdown seo) (snd (title_penalties seo (100, [])))"
    by (simp add: title_breakdown_def)
  also have "prefix \<dots> (snd (meta_description_penalties seo (title_penalties seo (100, []))))"
    by (rule meta_description_penalties_prefix)
  also have "prefix \<dots> (snd (h1_penalties seo
      (meta_description_penalties seo (title_penalties seo (100, [])))))"
    by (rule h1_penalties_prefix)
  also have "prefix \<dots> (snd (image_penalties seo (h1_penalties seo
      (meta_description_penalties seo (title_penalties seo (100, []))))))"
    by (rule image_penalties_prefix)
  also have "prefix \<dots> (snd (technical_penalties (technical_seo r) (image_penalties seo
      (h1_penalties seo (meta_description_penalties seo (title_penalties seo (100, [])))))))"
    by (rule technical_penalties_prefix)
  also have "prefix \<dots> (snd (penalties_before_bonus r seo))"
    unfolding penalties_before_bonus_def by (rule performance_penalties_prefix)
  also have "prefix \<dots> (snd (schema_bonus seo (penalties_before_bonus r seo)))"
    by (rule schema_bonus_prefix)
  finally show ?thesis .
qed

lemma add_issue_prefix: "prefix (issues r) (issues (add_issue i c r))"
  by (simp add: add_issue_def)

lemma add_recommendation_issues: "issues (add_recommendation c r) = issues r"
  by (simp add: add_recommendation_def)

lemma meta_description_checks_prefix: "prefix (issues r) (issues (meta_description_checks seo r))"
  by (simp add: meta_description_checks_def add_issue_prefix)

lemma header_checks_prefix: "prefix (issues r) (issues (header_checks seo r))"
  by (simp add: header_checks_def add_issue_prefix)

lemma image_checks_prefix: "prefix (issues r) (issues (image_checks seo r))"
  by (simp add: image_checks_def Let_def add_issue_prefix add_recommendation_issues)

lemma schema_check_issues: "issues (schema_check seo r) = issues r"
  by (simp add: schema_check_def add_recommendation_issues)

lemma open_graph_check_issues: "issues (open_graph_check r) = issues r"
  by (simp add: open_graph_check_def add_recommendation_issues)

lemma check_seo_issues_title_prefix:
  assumes "seo_analysis r = Some seo"
  shows "fst (check_seo_issues r) = None"
    and "prefix (issues (title_checks seo r)) (issues (snd (check_seo_issues r)))"
proof -
  show "fst (check_seo_issues r) = None" using assms by (simp add: check_seo_issues_def)
  have "prefix (issues (title_checks seo r)) (issues (meta_description_checks seo (title_checks seo r)))"
    by (rule meta_description_checks_prefix)
  also have "prefix \<dots> (issues (header_checks seo (meta_description_checks seo (title_checks seo r))))"
    by (rule header_checks_prefix)
  also have "prefix \<dots> (issues (image_checks seo
      (header_checks seo (meta_description_checks seo (title_checks seo r)))))"
    by (rule image_checks_prefix)
  also have "\<dots> = issues (snd (check_seo_issues r))"
    using assms by (simp add: check_seo_issues_def open_graph_check_issues schema_check_issues)
  finally show "prefix (issues (title_checks seo r)) (issues (snd (check_seo_issues r)))" .
qed

lemma title_banding:
  "py_truthy (title seo) \<and> title_length seo = 10 \<longrightarrow>
     issues (title_checks seo r) = issues r @ [''Title too short (< 30 chars)'']
     \<and> title_breakdown seo = [(''Title too short'', - 5)]"
  "py_truthy (title seo) \<and> title_length seo = 45 \<longrightarrow>
     issues (title_checks seo r) = issues r \<and> title_breakdown seo = []"
  "py_truthy (title seo) \<and> title_length seo = 90 \<longrightarrow>
     issues (title_checks seo r) = issues r @ [''Title too long (> 60 chars)'']
     \<and> title_breakdown seo = [(''Title too long'', - 5)]"
  "\<not> py_truthy (title seo) \<longrightarrow>
     issues (title_checks seo r) = issues r @ [''Missing title tag'']
     \<and> title_breakdown seo = [(''Missing title tag'', - 15)]"
  by (simp_all add: title_checks_def title_breakdown_def title_penalties_def penalise_def add_issue_def)

text \<open>
  C2. \<open>calculate_seo_score\<close> starts at 100 and applies exactly the deltas of the rubric in
  its fixed order (title, meta description, H1, images without alt text capped at 10,
  HTTPS, viewport, robots.txt, sitemap.xml, slow load, schema bonus capped at a total of
  100). The title block comes first in the breakdown and in the issues: a title of length
  10 gets the too-short issue and \<open>-5\<close>, one of length 45 nothing, one of length 90 the
  too-long issue and \<open>-5\<close>, an absent title the missing-title issue and \<open>-15\<close> alone.
\<close>

theorem calculate_seo_score_rubric:
  assumes "seo_analysis r = Some seo"
  shows "\<exists>score breakdown. calculate_seo_score r = Inr (score, breakdown)
      \<and> map snd breakdown = spec_deltas r seo
      \<and> score = max 0 (min 100 (100 + sum_list (spec_deltas r seo)))
      \<and> prefix (title_breakdown seo) breakdown
      \<and> fst (check_seo_issues r) = None
      \<and> prefix (issues (title_checks seo r)) (issues (snd (check_seo_issues r)))
      \<and> (py_truthy (title seo) \<and> title_length seo = 10 \<longrightarrow>
           issues (title_checks seo r) = issues r @ [''Title too short (< 30 chars)'']
           \<and> title_breakdown seo = [(''Title too short'', - 5)])
      \<and> (py_truthy (title seo) \<and> title_length seo = 45 \<longrightarrow>
           issues (title_checks seo r) = issues r \<and> title_breakdown seo = [])
      \<and> (py_truthy (title seo) \<and> title_length seo = 90 \<longrightarrow>
           issues (title_checks seo r) = issues r @ [''Title too long (> 60 chars)'']
           \<and> title_breakdown seo = [(''Title too long'', - 5)])
      \<and> (\<not> py_truthy (title seo) \<longrightarrow>
           issues (title_checks seo r) = issues r @ [''Missing title tag'']
           \<and> title_breakdown seo = [(''Missing title tag'', - 15)])"
proof -
  let ?st = "schema_bonus seo (penalties_before_bonus r seo)"
  have e: "calculate_seo_score r = Inr (max 0 (fst ?st), snd ?st)"
    using assms by (rule calculate_seo_score_unfold)
  have d: "map snd (snd ?st) = spec_deltas r seo" by (rule breakdown_deltas)
  have "max 0 (fst ?st) = max 0 (min 100 (100 + sum_list (map snd (snd ?st))))"
    using penalties_before_bonus_inv[of r seo] by (intro schema_bonus_clamp) simp_all
  then have c: "max 0 (fst ?st) = max 0 (min 100 (100 + sum_list (spec_deltas r seo)))"
    by (simp only: d)
  have p: "prefix (title_breakdown seo) (snd ?st)" by (rule breakdown_title_prefix)
  note q = check_seo_issues_title_prefix[OF assms]
  show ?thesis
    apply (rule exI[of _ "max 0 (fst ?st)"])
    apply (rule exI[of _ "snd ?st"])
    apply (intro conjI)
             apply (rule e)
            apply (rule d)
           apply (rule c)
          apply (rule p)
         apply (rule q(1))
        apply (rule q(2))
       apply (rule title_banding(1))
      apply (rule title_banding(2))
     apply (rule title_banding(3))
    apply (rule title_banding(4))
    done
qed


theorem calculate_seo_score_clamped_witness:
  "seo_analysis example_all_penalties = Some example_seo_all_penalties
   \<and> calculate_seo_score example_all_penalties =
       Inr (15, [(''Missing title tag'', - 15), (''Missing meta description'', - 10),
                 (''Missing H1 tag'', - 10), (''7 images without alt text'', - 10),
                 (''Not using HTTPS'', - 10), (''Not mobile-friendly'', - 10),
                 (''Missing robots.txt'', - 5), (''Missing sitemap.xml'', - 5),
                 (''Slow load time'', - 10)])"
proof -
  have s: "seo_analysis example_all_penalties = Some example_seo_all_penalties"
    by (simp add: example_all_penalties_def new_result_def)
  have e: "calculate_seo_score example_all_penalties =
       Inr (15, [(''Missing title tag'', - 15), (''Missing meta description'', - 10),
                 (''Missing H1 tag'', - 10), (''7 images without alt text'', - 10),
                 (''Not using HTTPS'', - 10), (''Not mobile-friendly'', - 10),
                 (''Missing robots.txt'', - 5), (''Missing sitemap.xml'', - 5),
                 (''Slow load time'', - 10)])"
    by code_simp
  from calculate_seo_score_clamped[OF s] s e show ?thesis by simp
qed

theorem calculate_seo_score_rubric_witness:
  "seo_analysis example_short_title = Some example_seo_short_title
   \<and> py_truthy (title example_seo_short_title) \<and> title_length example_seo_short_title = 10
   \<and> calculate_seo_score example_short_title =
       Inr (70, [(''Title too short'', - 5), (''Not using HTTPS'', - 10),
                 (''Not mobile-friendly'', - 10), (''Missing robots.txt'', - 5),
                 (''Missing sitemap.xml'', - 5), (''Has Schema markup'', 5)])
   \<and> issues (title_checks example_seo_short_title example_short_title)
       = [''Title too short (< 30 chars)'']
   \<and> title_breakdown example_seo_short_title = [(''Title too short'', - 5)]"
proof -
  have s: "seo_analysis example_short_title = Some example_seo_short_title"
    by (simp add: example_short_title_def new_result_def)
  have t: "py_truthy (title example_seo_short_title) \<and> title_length example_seo_short_title = 10"
    by (simp add: example_seo_short_title_def example_seo_good_def py_truthy_def)
  have e: "calculate_seo_score example_short_title =
       Inr (70, [(''Title too short'', - 5), (''Not using HTTPS'', - 10),
                 (''Not mobile-friendly'', - 10), (''Missing robots.txt'', - 5),
                 (''Missing sitemap.xml'', - 5), (''Has Schema markup'', 5)])"
    by code_simp
  have i: "issues example_short_title = []"
    by (simp add: example_short_title_def new_result_def)
  from calculate_seo_score_rubric[OF s] s t e i show ?thesis by simp
qed

lemma calculate_seo_score_bounds:
  assumes "calculate_seo_score r = Inr (s, b)"
  shows "0 \<le> s \<and> s \<le> 100"
proof (cases "seo_analysis r")
  case None
  with assms show ?thesis by (simp add: calculate_seo_score_def)
next
  case (Some seo)
  let ?st = "schema_bonus seo (penalties_before_bonus r seo)"
  have "calculate_seo_score r = Inr (max 0 (fst ?st), snd ?st)"
    using Some by (rule calculate_seo_score_unfold)
  with assms have s: "s = max 0 (fst ?st)" by simp
  have "max 0 (fst ?st) = max 0 (min 100 (100 + sum_list (map snd (snd ?st))))"
    using penalties_before_bonus_inv[of r seo] by (intro schema_bonus_clamp) simp_all
  with s show ?thesis by simp
qed


section \<open>Properties of analyze\_website\<close>

lemma add_issue_fields [simp]:
  "url (add_issue i c r) = url r" "error (add_issue i c r) = error r"
  "seo_analysis (add_issue i c r) = seo_analysis r" "seo_score (add_issue i c r) = seo_score r"
  by (simp_all add: add_issue_def)

lemma add_recommendation_fields [simp]:
  "url (add_recommendation c r) = url r" "error (add_recommendation c r) = error r"
  "seo_analysis (add_recommendation c r) = seo_analysis r"
  "seo_score (add_recommendation c r) = seo_score r"
  by (simp_all add: add_recommendation_def)

lemma title_checks_fields [simp]:
  "url (title_checks seo r) = url r" "error (title_checks seo r) = error r"
  "seo_analysis (title_checks seo r) = seo_analysis r"
  by (simp_all add: title_checks_def)

lemma meta_description_checks_fields [simp]:
  "url (meta_description_checks seo r) = url r" "error (meta_description_checks seo r) = error r"
  "seo_analysis (meta_description_checks seo r) = seo_analysis r"
  by (simp_all add: meta_description_checks_def)

lemma header_checks_fields [simp]:
  "url (header_checks seo r) = url r" "error (header_checks seo r) = error r"
  "seo_analysis (header_checks seo r) = seo_analysis r"
  by (simp_all add: header_checks_def)

lemma image_checks_fields [simp]:
  "url (image_checks seo r) = url r" "error (image_checks seo r) = error r"
  "seo_analysis (image_checks seo r) = seo_analysis r"
  by (simp_all add: image_checks_def Let_def)

lemma schema_check_fields [simp]:
  "url (schema_check seo r) = url r" "error (schema_check seo r) = error r"
  "seo_analysis (schema_check seo r) = seo_analysis r"
  by (simp_all add: schema_check_def)

lemma open_graph_check_fields [simp]:
  "url (open_graph_check r) = url r" "error (open_graph_check r) = error r"
  "seo_analysis (open_graph_check r) = seo_analysis r"
  by (simp_all add: open_graph_check_def)

lemma check_seo_issues_fields:
  "url (snd (check_seo_issues r)) = url r"
  "error (snd (check_seo_issues r)) = error r"
  "seo_analysis (snd (check_seo_issues r)) = seo_analysis r"
  by (simp_all add: check_seo_issues_def split: option.splits)

lemma check_seo_issues_ok:
  "seo_analysis r = Some seo \<Longrightarrow> check_seo_issues r = (None, snd (check_seo_issues r))"
  by (simp add: check_seo_issues_def)

lemma check_important_files_fields:
  "url (check_important_files net u r) = url r"
  "error (check_important_files net u r) = error r"
  "seo_analysis (check_important_files net u r) = seo_analysis r"
  by (simp_all add: check_important_files_def Let_def)

lemma after_seo_checks_fields:
  "url (after_seo_checks response t r) = url r"
  "error (after_seo_checks response t r) = error r"
  "seo_analysis (after_seo_checks response t r) = Some (soup_seo response)"
  by (simp_all add: after_seo_checks_def check_seo_issues_fields)

lemma before_scoring_fields:
  "url (before_scoring net u response t tech r) = url r"
  "error (before_scoring net u response t tech r) = error r"
  "seo_analysis (before_scoring net u response t tech r) = Some (soup_seo response)"
  by (simp_all add: before_scoring_def check_important_files_fields after_seo_checks_fields)

lemma try_analyze_fetch_fails:
  "http_get net u = Inl e \<Longrightarrow> try_analyze net u r = (Some e, r)"
  by (simp add: try_analyze_def)

lemma try_analyze_technical_fails:
  assumes "http_get net u = Inr (response, t)" "analyze_technical_seo response u = Inl e"
  shows "try_analyze net u r = (Some e, after_seo_checks response t r)"
proof -
  let ?r0 = "r\<lparr>basic_info := Some (analyze_basic_info response t),
               seo_analysis := Some (soup_seo response)\<rparr>"
  have "check_seo_issues ?r0 = (None, after_seo_checks response t r)"
    unfolding after_seo_checks_def by (rule check_seo_issues_ok[of _ "soup_seo response"]) simp
  then show ?thesis using assms by (simp add: try_analyze_def Let_def)
qed

lemma try_analyze_success:
  assumes "http_get net u = Inr (response, t)" "analyze_technical_seo response u = Inr tech"
  shows "\<exists>score breakdown.
           calculate_seo_score (before_scoring net u response t tech r) = Inr (score, breakdown)
         \<and> try_analyze net u r =
             (None, (before_scoring net u response t tech r)
                      \<lparr>seo_score := Some score, score_breakdown := Some breakdown\<rparr>)"
proof -
  let ?r0 = "r\<lparr>basic_info := Some (analyze_basic_info response t),
               seo_analysis := Some (soup_seo response)\<rparr>"
  let ?b = "before_scoring net u response t tech r"
  have c: "check_seo_issues ?r0 = (None, after_seo_checks response t r)"
    unfolding after_seo_checks_def by (rule check_seo_issues_ok[of _ "soup_seo response"]) simp
  have "seo_analysis ?b = Some (soup_seo response)" by (rule before_scoring_fields)
  then obtain score breakdown where k: "calculate_seo_score ?b = Inr (score, breakdown)"
    using calculate_seo_score_unfold by blast
  have "try_analyze net u r = (None, ?b\<lparr>seo_score := Some score, score_breakdown := Some breakdown\<rparr>)"
    using assms c k by (simp add: try_analyze_def Let_def before_scoring_def)
  with k show ?thesis by blast
qed


lemma analyze_technical_seo_error:
  "analyze_technical_seo response u = Inl e \<Longrightarrow> e = NameError ''result''"
  by (simp add: analyze_technical_seo_def Let_def split: if_splits)

lemma analyze_technical_seo_raises:
  "soup_viewport response = None \<or> \<not> py_truthy (soup_lang response)
     \<or> \<not> py_startswith u ''https://''
   \<Longrightarrow> analyze_technical_seo response u = Inl (NameError ''result'')"
  by (auto simp add: analyze_technical_seo_def Let_def)

lemma analyze_website_on_error:
  assumes "try_analyze net u (new_result u) = (Some e, r)"
  shows "e = Timeout \<Longrightarrow> analyze_website net u
           = on_exception ''Website took too long to respond'' ''Timeout error'' r"
    and "e = ConnectionError \<Longrightarrow> analyze_website net u
           = on_exception ''Could not connect to website'' ''Connection error'' r"
    and "e \<noteq> Timeout \<Longrightarrow> e \<noteq> ConnectionError \<Longrightarrow> analyze_website net u
           = on_exception (str_exc e) (''Analysis error: '' @ str_exc e) r"
  using assms by (simp_all add: analyze_website_def split: exc.splits)

lemma analyze_website_on_success:
  assumes "try_analyze net u (new_result u) = (None, r)"
  shows "analyze_website net u = r"
  using assms by (simp add: analyze_website_def)

lemma on_exception_fields:
  "url (on_exception m i r) = url r" "error (on_exception m i r) = Some m"
  "seo_score (on_exception m i r) = Some 0" "issues (on_exception m i r) = issues r @ [i]"
  by (simp_all add: on_exception_def)

lemma try_analyze_url: "url (snd (try_analyze net u r)) = url r"
proof (cases "http_get net u")
  case (Inl e)
  then show ?thesis by (simp add: try_analyze_fetch_fails)
next
  case (Inr p)
  obtain response t where p: "p = (response, t)" by (cases p)
  show ?thesis
  proof (cases "analyze_technical_seo response u")
    case (Inl e)
    with Inr p show ?thesis by (simp add: try_analyze_technical_fails after_seo_checks_fields)
  next
    case tech: (Inr tech)
    from try_analyze_success[of net u response t tech r] Inr p tech
    show ?thesis by (auto simp: before_scoring_fields)
  qed
qed

lemma try_analyze_result:
  assumes "try_analyze net u r = (None, r')" "error r = None"
  shows "error r' = None \<and> (\<exists>s. seo_score r' = Some s \<and> 0 \<le> s \<and> s \<le> 100)"
proof (cases "http_get net u")
  case (Inl e)
  with assms show ?thesis by (simp add: try_analyze_fetch_fails)
next
  case (Inr p)
  obtain response t where p: "p = (response, t)" by (cases p)
  show ?thesis
  proof (cases "analyze_technical_seo response u")
    case (Inl e)
    with Inr p assms show ?thesis by (simp add: try_analyze_technical_fails)
  next
    case tech: (Inr tech)
    from try_analyze_success[of net u response t tech r] Inr p tech
    obtain score breakdown where
      k: "calculate_seo_score (before_scoring net u response t tech r) = Inr (score, breakdown)"
      and e: "try_analyze net u r = (None, (before_scoring net u response t tech r)
                      \<lparr>seo_score := Some score, score_breakdown := Some breakdown\<rparr>)"
      by blast
    from k have "0 \<le> score \<and> score \<le> 100" by (rule calculate_seo_score_bounds)
    with e assms show ?thesis by (auto simp: before_scoring_fields)
  qed
qed

text \<open>
  C3. \<open>analyze_website\<close> never raises: for every URL and every behaviour of the network
  it returns a result for that URL with a score in \<open>[0, 100]\<close>. When the page fetch times
  out, the result has the error set, score 0 and the single issue \<open>Timeout error\<close>; when
  the connection fails, the same with the connection-error texts; when any other exception
  leaves the analysis, its message is the error, the score is 0, and the issue
  \<open>Analysis error: ...\<close> is appended to the issues collected so far.
\<close>

theorem analyze_website_never_raises:
  "(http_get net u = Inl Timeout \<longrightarrow>
      error (analyze_website net u) = Some ''Website took too long to respond''
      \<and> seo_score (analyze_website net u) = Some 0
      \<and> issues (analyze_website net u) = [''Timeout error''])
   \<and> (http_get net u = Inl ConnectionError \<longrightarrow>
      error (analyze_website net u) = Some ''Could not connect to website''
      \<and> seo_score (analyze_website net u) = Some 0
      \<and> issues (analyze_website net u) = [''Connection error''])
   \<and> (\<forall>e r. try_analyze net u (new_result u) = (Some e, r) \<and> e \<noteq> Timeout \<and> e \<noteq> ConnectionError
        \<longrightarrow> error (analyze_website net u) = Some (str_exc e)
          \<and> seo_score (analyze_website net u) = Some 0
          \<and> issues (analyze_website net u) = issues r @ [''Analysis error: '' @ str_exc e])
   \<and> ((error (analyze_website net u) = None) = (fst (try_analyze net u (new_result u)) = None))
   \<and> url (analyze_website net u) = u
   \<and> (\<exists>s. seo_score (analyze_website net u) = Some s \<and> 0 \<le> s \<and> s \<le> 100)"
proof -
  let ?R = "analyze_website net u"
  have n: "issues (new_result u) = []" "error (new_result u) = None" "url (new_result u) = u"
    by (simp_all add: new_result_def)
  have c1: "http_get net u = Inl Timeout \<longrightarrow>
      error ?R = Some ''Website took too long to respond''
      \<and> seo_score ?R = Some 0 \<and> issues ?R = [''Timeout error'']"
  proof
    assume "http_get net u = Inl Timeout"
    then have "try_analyze net u (new_result u) = (Some Timeout, new_result u)"
      by (rule try_analyze_fetch_fails)
    then have "?R = on_exception ''Website took too long to respond'' ''Timeout error'' (new_result u)"
      by (rule analyze_website_on_error(1)) simp
    then show "error ?R = Some ''Website took too long to respond''
      \<and> seo_score ?R = Some 0 \<and> issues ?R = [''Timeout error'']"
      by (simp add: on_exception_fields n)
  qed
  have c2: "http_get net u = Inl ConnectionError \<longrightarrow>
      error ?R = Some ''Could not connect to website''
      \<and> seo_score ?R = Some 0 \<and> issues ?R = [''Connection error'']"
  proof
    assume "http_get net u = Inl ConnectionError"
    then have "try_analyze net u (new_result u) = (Some ConnectionError, new_result u)"
      by (rule try_analyze_fetch_fails)
    then have "?R = on_exception ''Could not connect to website'' ''Connection error'' (new_result u)"
      by (rule analyze_website_on_error(2)) simp
    then show "error ?R = Some ''Could not connect to website''
      \<and> seo_score ?R = Some 0 \<and> issues ?R = [''Connection error'']"
      by (simp add: on_exception_fields n)
  qed
  have c3: "\<forall>e r. try_analyze net u (new_result u) = (Some e, r) \<and> e \<noteq> Timeout \<and> e \<noteq> ConnectionError
        \<longrightarrow> error ?R = Some (str_exc e) \<and> seo_score ?R = Some 0
          \<and> issues ?R = issues r @ [''Analysis error: '' @ str_exc e]"
  proof (intro allI impI)
    fix e r
    assume a: "try_analyze net u (new_result u) = (Some e, r) \<and> e \<noteq> Timeout \<and> e \<noteq> ConnectionError"
    then have "?R = on_exception (str_exc e) (''Analysis error: '' @ str_exc e) r"
      using analyze_website_on_error(3)[of net u e r] by simp
    then show "error ?R = Some (str_exc e) \<and> seo_score ?R = Some 0
          \<and> issues ?R = issues r @ [''Analysis error: '' @ str_exc e]"
      by (simp add: on_exception_fields)
  qed
  obtain x r where t: "try_analyze net u (new_result u) = (x, r)"
    by (cases "try_analyze net u (new_result u)")
  have ur: "url r = u" using try_analyze_url[of net u "new_result u"] t n by simp
  have c456: "((error ?R = None) = (fst (try_analyze net u (new_result u)) = None))
      \<and> url ?R = u \<and> (\<exists>s. seo_score ?R = Some s \<and> 0 \<le> s \<and> s \<le> 100)"
  proof (cases x)
    case None
    with t have R: "?R = r" by (simp add: analyze_website_on_success)
    from t None have "try_analyze net u (new_result u) = (None, r)" by simp
    from try_analyze_result[OF this n(2)] R t None ur show ?thesis by simp
  next
    case (Some e)
    consider "e = Timeout" | "e = ConnectionError" | "e \<noteq> Timeout" "e \<noteq> ConnectionError" by blast
    then obtain m i where "?R = on_exception m i r"
      using analyze_website_on_error[of net u e r] t Some by metis
    with t Some ur show ?thesis by (simp add: on_exception_fields)
  qed
  from c1 c2 c3 c456 show ?thesis by blast
qed


lemma example_fetches:
  "http_get example_network ''https://slow.test'' = Inl Timeout"
  "http_get example_network ''https://down.test'' = Inl ConnectionError"
  "http_get example_network ''http://acme.test'' = Inr (example_page, 1 / 2)"
  "http_get example_network ''https://acme.test'' = Inr (example_page, 1 / 2)"
  by (simp_all add: example_network_def)

lemma example_technical:
  "analyze_technical_seo example_page ''http://acme.test'' = Inl (NameError ''result'')"
  "soup_viewport example_page \<noteq> None" "py_truthy (soup_lang example_page)"
  by (simp_all add: analyze_technical_seo_def example_page_def Let_def py_truthy_def py_startswith_def)

theorem analyze_website_never_raises_witness:
  "http_get example_network ''https://slow.test'' = Inl Timeout
   \<and> issues (analyze_website example_network ''https://slow.test'') = [''Timeout error'']
   \<and> seo_score (analyze_website example_network ''https://slow.test'') = Some 0
   \<and> http_get example_network ''https://down.test'' = Inl ConnectionError
   \<and> issues (analyze_website example_network ''https://down.test'') = [''Connection error'']
   \<and> try_analyze example_network ''http://acme.test'' (new_result ''http://acme.test'')
        = (Some (NameError ''result''),
           after_seo_checks example_page (1 / 2) (new_result ''http://acme.test''))
   \<and> NameError ''result'' \<noteq> Timeout \<and> NameError ''result'' \<noteq> ConnectionError
   \<and> error (analyze_website example_network ''http://acme.test'')
        = Some (str_exc (NameError ''result''))
   \<and> seo_score (analyze_website example_network ''http://acme.test'') = Some 0"
proof -
  have t: "try_analyze example_network ''http://acme.test'' (new_result ''http://acme.test'')
        = (Some (NameError ''result''),
           after_seo_checks example_page (1 / 2) (new_result ''http://acme.test''))"
    using example_fetches(3) example_technical(1) by (rule try_analyze_technical_fails)
  from analyze_website_never_raises[of example_network "''https://slow.test''"]
       analyze_website_never_raises[of example_network "''https://down.test''"]
       analyze_website_never_raises[of example_network "''http://acme.test''"]
       example_fetches t
  show ?thesis by simp
qed

lemma analyze_website_technical_issue_lost:
  assumes "http_get net u = Inr (response, t)"
    and "soup_viewport response = None \<or> \<not> py_truthy (soup_lang response)
           \<or> \<not> py_startswith u ''https://''"
  shows "error (analyze_website net u) = Some (str_exc (NameError ''result''))
       \<and> seo_score (analyze_website net u) = Some 0
       \<and> score_breakdown (analyze_website net u) = None"
proof -
  have "analyze_technical_seo response u = Inl (NameError ''result'')"
    using assms(2) by (rule analyze_technical_seo_raises)
  with assms(1) have t: "try_analyze net u (new_result u)
      = (Some (NameError ''result''), after_seo_checks response t (new_result u))"
    by (rule try_analyze_technical_fails)
  then have "analyze_website net u = on_exception (str_exc (NameError ''result''))
      (''Analysis error: '' @ str_exc (NameError ''result''))
      (after_seo_checks response t (new_result u))"
    by (rule analyze_website_on_error(3)) simp_all
  moreover have "score_breakdown (after_seo_checks response t (new_result u)) = None"
    by (simp add: after_seo_checks_def check_seo_issues_def title_checks_def
        meta_description_checks_def header_checks_def image_checks_def schema_check_def
        open_graph_check_def add_issue_def add_recommendation_def Let_def new_result_def)
  ultimately show ?thesis by (simp add: on_exception_def)
qed


lemma example_https_result:
  "error (analyze_website example_network ''https://acme.test'') = None"
  "seo_score (analyze_website example_network ''https://acme.test'') = Some 100"
  "issues (analyze_website example_network ''https://acme.test'') = []"
  "emails (analyze_website example_network ''https://acme.test'') = [''contact@acme.com'']"
  by code_simp+

lemma example_http_issues:
  "issues (analyze_website example_network ''http://acme.test'')
     = [''Analysis error: '' @ str_exc (NameError ''result'')]"
  by code_simp

text \<open>
  C4. The claim is that every successfully fetched page gets a scored result without the
  error field, also when it lacks a viewport tag or a \<open>lang\<close> attribute or is not served
  over HTTPS. The code does otherwise: the example page, complete in every respect,
  analysed under its \<open>https\<close> URL scores 100 with no error, and the same page under its
  \<open>http\<close> URL ends as an error result with score 0 and no breakdown, whose only issue is
  the \<open>NameError\<close> raised in \<open>_analyze_technical_seo\<close>.
\<close>

theorem analyze_website_http_page_is_error_result:
  "http_get example_network ''http://acme.test'' = Inr (example_page, 1 / 2)
   \<and> http_get example_network ''https://acme.test'' = Inr (example_page, 1 / 2)
   \<and> error (analyze_website example_network ''https://acme.test'') = None
   \<and> seo_score (analyze_website example_network ''https://acme.test'') = Some 100
   \<and> error (analyze_website example_network ''http://acme.test'')
        = Some (str_exc (NameError ''result''))
   \<and> seo_score (analyze_website example_network ''http://acme.test'') = Some 0
   \<and> score_breakdown (analyze_website example_network ''http://acme.test'') = None
   \<and> issues (analyze_website example_network ''http://acme.test'')
        = [''Analysis error: '' @ str_exc (NameError ''result'')]"
proof -
  have "\<not> py_startswith ''http://acme.test'' ''https://''" by (simp add: py_startswith_def)
  then have "soup_viewport example_page = None \<or> \<not> py_truthy (soup_lang example_page)
           \<or> \<not> py_startswith ''http://acme.test'' ''https://''" by simp
  with example_fetches(3)
  have "error (analyze_website example_network ''http://acme.test'')
          = Some (str_exc (NameError ''result''))
       \<and> seo_score (analyze_website example_network ''http://acme.test'') = Some 0
       \<and> score_breakdown (analyze_website example_network ''http://acme.test'') = None"
    by (rule analyze_website_technical_issue_lost)
  with example_fetches(3,4) example_https_result(1,2) example_http_issues
  show ?thesis by simp
qed


section \<open>Properties of the pipeline\<close>

lemma analyze_website_url: "url (analyze_website net u) = u"
proof -
  obtain x r where t: "try_analyze net u (new_result u) = (x, r)"
    by (cases "try_analyze net u (new_result u)")
  have ur: "url r = u" using try_analyze_url[of net u "new_result u"] t by (simp add: new_result_def)
  show ?thesis
  proof (cases x)
    case None
    with t ur show ?thesis by (simp add: analyze_website_on_success)
  next
    case (Some e)
    consider "e = Timeout" | "e = ConnectionError" | "e \<noteq> Timeout" "e \<noteq> ConnectionError" by blast
    then obtain m i where "analyze_website net u = on_exception m i r"
      using analyze_website_on_error[of net u e r] t Some by metis
    with ur show ?thesis by (simp add: on_exception_fields)
  qed
qed

lemma add_unique_distinct: "distinct all_sites \<Longrightarrow> distinct (add_unique all_sites comps)"
  by (induction comps arbitrary: all_sites) simp_all

lemma collect_sites_distinct: "distinct all_sites \<Longrightarrow> distinct (collect_sites all_sites competitors)"
  by (induction competitors arbitrary: all_sites) (auto simp: add_unique_distinct)

lemma add_unique_keeps_duplicates: "\<not> distinct all_sites \<Longrightarrow> \<not> distinct (add_unique all_sites comps)"
  by (induction comps arbitrary: all_sites) simp_all

lemma analysis_callback_url: "url (analysis_callback websites competitor_map r) = url r"
  by (simp add: analysis_callback_def split: option.splits)

lemma run_analysis_urls:
  "map url (run_analysis net include_competitors competitors websites)
     = (if include_competitors then collect_sites websites competitors else websites)"
proof -
  have "\<And>site. url (analyze_website net site) = site"
    using analyze_website_url by simp
  then show ?thesis
    by (simp add: run_analysis_def Let_def analysis_callback_url comp_def)
qed

lemma run_analysis_distinct_seeds:
  assumes "distinct websites"
  shows "distinct (map url (run_analysis net include_competitors competitors websites))"
  unfolding run_analysis_urls using assms by (simp add: collect_sites_distinct)

lemma example_parse:
  "parse_websites (\<lambda>u. True) (''acme.test'' @ [CHR 0x0A] @ ''acme.test'')
     = [''https://acme.test'', ''https://acme.test'']"
  by code_simp

text \<open>
  C5. The claim is that each site URL is dispatched exactly once and duplicates among the
  seeds are removed. The code removes duplicates only among the competitors it appends:
  a seed entered on two lines is parsed twice, dispatched twice and yields two results
  for one URL.
\<close>

theorem run_analysis_duplicate_seed_analysed_twice:
  "parse_websites (\<lambda>u. True) (''acme.test'' @ [CHR 0x0A] @ ''acme.test'')
     = [''https://acme.test'', ''https://acme.test'']
   \<and> map url (run_analysis net include_competitors []
                 (parse_websites (\<lambda>u. True) (''acme.test'' @ [CHR 0x0A] @ ''acme.test'')))
     = [''https://acme.test'', ''https://acme.test'']
   \<and> \<not> distinct (map url (run_analysis net include_competitors []
                 (parse_websites (\<lambda>u. True) (''acme.test'' @ [CHR 0x0A] @ ''acme.test''))))"
  unfolding example_parse run_analysis_urls by simp

lemma run_analysis_two_seeds_example:
  "map (\<lambda>r. (url r, error r, seo_score r, is_competitor r, main_site r))
     (run_analysis example_network False [] [''https://slow.test'', ''https://acme.test''])
   = [(''https://slow.test'', Some ''Website took too long to respond'', Some 0, Some False,
        Some ''https://slow.test''),
      (''https://acme.test'', None, Some 100, Some False, Some ''https://acme.test'')]"
  by code_simp

section \<open>Properties of generate\_with\_retry\<close>


lemma rotate_key_models: "gemini_models (snd (rotate_key ai)) = gemini_models ai"
  by (simp add: rotate_key_def)

lemma rotate_key_index:
  "fst (rotate_key ai) \<Longrightarrow>
     current_key_index (snd (rotate_key ai)) = (current_key_index ai + 1) mod length (gemini_models ai)"
  by (simp add: rotate_key_def split: if_splits)

lemma rotate_key_fst: "fst (rotate_key ai) = (1 < length (gemini_models ai))"
  by (simp add: rotate_key_def)

lemma retry_loop_stop:
  "\<not> (retries < max_retries \<and> keys_tried < length (gemini_models ai)) \<Longrightarrow>
     retry_loop g p max_retries ai retries keys_tried calls
       = \<lparr>outcome = NoResponse, final_ai = ai, attempts = [], sleeps = []\<rparr>"
  by (subst retry_loop.simps) auto

lemma retry_loop_no_model:
  "retries < max_retries \<Longrightarrow> keys_tried < length (gemini_models ai) \<Longrightarrow>
   try_generate g calls ai p = None \<Longrightarrow>
     retry_loop g p max_retries ai retries keys_tried calls
       = \<lparr>outcome = NoResponse, final_ai = ai, attempts = [], sleeps = []\<rparr>"
  by (subst retry_loop.simps) simp

lemma retry_loop_response:
  "retries < max_retries \<Longrightarrow> keys_tried < length (gemini_models ai) \<Longrightarrow>
   try_generate g calls ai p = Some (Inr text) \<Longrightarrow>
     retry_loop g p max_retries ai retries keys_tried calls
       = \<lparr>outcome = Response text, final_ai = ai,
          attempts = [(current_key_index ai, Inr text)], sleeps = []\<rparr>"
  by (subst retry_loop.simps) simp

lemma retry_loop_rotate:
  "retries < max_retries \<Longrightarrow> keys_tried < length (gemini_models ai) \<Longrightarrow>
   try_generate g calls ai p = Some (Inl error_msg) \<Longrightarrow> is_rate_limit error_msg \<Longrightarrow>
   fst (rotate_key ai) \<Longrightarrow>
     retry_loop g p max_retries ai retries keys_tried calls
       = cons_attempt (current_key_index ai, Inl error_msg)
           (retry_loop g p max_retries (snd (rotate_key ai)) retries (keys_tried + 1) (calls + 1))"
  by (subst retry_loop.simps) simp

lemma retry_loop_exhausted:
  "retries < max_retries \<Longrightarrow> keys_tried < length (gemini_models ai) \<Longrightarrow>
   try_generate g calls ai p = Some (Inl error_msg) \<Longrightarrow> is_rate_limit error_msg \<Longrightarrow>
   \<not> fst (rotate_key ai) \<Longrightarrow>
     retry_loop g p max_retries ai retries keys_tried calls
       = \<lparr>outcome = Raised ''All API keys have hit rate limits'', final_ai = snd (rotate_key ai),
          attempts = [(current_key_index ai, Inl error_msg)], sleeps = []\<rparr>"
  by (subst retry_loop.simps) simp

lemma retry_loop_retry:
  "retries < max_retries \<Longrightarrow> keys_tried < length (gemini_models ai) \<Longrightarrow>
   try_generate g calls ai p = Some (Inl error_msg) \<Longrightarrow> \<not> is_rate_limit error_msg \<Longrightarrow>
   retries + 1 < max_retries \<Longrightarrow>
     retry_loop g p max_retries ai retries keys_tried calls
       = cons_attempt (current_key_index ai, Inl error_msg)
           (cons_sleep (2 ^ (retries + 1))
              (retry_loop g p max_retries ai (retries + 1) keys_tried (calls + 1)))"
  by (subst retry_loop.simps) simp

lemma retry_loop_give_up:
  "retries < max_retries \<Longrightarrow> keys_tried < length (gemini_models ai) \<Longrightarrow>
   try_generate g calls ai p = Some (Inl error_msg) \<Longrightarrow> \<not> is_rate_limit error_msg \<Longrightarrow>
   \<not> retries + 1 < max_retries \<Longrightarrow>
     retry_loop g p max_retries ai retries keys_tried calls
       = \<lparr>outcome = Raised error_msg, final_ai = ai,
          attempts = [(current_key_index ai, Inl error_msg)], sleeps = []\<rparr>"
  by (subst retry_loop.simps) simp

text \<open>The seven ways one iteration can go, as an elimination rule.\<close>

lemma retry_loop_cases:
  obtains
    (stop) "\<not> (retries < max_retries \<and> keys_tried < length (gemini_models ai))"
  | (no_model) "retries < max_retries" "keys_tried < length (gemini_models ai)"
      "try_generate g calls ai p = None"
  | (response) reply where "retries < max_retries" "keys_tried < length (gemini_models ai)"
      "try_generate g calls ai p = Some (Inr reply)"
  | (rotate) error_msg where "retries < max_retries" "keys_tried < length (gemini_models ai)"
      "try_generate g calls ai p = Some (Inl error_msg)" "is_rate_limit error_msg"
      "fst (rotate_key ai)"
  | (exhausted) error_msg where "retries < max_retries" "keys_tried < length (gemini_models ai)"
      "try_generate g calls ai p = Some (Inl error_msg)" "is_rate_limit error_msg"
      "\<not> fst (rotate_key ai)"
  | (retry) error_msg where "retries < max_retries" "keys_tried < length (gemini_models ai)"
      "try_generate g calls ai p = Some (Inl error_msg)" "\<not> is_rate_limit error_msg"
      "retries + 1 < max_retries"
  | (give_up) error_msg where "retries < max_retries" "keys_tried < length (gemini_models ai)"
      "try_generate g calls ai p = Some (Inl error_msg)" "\<not> is_rate_limit error_msg"
      "\<not> retries + 1 < max_retries"
proof (cases "retries < max_retries \<and> keys_tried < length (gemini_models ai)")
  case False
  then show ?thesis by (rule stop)
next
  case True
  then have a: "retries < max_retries" and b: "keys_tried < length (gemini_models ai)" by simp_all
  show ?thesis
  proof (cases "try_generate g calls ai p")
    case None
    with a b show ?thesis by (rule no_model)
  next
    case (Some x)
    show ?thesis
    proof (cases x)
      case (Inr reply)
      with Some have "try_generate g calls ai p = Some (Inr reply)" by simp
      with a b show ?thesis by (rule response)
    next
      case (Inl error_msg)
      with Some have t: "try_generate g calls ai p = Some (Inl error_msg)" by simp
      show ?thesis
      proof (cases "is_rate_limit error_msg")
        case True
        show ?thesis
        proof (cases "fst (rotate_key ai)")
          case True
          with a b t \<open>is_rate_limit error_msg\<close> show ?thesis by (rule rotate)
        next
          case False
          with a b t \<open>is_rate_limit error_msg\<close> show ?thesis by (rule exhausted)
        qed
      next
        case False
        show ?thesis
        proof (cases "retries + 1 < max_retries")
          case True
          with a b t \<open>\<not> is_rate_limit error_msg\<close> show ?thesis by (rule retry)
        next
          case False
          with a b t \<open>\<not> is_rate_limit error_msg\<close> show ?thesis by (rule give_up)
        qed
      qed
    qed
  qed
qed

lemma rate_limited_simps [simp]:
  "rate_limited (k, Inl m) = is_rate_limit m" "rate_limited (k, Inr t) = False"
  "other_error (k, Inl m) = (\<not> is_rate_limit m)" "other_error (k, Inr t) = False"
  by (simp_all add: rate_limited_def other_error_def)

lemma cons_fields [simp]:
  "attempts (cons_attempt a run) = a # attempts run" "sleeps (cons_attempt a run) = sleeps run"
  "outcome (cons_attempt a run) = outcome run"
  "attempts (cons_sleep d run) = attempts run" "sleeps (cons_sleep d run) = d # sleeps run"
  "outcome (cons_sleep d run) = outcome run"
  by (simp_all add: cons_attempt_def cons_sleep_def)

lemma shifted_keys:
  assumes "idx < n"
  shows "idx # map (\<lambda>j. ((idx + 1) mod n + j) mod n) [0..<k] = map (\<lambda>j. (idx + j) mod n) [0..<Suc k]"
proof -
  have "[0..<Suc k] = 0 # map Suc [0..<k]" by (simp add: upt_conv_Cons map_Suc_upt del: upt_Suc)
  then have "map (\<lambda>j. (idx + j) mod n) [0..<Suc k]
      = idx mod n # map (\<lambda>j. (idx + Suc j) mod n) [0..<k]" by (simp add: comp_def del: upt_Suc)
  moreover have "\<And>j. ((idx + 1) mod n + j) mod n = (idx + Suc j) mod n"
    by (simp add: mod_add_left_eq)
  ultimately show ?thesis using assms by simp
qed

lemma rate_limited_keys:
  assumes "current_key_index ai < length (gemini_models ai)"
  shows "map fst (filter rate_limited (attempts (retry_loop g p m ai r kt c)))
           = map (\<lambda>j. (current_key_index ai + j) mod length (gemini_models ai))
               [0..<length (filter rate_limited (attempts (retry_loop g p m ai r kt c)))]
       \<and> length (filter rate_limited (attempts (retry_loop g p m ai r kt c)))
           \<le> length (gemini_models ai) - kt
       \<and> (kt \<le> length (gemini_models ai) \<and> length (filter rate_limited (attempts (retry_loop g p m ai r kt c)))
              = length (gemini_models ai) - kt
            \<longrightarrow> (\<forall>t. outcome (retry_loop g p m ai r kt c) \<noteq> Response t))"
  using assms
proof (induction g p m ai r kt c rule: retry_loop.induct)
  case (1 g p m ai r kt c)
  let ?n = "length (gemini_models ai)" and ?idx = "current_key_index ai"
  show ?case
  proof (cases rule: retry_loop_cases[where retries=r and max_retries=m and keys_tried=kt and ai=ai and g=g and calls=c and p=p])
    case stop
    then show ?thesis by (simp add: retry_loop_stop)
  next
    case no_model
    then show ?thesis by (simp add: retry_loop_no_model)
  next
    case (response reply)
    then show ?thesis by (simp add: retry_loop_response)
  next
    case (rotate error_msg)
    let ?ai = "snd (rotate_key ai)"
    let ?rec = "retry_loop g p m ?ai r (kt + 1) (c + 1)"
    let ?k = "length (filter rate_limited (attempts ?rec))"
    have n1: "1 < ?n" using rotate(5) by (simp add: rotate_key_fst)
    have i': "current_key_index ?ai = (?idx + 1) mod ?n" using rotate(5) by (rule rotate_key_index)
    have m': "length (gemini_models ?ai) = ?n" by (simp add: rotate_key_models)
    have "0 < ?n" using n1 by linarith
    then have "(?idx + 1) mod ?n < ?n" by (rule mod_less_divisor)
    then have "current_key_index ?ai < length (gemini_models ?ai)" by (simp only: i' m')
    with "1.IH"(1)[OF _ rotate(3) refl rotate(4) rotate(5)] rotate(1,2)
    have ih: "map fst (filter rate_limited (attempts ?rec))
                = map (\<lambda>j. ((?idx + 1) mod ?n + j) mod ?n) [0..<?k]"
      and ih2: "?k \<le> ?n - (kt + 1)"
      and ih3: "kt + 1 \<le> ?n \<and> ?k = ?n - (kt + 1) \<longrightarrow> (\<forall>t. outcome ?rec \<noteq> Response t)"
      by (simp_all add: i' m')
    have e: "retry_loop g p m ai r kt c = cons_attempt (?idx, Inl error_msg) ?rec"
      using rotate by (rule retry_loop_rotate)
    have a: "map fst (filter rate_limited (attempts (retry_loop g p m ai r kt c)))
          = map (\<lambda>j. (?idx + j) mod ?n) [0..<Suc ?k]"
      unfolding e using rotate(4) ih shifted_keys[OF "1.prems", of ?k] by simp
    have b: "length (filter rate_limited (attempts (retry_loop g p m ai r kt c))) = Suc ?k"
      unfolding e using rotate(4) by simp
    show ?thesis
      unfolding b using a b ih2 ih3 rotate(2) e by (simp del: upt_Suc)
  next
    case (exhausted error_msg)
    have "?n = 1" using exhausted(2,5) by (simp add: rotate_key_fst)
    then show ?thesis using exhausted "1.prems" by (simp add: retry_loop_exhausted)
  next
    case (retry error_msg)
    let ?rec = "retry_loop g p m ai (r + 1) kt (c + 1)"
    have e: "retry_loop g p m ai r kt c
        = cons_attempt (?idx, Inl error_msg) (cons_sleep (2 ^ (r + 1)) ?rec)"
      using retry by (rule retry_loop_retry)
    from "1.IH"(2)[OF _ retry(3) refl retry(4) retry(5) "1.prems"] retry(1,2)
    show ?thesis unfolding e using retry(4) by simp
  next
    case (give_up error_msg)
    then show ?thesis using "1.prems" by (simp add: retry_loop_give_up)
  qed
qed


lemma chain_Cons:
  assumes "T \<noteq> [] \<longrightarrow> fst (hd T) = f a"
    and "\<forall>i. Suc i < length T \<longrightarrow> fst (T ! Suc i) = f (T ! i)"
  shows "\<forall>i. Suc i < length (a # T) \<longrightarrow> fst ((a # T) ! Suc i) = f ((a # T) ! i)"
proof (intro allI impI)
  fix i
  assume l: "Suc i < length (a # T)"
  show "fst ((a # T) ! Suc i) = f ((a # T) ! i)"
  proof (cases i)
    case 0
    with l have "T \<noteq> []" by auto
    with assms(1) have "fst (hd T) = f a" by simp
    with \<open>T \<noteq> []\<close> 0 show ?thesis by (simp add: hd_conv_nth)
  next
    case (Suc j)
    with l assms(2) show ?thesis by simp
  qed
qed

lemma attempts_chain:
  "(attempts (retry_loop g p m ai r kt c) \<noteq> []
      \<longrightarrow> fst (hd (attempts (retry_loop g p m ai r kt c))) = current_key_index ai)
   \<and> (\<forall>i. Suc i < length (attempts (retry_loop g p m ai r kt c))
        \<longrightarrow> fst (attempts (retry_loop g p m ai r kt c) ! Suc i)
            = key_after (length (gemini_models ai)) (attempts (retry_loop g p m ai r kt c) ! i))"
proof (induction g p m ai r kt c rule: retry_loop.induct)
  case (1 g p m ai r kt c)
  let ?n = "length (gemini_models ai)" and ?idx = "current_key_index ai"
  show ?case
  proof (cases rule: retry_loop_cases[where retries=r and max_retries=m and keys_tried=kt
          and ai=ai and g=g and calls=c and p=p])
    case stop
    then show ?thesis by (simp add: retry_loop_stop)
  next
    case no_model
    then show ?thesis by (simp add: retry_loop_no_model)
  next
    case (response reply)
    then show ?thesis by (simp add: retry_loop_response)
  next
    case (rotate error_msg)
    let ?ai = "snd (rotate_key ai)"
    let ?rec = "retry_loop g p m ?ai r (kt + 1) (c + 1)"
    let ?a = "(?idx, Inl error_msg) :: nat \<times> (string + string)"
    have i': "current_key_index ?ai = (?idx + 1) mod ?n" using rotate(5) by (rule rotate_key_index)
    have m': "length (gemini_models ?ai) = ?n" by (simp add: rotate_key_models)
    have k: "key_after ?n ?a = (?idx + 1) mod ?n" using rotate(4) by (simp add: key_after_def)
    from "1.IH"(1)[OF _ rotate(3) refl rotate(4) rotate(5)] rotate(1,2)
    have ih1: "attempts ?rec \<noteq> [] \<longrightarrow> fst (hd (attempts ?rec)) = key_after ?n ?a"
      and ih2: "\<forall>i. Suc i < length (attempts ?rec)
                 \<longrightarrow> fst (attempts ?rec ! Suc i) = key_after ?n (attempts ?rec ! i)"
      by (simp_all add: i' m' k)
    have e: "attempts (retry_loop g p m ai r kt c) = ?a # attempts ?rec"
      using retry_loop_rotate[OF rotate] by simp
    show ?thesis unfolding e using chain_Cons[OF ih1 ih2] by simp
  next
    case (exhausted error_msg)
    then show ?thesis by (simp add: retry_loop_exhausted)
  next
    case (retry error_msg)
    let ?rec = "retry_loop g p m ai (r + 1) kt (c + 1)"
    let ?a = "(?idx, Inl error_msg) :: nat \<times> (string + string)"
    have k: "key_after ?n ?a = ?idx" using retry(4) by (simp add: key_after_def)
    from "1.IH"(2)[OF _ retry(3) refl retry(4) retry(5)] retry(1,2)
    have ih1: "attempts ?rec \<noteq> [] \<longrightarrow> fst (hd (attempts ?rec)) = key_after ?n ?a"
      and ih2: "\<forall>i. Suc i < length (attempts ?rec)
                 \<longrightarrow> fst (attempts ?rec ! Suc i) = key_after ?n (attempts ?rec ! i)"
      by (simp_all add: k)
    have e: "attempts (retry_loop g p m ai r kt c) = ?a # attempts ?rec"
      using retry_loop_retry[OF retry] by simp
    show ?thesis unfolding e using chain_Cons[OF ih1 ih2] by simp
  next
    case (give_up error_msg)
    then show ?thesis by (simp add: retry_loop_give_up)
  qed
qed

lemma other_errors_and_sleeps:
  "length (filter other_error (attempts (retry_loop g p m ai r kt c))) \<le> m - r
   \<and> sleeps (retry_loop g p m ai r kt c)
       = map (\<lambda>k. 2 ^ k) [r + 1 ..< r + 1 + length (sleeps (retry_loop g p m ai r kt c))]
   \<and> r + length (sleeps (retry_loop g p m ai r kt c)) < max m (Suc r)"
proof (induction g p m ai r kt c rule: retry_loop.induct)
  case (1 g p m ai r kt c)
  let ?idx = "current_key_index ai"
  show ?case
  proof (cases rule: retry_loop_cases[where retries=r and max_retries=m and keys_tried=kt
          and ai=ai and g=g and calls=c and p=p])
    case stop
    then show ?thesis by (simp add: retry_loop_stop)
  next
    case no_model
    then show ?thesis by (simp add: retry_loop_no_model)
  next
    case (response reply)
    then show ?thesis by (simp add: retry_loop_response)
  next
    case (rotate error_msg)
    let ?rec = "retry_loop g p m (snd (rotate_key ai)) r (kt + 1) (c + 1)"
    have e: "retry_loop g p m ai r kt c = cons_attempt (?idx, Inl error_msg) ?rec"
      using rotate by (rule retry_loop_rotate)
    from "1.IH"(1)[OF _ rotate(3) refl rotate(4) rotate(5)] rotate(1,2)
    show ?thesis unfolding e using rotate(4) by simp
  next
    case (exhausted error_msg)
    then show ?thesis by (simp add: retry_loop_exhausted)
  next
    case (retry error_msg)
    let ?rec = "retry_loop g p m ai (r + 1) kt (c + 1)"
    let ?k = "length (sleeps ?rec)"
    have e: "retry_loop g p m ai r kt c
        = cons_attempt (?idx, Inl error_msg) (cons_sleep (2 ^ (r + 1)) ?rec)"
      using retry by (rule retry_loop_retry)
    from "1.IH"(2)[OF _ retry(3) refl retry(4) retry(5)] retry(1,2)
    have ih1: "length (filter other_error (attempts ?rec)) \<le> m - (r + 1)"
      and ih2: "sleeps ?rec = map (\<lambda>k. 2 ^ k) [r + 2 ..< r + 2 + ?k]"
      and ih3: "r + 1 + ?k < max m (Suc (r + 1))"
      by simp_all
    have u: "[r + 1 ..< r + 1 + Suc ?k] = (r + 1) # [r + 2 ..< r + 2 + ?k]"
      by (simp add: upt_conv_Cons del: upt_Suc)
    have s: "sleeps (retry_loop g p m ai r kt c) = 2 ^ (r + 1) # sleeps ?rec"
      unfolding e by simp
    have s2: "2 ^ (r + 1) # sleeps ?rec = map (\<lambda>k. 2 ^ k) [r + 1 ..< r + 1 + Suc ?k]"
      unfolding u using ih2 by simp
    have a: "length (filter other_error (attempts (retry_loop g p m ai r kt c)))
               = Suc (length (filter other_error (attempts ?rec)))"
      unfolding e using retry(4) by simp
    have l: "length (sleeps (retry_loop g p m ai r kt c)) = Suc ?k" unfolding s by simp
    show ?thesis unfolding a l unfolding s s2 using ih1 ih3 retry(5) by simp
  next
    case (give_up error_msg)
    then show ?thesis by (simp add: retry_loop_give_up)
  qed
qed

lemma response_is_last_attempt:
  "outcome (retry_loop g p m ai r kt c) = Response t \<longrightarrow>
     attempts (retry_loop g p m ai r kt c) \<noteq> []
     \<and> snd (last (attempts (retry_loop g p m ai r kt c))) = Inr t"
proof (induction g p m ai r kt c rule: retry_loop.induct)
  case (1 g p m ai r kt c)
  let ?idx = "current_key_index ai"
  show ?case
  proof (cases rule: retry_loop_cases[where retries=r and max_retries=m and keys_tried=kt
          and ai=ai and g=g and calls=c and p=p])
    case stop
    then show ?thesis by (simp add: retry_loop_stop)
  next
    case no_model
    then show ?thesis by (simp add: retry_loop_no_model)
  next
    case (response reply)
    then show ?thesis by (simp add: retry_loop_response)
  next
    case (rotate error_msg)
    have e: "retry_loop g p m ai r kt c = cons_attempt (?idx, Inl error_msg)
               (retry_loop g p m (snd (rotate_key ai)) r (kt + 1) (c + 1))"
      using rotate by (rule retry_loop_rotate)
    from "1.IH"(1)[OF _ rotate(3) refl rotate(4) rotate(5)] rotate(1,2)
    show ?thesis unfolding e by simp
  next
    case (exhausted error_msg)
    then show ?thesis by (simp add: retry_loop_exhausted)
  next
    case (retry error_msg)
    have e: "retry_loop g p m ai r kt c
        = cons_attempt (?idx, Inl error_msg) (cons_sleep (2 ^ (r + 1))
            (retry_loop g p m ai (r + 1) kt (c + 1)))"
      using retry by (rule retry_loop_retry)
    from "1.IH"(2)[OF _ retry(3) refl retry(4) retry(5)] retry(1,2)
    show ?thesis unfolding e by simp
  next
    case (give_up error_msg)
    then show ?thesis by (simp add: retry_loop_give_up)
  qed
qed

lemma rotation_key_inj:
  fixes x y :: nat
  assumes "x \<le> y" "y < n" "(idx + x) mod n = (idx + y) mod n"
  shows "x = y"
proof -
  have "idx + x \<le> idx + y" using assms(1) by simp
  then have "((idx + y) mod n = (idx + x) mod n) = (n dvd (idx + y) - (idx + x))"
    by (rule mod_eq_dvd_iff_nat)
  then have "n dvd (idx + y) - (idx + x)" using assms(3) by metis
  then have d: "n dvd y - x" by simp
  have "y - x < n" using assms(2) by simp
  with d have "y - x = 0" by (meson dvd_imp_le not_le zero_less_iff_neq_zero)
  with assms(1) show ?thesis by simp
qed

lemma rotation_keys_distinct:
  assumes "k \<le> n"
  shows "distinct (map (\<lambda>j. (idx + j) mod n) [0..<k])"
proof -
  have "inj_on (\<lambda>j. (idx + j) mod n) {0..<k}"
  proof (rule inj_onI)
    fix x y
    assume x: "x \<in> {0..<k}" and y: "y \<in> {0..<k}" and e: "(idx + x) mod n = (idx + y) mod n"
    from x y assms have xn: "x < n" and yn: "y < n" by simp_all
    show "x = y"
    proof (cases "x \<le> y")
      case True
      then show ?thesis using yn e by (rule rotation_key_inj)
    next
      case False
      then have "y \<le> x" by simp
      then have "y = x" using xn e[symmetric] by (rule rotation_key_inj)
      then show ?thesis by simp
    qed
  qed
  then show ?thesis by (simp add: distinct_map)
qed


lemma doubling_delays:
  assumes "s = map (\<lambda>k. (2::nat) ^ k) [1..<Suc (length s)]"
  shows "(s \<noteq> [] \<longrightarrow> hd s = 2) \<and> (\<forall>i. Suc i < length s \<longrightarrow> s ! Suc i = 2 * s ! i)"
proof
  show "s \<noteq> [] \<longrightarrow> hd s = 2"
  proof
    assume "s \<noteq> []"
    then have "0 < length s" by simp
    then have "s ! 0 = map (\<lambda>k. (2::nat) ^ k) [1..<Suc (length s)] ! 0" using assms by simp
    also have "\<dots> = 2" using \<open>0 < length s\<close> by (simp add: nth_map del: upt_Suc)
    finally show "hd s = 2" using \<open>s \<noteq> []\<close> by (simp add: hd_conv_nth)
  qed
  show "\<forall>i. Suc i < length s \<longrightarrow> s ! Suc i = 2 * s ! i"
  proof (intro allI impI)
    fix i
    assume l: "Suc i < length s"
    have a: "s ! Suc i = map (\<lambda>k. (2::nat) ^ k) [1..<Suc (length s)] ! Suc i" using assms by simp
    have b: "s ! i = map (\<lambda>k. (2::nat) ^ k) [1..<Suc (length s)] ! i" using assms by simp
    have "map (\<lambda>k. (2::nat) ^ k) [1..<Suc (length s)] ! Suc i = 2 ^ (1 + Suc i)"
      using l by (simp add: nth_map del: upt_Suc)
    moreover have "map (\<lambda>k. (2::nat) ^ k) [1..<Suc (length s)] ! i = 2 ^ (1 + i)"
      using l by (simp add: nth_map del: upt_Suc)
    ultimately show "s ! Suc i = 2 * s ! i" using a b by simp
  qed
qed

lemma try_generate_ready:
  assumes "is_initialized ai" "current_key_index ai < length (gemini_models ai)"
  shows "try_generate g c ai p = Some (g c (gemini_models ai ! current_key_index ai) p)"
proof -
  have "gemini_models ai \<noteq> []" using assms(2) by auto
  then show ?thesis using assms by (simp add: try_generate_def get_current_model_def)
qed

lemma rotate_key_ready:
  assumes "is_initialized ai" "fst (rotate_key ai)"
  shows "is_initialized (snd (rotate_key ai))"
    and "current_key_index (snd (rotate_key ai)) < length (gemini_models (snd (rotate_key ai)))"
proof -
  show "is_initialized (snd (rotate_key ai))" using assms by (simp add: rotate_key_def)
  have n1: "1 < length (gemini_models ai)" using assms(2) by (simp add: rotate_key_fst)
  then have "0 < length (gemini_models ai)" by linarith
  then have "(current_key_index ai + 1) mod length (gemini_models ai) < length (gemini_models ai)"
    by (rule mod_less_divisor)
  then show "current_key_index (snd (rotate_key ai)) < length (gemini_models (snd (rotate_key ai)))"
    by (simp only: rotate_key_index[OF assms(2)] rotate_key_models)
qed

lemma first_attempt_made:
  assumes "is_initialized ai" "current_key_index ai < length (gemini_models ai)"
    and "r < m" "kt < length (gemini_models ai)"
  shows "attempts (retry_loop g p m ai r kt c) \<noteq> []"
proof (cases rule: retry_loop_cases[where retries=r and max_retries=m and keys_tried=kt
          and ai=ai and g=g and calls=c and p=p])
  case stop
  with assms show ?thesis by simp
next
  case no_model
  with try_generate_ready[OF assms(1,2), of g c p] show ?thesis by simp
next
  case (response reply)
  then show ?thesis by (simp add: retry_loop_response)
next
  case (rotate error_msg)
  then show ?thesis by (simp add: retry_loop_rotate)
next
  case (exhausted error_msg)
  then show ?thesis by (simp add: retry_loop_exhausted)
next
  case (retry error_msg)
  then show ?thesis by (simp add: retry_loop_retry)
next
  case (give_up error_msg)
  then show ?thesis by (simp add: retry_loop_give_up)
qed

lemma nth_Cons_all:
  assumes "P 0 a" "\<forall>i < length T. P (Suc i) (T ! i)"
  shows "\<forall>i < length (a # T). P i ((a # T) ! i)"
proof (intro allI impI)
  fix i assume "i < length (a # T)"
  then show "P i ((a # T) ! i)" using assms by (cases i) simp_all
qed

lemma attempts_are_calls:
  assumes "is_initialized ai" "current_key_index ai < length (gemini_models ai)"
  shows "\<forall>i < length (attempts (retry_loop g p m ai r kt c)).
           snd (attempts (retry_loop g p m ai r kt c) ! i)
             = g (c + i) (gemini_models ai ! fst (attempts (retry_loop g p m ai r kt c) ! i)) p"
  using assms
proof (induction g p m ai r kt c rule: retry_loop.induct)
  case (1 g p m ai r kt c)
  let ?idx = "current_key_index ai"
  note tg = try_generate_ready[OF "1.prems", of g c p]
  show ?case
  proof (cases rule: retry_loop_cases[where retries=r and max_retries=m and keys_tried=kt
          and ai=ai and g=g and calls=c and p=p])
    case stop
    then show ?thesis by (simp add: retry_loop_stop)
  next
    case no_model
    then show ?thesis by (simp add: retry_loop_no_model)
  next
    case (response reply)
    then show ?thesis using tg by (simp add: retry_loop_response)
  next
    case (rotate error_msg)
    let ?ai = "snd (rotate_key ai)"
    let ?rec = "retry_loop g p m ?ai r (kt + 1) (c + 1)"
    have e: "attempts (retry_loop g p m ai r kt c) = (?idx, Inl error_msg) # attempts ?rec"
      using retry_loop_rotate[OF rotate] by simp
    note rdy = rotate_key_ready[OF "1.prems"(1) rotate(5)]
    from "1.IH"(1)[OF _ rotate(3) refl rotate(4) rotate(5) rdy] rotate(1,2)
    have ih: "\<forall>i < length (attempts ?rec).
                snd (attempts ?rec ! i) = g (c + Suc i) (gemini_models ai ! fst (attempts ?rec ! i)) p"
      by (simp add: rotate_key_models)
    have a0: "snd (?idx, Inl error_msg :: string + string) = g (c + 0) (gemini_models ai ! fst (?idx, Inl error_msg :: string + string)) p"
      using tg rotate(3) by simp
    show ?thesis unfolding e
      using nth_Cons_all[where P="\<lambda>i a. snd a = g (c + i) (gemini_models ai ! fst a) p", OF a0 ih]
      by simp
  next
    case (exhausted error_msg)
    then show ?thesis using tg by (simp add: retry_loop_exhausted)
  next
    case (retry error_msg)
    let ?rec = "retry_loop g p m ai (r + 1) kt (c + 1)"
    have e: "attempts (retry_loop g p m ai r kt c) = (?idx, Inl error_msg) # attempts ?rec"
      using retry_loop_retry[OF retry] by simp
    from "1.IH"(2)[OF _ retry(3) refl retry(4) retry(5) "1.prems"] retry(1,2)
    have ih: "\<forall>i < length (attempts ?rec).
                snd (attempts ?rec ! i) = g (c + Suc i) (gemini_models ai ! fst (attempts ?rec ! i)) p"
      by simp
    have a0: "snd (?idx, Inl error_msg :: string + string) = g (c + 0) (gemini_models ai ! fst (?idx, Inl error_msg :: string + string)) p"
      using tg retry(3) by simp
    show ?thesis unfolding e
      using nth_Cons_all[where P="\<lambda>i a. snd a = g (c + i) (gemini_models ai ! fst a) p", OF a0 ih]
      by simp
  next
    case (give_up error_msg)
    then show ?thesis using tg by (simp add: retry_loop_give_up)
  qed
qed

lemma all_less_Cons:
  assumes "Q 0" "\<forall>j < length T. Q (Suc j)"
  shows "\<forall>i < length (a # T). Q i"
proof (intro allI impI)
  fix i assume "i < length (a # T)"
  then show "Q i" using assms by (cases i) simp_all
qed

lemma rotation_continues:
  assumes "is_initialized ai" "current_key_index ai < length (gemini_models ai)"
  shows "\<forall>i < length (attempts (retry_loop g p m ai r kt c)).
           rate_limited (attempts (retry_loop g p m ai r kt c) ! i)
           \<and> kt + length (filter rate_limited (take (Suc i) (attempts (retry_loop g p m ai r kt c))))
                < length (gemini_models ai)
           \<longrightarrow> Suc i < length (attempts (retry_loop g p m ai r kt c))"
  using assms
proof (induction g p m ai r kt c rule: retry_loop.induct)
  case (1 g p m ai r kt c)
  let ?idx = "current_key_index ai" and ?n = "length (gemini_models ai)"
  show ?case
  proof (cases rule: retry_loop_cases[where retries=r and max_retries=m and keys_tried=kt
          and ai=ai and g=g and calls=c and p=p])
    case stop
    then show ?thesis by (simp add: retry_loop_stop)
  next
    case no_model
    then show ?thesis by (simp add: retry_loop_no_model)
  next
    case (response reply)
    then show ?thesis by (simp add: retry_loop_response)
  next
    case (rotate error_msg)
    let ?ai = "snd (rotate_key ai)"
    let ?rec = "retry_loop g p m ?ai r (kt + 1) (c + 1)"
    let ?a = "(?idx, Inl error_msg) :: nat \<times> (string + string)"
    have e: "attempts (retry_loop g p m ai r kt c) = ?a # attempts ?rec"
      using retry_loop_rotate[OF rotate] by simp
    note rdy = rotate_key_ready[OF "1.prems"(1) rotate(5)]
    from "1.IH"(1)[OF _ rotate(3) refl rotate(4) rotate(5) rdy] rotate(1,2)
    have ih: "\<forall>j < length (attempts ?rec).
           rate_limited (attempts ?rec ! j)
           \<and> (kt + 1) + length (filter rate_limited (take (Suc j) (attempts ?rec))) < ?n
           \<longrightarrow> Suc j < length (attempts ?rec)"
      by (simp add: rotate_key_models)
    have q0: "rate_limited ((?a # attempts ?rec) ! 0)
           \<and> kt + length (filter rate_limited (take (Suc 0) (?a # attempts ?rec))) < ?n
           \<longrightarrow> Suc 0 < length (?a # attempts ?rec)"
    proof
      assume "rate_limited ((?a # attempts ?rec) ! 0)
           \<and> kt + length (filter rate_limited (take (Suc 0) (?a # attempts ?rec))) < ?n"
      then have "kt + 1 < ?n" using rotate(4) by simp
      then have "kt + 1 < length (gemini_models ?ai)" by (simp add: rotate_key_models)
      with rdy rotate(1) have "attempts ?rec \<noteq> []" by (intro first_attempt_made)
      then show "Suc 0 < length (?a # attempts ?rec)" by (cases "attempts ?rec") simp_all
    qed
    have qs: "\<forall>j < length (attempts ?rec).
           rate_limited ((?a # attempts ?rec) ! Suc j)
           \<and> kt + length (filter rate_limited (take (Suc (Suc j)) (?a # attempts ?rec))) < ?n
           \<longrightarrow> Suc (Suc j) < length (?a # attempts ?rec)"
      using ih rotate(4) by simp
    show ?thesis unfolding e
      by (rule all_less_Cons[where Q="\<lambda>i. rate_limited ((?a # attempts ?rec) ! i)
           \<and> kt + length (filter rate_limited (take (Suc i) (?a # attempts ?rec))) < ?n
           \<longrightarrow> Suc i < length (?a # attempts ?rec)", OF q0 qs])
  next
    case (exhausted error_msg)
    have "?n = 1" using exhausted(2,5) by (simp add: rotate_key_fst)
    then show ?thesis using exhausted by (simp add: retry_loop_exhausted)
  next
    case (retry error_msg)
    let ?rec = "retry_loop g p m ai (r + 1) kt (c + 1)"
    let ?a = "(?idx, Inl error_msg) :: nat \<times> (string + string)"
    have e: "attempts (retry_loop g p m ai r kt c) = ?a # attempts ?rec"
      using retry_loop_retry[OF retry] by simp
    from "1.IH"(2)[OF _ retry(3) refl retry(4) retry(5) "1.prems"] retry(1,2)
    have ih: "\<forall>j < length (attempts ?rec).
           rate_limited (attempts ?rec ! j)
           \<and> kt + length (filter rate_limited (take (Suc j) (attempts ?rec))) < ?n
           \<longrightarrow> Suc j < length (attempts ?rec)"
      by simp
    have q0: "rate_limited ((?a # attempts ?rec) ! 0)
           \<and> kt + length (filter rate_limited (take (Suc 0) (?a # attempts ?rec))) < ?n
           \<longrightarrow> Suc 0 < length (?a # attempts ?rec)"
      using retry(4) by simp
    have qs: "\<forall>j < length (attempts ?rec).
           rate_limited ((?a # attempts ?rec) ! Suc j)
           \<and> kt + length (filter rate_limited (take (Suc (Suc j)) (?a # attempts ?rec))) < ?n
           \<longrightarrow> Suc (Suc j) < length (?a # attempts ?rec)"
      using ih retry(4) by simp
    show ?thesis unfolding e
      by (rule all_less_Cons[where Q="\<lambda>i. rate_limited ((?a # attempts ?rec) ! i)
           \<and> kt + length (filter rate_limited (take (Suc i) (?a # attempts ?rec))) < ?n
           \<longrightarrow> Suc i < length (?a # attempts ?rec)", OF q0 qs])
  next
    case (give_up error_msg)
    then show ?thesis by (simp add: retry_loop_give_up)
  qed
qed

lemma retry_continues:
  assumes "is_initialized ai" "current_key_index ai < length (gemini_models ai)"
  shows "\<forall>i < length (attempts (retry_loop g p m ai r kt c)).
           other_error (attempts (retry_loop g p m ai r kt c) ! i)
           \<and> r + length (filter other_error (take (Suc i) (attempts (retry_loop g p m ai r kt c)))) < m
           \<longrightarrow> Suc i < length (attempts (retry_loop g p m ai r kt c))"
  using assms
proof (induction g p m ai r kt c rule: retry_loop.induct)
  case (1 g p m ai r kt c)
  let ?idx = "current_key_index ai" and ?n = "length (gemini_models ai)"
  show ?case
  proof (cases rule: retry_loop_cases[where retries=r and max_retries=m and keys_tried=kt
          and ai=ai and g=g and calls=c and p=p])
    case stop
    then show ?thesis by (simp add: retry_loop_stop)
  next
    case no_model
    then show ?thesis by (simp add: retry_loop_no_model)
  next
    case (response reply)
    then show ?thesis by (simp add: retry_loop_response)
  next
    case (rotate error_msg)
    let ?ai = "snd (rotate_key ai)"
    let ?rec = "retry_loop g p m ?ai r (kt + 1) (c + 1)"
    let ?a = "(?idx, Inl error_msg) :: nat \<times> (string + string)"
    have e: "attempts (retry_loop g p m ai r kt c) = ?a # attempts ?rec"
      using retry_loop_rotate[OF rotate] by simp
    note rdy = rotate_key_ready[OF "1.prems"(1) rotate(5)]
    from "1.IH"(1)[OF _ rotate(3) refl rotate(4) rotate(5) rdy] rotate(1,2)
    have ih: "\<forall>j < length (attempts ?rec).
           other_error (attempts ?rec ! j)
           \<and> r + length (filter other_error (take (Suc j) (attempts ?rec))) < m
           \<longrightarrow> Suc j < length (attempts ?rec)"
      by simp
    have q0: "other_error ((?a # attempts ?rec) ! 0)
           \<and> r + length (filter other_error (take (Suc 0) (?a # attempts ?rec))) < m
           \<longrightarrow> Suc 0 < length (?a # attempts ?rec)"
      using rotate(4) by simp
    have qs: "\<forall>j < length (attempts ?rec).
           other_error ((?a # attempts ?rec) ! Suc j)
           \<and> r + length (filter other_error (take (Suc (Suc j)) (?a # attempts ?rec))) < m
           \<longrightarrow> Suc (Suc j) < length (?a # attempts ?rec)"
      using ih rotate(4) by simp
    show ?thesis unfolding e
      by (rule all_less_Cons[where Q="\<lambda>i. other_error ((?a # attempts ?rec) ! i)
           \<and> r + length (filter other_error (take (Suc i) (?a # attempts ?rec))) < m
           \<longrightarrow> Suc i < length (?a # attempts ?rec)", OF q0 qs])
  next
    case (exhausted error_msg)
    then show ?thesis by (simp add: retry_loop_exhausted)
  next
    case (retry error_msg)
    let ?rec = "retry_loop g p m ai (r + 1) kt (c + 1)"
    let ?a = "(?idx, Inl error_msg) :: nat \<times> (string + string)"
    have e: "attempts (retry_loop g p m ai r kt c) = ?a # attempts ?rec"
      using retry_loop_retry[OF retry] by simp
    from "1.IH"(2)[OF _ retry(3) refl retry(4) retry(5) "1.prems"] retry(1,2)
    have ih: "\<forall>j < length (attempts ?rec).
           other_error (attempts ?rec ! j)
           \<and> (r + 1) + length (filter other_error (take (Suc j) (attempts ?rec))) < m
           \<longrightarrow> Suc j < length (attempts ?rec)"
      by simp
    have "attempts ?rec \<noteq> []"
      using "1.prems" retry(5) retry(2) by (intro first_attempt_made)
    then have q0: "other_error ((?a # attempts ?rec) ! 0)
           \<and> r + length (filter other_error (take (Suc 0) (?a # attempts ?rec))) < m
           \<longrightarrow> Suc 0 < length (?a # attempts ?rec)"
      by (cases "attempts ?rec") simp_all
    have qs: "\<forall>j < length (attempts ?rec).
           other_error ((?a # attempts ?rec) ! Suc j)
           \<and> r + length (filter other_error (take (Suc (Suc j)) (?a # attempts ?rec))) < m
           \<longrightarrow> Suc (Suc j) < length (?a # attempts ?rec)"
      using ih retry(4) by simp
    show ?thesis unfolding e
      by (rule all_less_Cons[where Q="\<lambda>i. other_error ((?a # attempts ?rec) ! i)
           \<and> r + length (filter other_error (take (Suc i) (?a # attempts ?rec))) < m
           \<longrightarrow> Suc i < length (?a # attempts ?rec)", OF q0 qs])
  next
    case (give_up error_msg)
    then show ?thesis by (simp add: retry_loop_give_up)
  qed
qed

lemma final_outcome_simps:
  "final_outcome n (k, Inr reply) = Response reply"
  "is_rate_limit e \<Longrightarrow> 1 < n \<Longrightarrow> final_outcome n (k, Inl e) = NoResponse"
  "is_rate_limit e \<Longrightarrow> \<not> 1 < n \<Longrightarrow>
     final_outcome n (k, Inl e) = Raised ''All API keys have hit rate limits''"
  "\<not> is_rate_limit e \<Longrightarrow> final_outcome n (k, Inl e) = Raised e"
  by (simp_all add: final_outcome_def)

lemma outcome_of_last_attempt:
  assumes "is_initialized ai" "current_key_index ai < length (gemini_models ai)"
  shows "attempts (retry_loop g p m ai r kt c) \<noteq> [] \<longrightarrow>
           outcome (retry_loop g p m ai r kt c)
             = final_outcome (length (gemini_models ai)) (last (attempts (retry_loop g p m ai r kt c)))"
  using assms
proof (induction g p m ai r kt c rule: retry_loop.induct)
  case (1 g p m ai r kt c)
  let ?idx = "current_key_index ai" and ?n = "length (gemini_models ai)"
  show ?case
  proof (cases rule: retry_loop_cases[where retries=r and max_retries=m and keys_tried=kt
          and ai=ai and g=g and calls=c and p=p])
    case stop
    then show ?thesis by (simp add: retry_loop_stop)
  next
    case no_model
    then show ?thesis by (simp add: retry_loop_no_model)
  next
    case (response reply)
    then show ?thesis by (simp add: retry_loop_response final_outcome_simps)
  next
    case (rotate error_msg)
    let ?ai = "snd (rotate_key ai)"
    let ?rec = "retry_loop g p m ?ai r (kt + 1) (c + 1)"
    let ?a = "(?idx, Inl error_msg) :: nat \<times> (string + string)"
    have e: "retry_loop g p m ai r kt c = cons_attempt ?a ?rec"
      using rotate by (rule retry_loop_rotate)
    have n1: "1 < ?n" using rotate(5) by (simp add: rotate_key_fst)
    note rdy = rotate_key_ready[OF "1.prems"(1) rotate(5)]
    from "1.IH"(1)[OF _ rotate(3) refl rotate(4) rotate(5) rdy] rotate(1,2)
    have ih: "attempts ?rec \<noteq> [] \<longrightarrow> outcome ?rec = final_outcome ?n (last (attempts ?rec))"
      by (simp add: rotate_key_models)
    show ?thesis
    proof (cases "attempts ?rec = []")
      case True
      have "\<not> (r < m \<and> kt + 1 < length (gemini_models ?ai))"
      proof
        assume "r < m \<and> kt + 1 < length (gemini_models ?ai)"
        with rdy have "attempts ?rec \<noteq> []" by (intro first_attempt_made) simp_all
        with True show False by simp
      qed
      then have "outcome ?rec = NoResponse" by (simp add: retry_loop_stop)
      with True rotate(4) n1 show ?thesis unfolding e by (simp add: final_outcome_simps)
    next
      case False
      with ih show ?thesis unfolding e by simp
    qed
  next
    case (exhausted error_msg)
    have "\<not> 1 < ?n" using exhausted(5) by (simp add: rotate_key_fst)
    with exhausted show ?thesis by (simp add: retry_loop_exhausted final_outcome_simps)
  next
    case (retry error_msg)
    let ?rec = "retry_loop g p m ai (r + 1) kt (c + 1)"
    let ?a = "(?idx, Inl error_msg) :: nat \<times> (string + string)"
    have e: "retry_loop g p m ai r kt c = cons_attempt ?a (cons_sleep (2 ^ (r + 1)) ?rec)"
      using retry by (rule retry_loop_retry)
    from "1.IH"(2)[OF _ retry(3) refl retry(4) retry(5) "1.prems"] retry(1,2)
    have ih: "attempts ?rec \<noteq> [] \<longrightarrow> outcome ?rec = final_outcome ?n (last (attempts ?rec))"
      by simp
    have ne: "attempts ?rec \<noteq> []"
      using "1.prems" retry(5) retry(2) by (intro first_attempt_made)
    with ih show ?thesis unfolding e by simp
  next
    case (give_up error_msg)
    then show ?thesis by (simp add: retry_loop_give_up final_outcome_simps)
  qed
qed

lemma sleeps_count:
  assumes "is_initialized ai" "current_key_index ai < length (gemini_models ai)"
  shows "length (sleeps (retry_loop g p m ai r kt c))
           = length (filter other_error (butlast (attempts (retry_loop g p m ai r kt c))))"
  using assms
proof (induction g p m ai r kt c rule: retry_loop.induct)
  case (1 g p m ai r kt c)
  let ?idx = "current_key_index ai" and ?n = "length (gemini_models ai)"
  show ?case
  proof (cases rule: retry_loop_cases[where retries=r and max_retries=m and keys_tried=kt
          and ai=ai and g=g and calls=c and p=p])
    case stop
    then show ?thesis by (simp add: retry_loop_stop)
  next
    case no_model
    then show ?thesis by (simp add: retry_loop_no_model)
  next
    case (response reply)
    then show ?thesis by (simp add: retry_loop_response)
  next
    case (rotate error_msg)
    let ?ai = "snd (rotate_key ai)"
    let ?rec = "retry_loop g p m ?ai r (kt + 1) (c + 1)"
    let ?a = "(?idx, Inl error_msg) :: nat \<times> (string + string)"
    have e: "retry_loop g p m ai r kt c = cons_attempt ?a ?rec"
      using rotate by (rule retry_loop_rotate)
    note rdy = rotate_key_ready[OF "1.prems"(1) rotate(5)]
    from "1.IH"(1)[OF _ rotate(3) refl rotate(4) rotate(5) rdy] rotate(1,2)
    have ih: "length (sleeps ?rec) = length (filter other_error (butlast (attempts ?rec)))"
      by simp
    show ?thesis unfolding e using ih rotate(4) by simp
  next
    case (exhausted error_msg)
    then show ?thesis by (simp add: retry_loop_exhausted)
  next
    case (retry error_msg)
    let ?rec = "retry_loop g p m ai (r + 1) kt (c + 1)"
    let ?a = "(?idx, Inl error_msg) :: nat \<times> (string + string)"
    have e: "retry_loop g p m ai r kt c = cons_attempt ?a (cons_sleep (2 ^ (r + 1)) ?rec)"
      using retry by (rule retry_loop_retry)
    from "1.IH"(2)[OF _ retry(3) refl retry(4) retry(5) "1.prems"] retry(1,2)
    have ih: "length (sleeps ?rec) = length (filter other_error (butlast (attempts ?rec)))"
      by simp
    have ne: "attempts ?rec \<noteq> []"
      using "1.prems" retry(5) retry(2) by (intro first_attempt_made)
    show ?thesis unfolding e using ih ne retry(4) by simp
  next
    case (give_up error_msg)
    then show ?thesis by (simp add: retry_loop_give_up)
  qed
qed

text \<open>
  C8. Within one \<open>generate_with_retry\<close> request (module initialised, current index in
  range): an attempt is made, the first with the current credential, and every attempt
  sends the same prompt to the credential at its index. After a rate-limit error the
  request goes on, with the next credential, as long as fewer credentials have been
  rate-limited than there are; no credential is rate-limited twice, so the rotation is a
  single pass. After any other error the request goes on, with the same credential, as
  long as fewer than 3 attempts have failed so; the delays before these retries are 2 and
  4, each the double of the one before. The request ends with the last attempt: with its
  response; with no response or the exception of the exhausted keys when it was
  rate-limited, and then every credential has been rate-limited; with the error when it
  failed otherwise, and then 3 attempts have failed so. Once every credential has been
  rate-limited the request yields no response.
\<close>

theorem generate_with_retry_rotation:
  assumes "is_initialized ai" "current_key_index ai < length (gemini_models ai)"
  shows
   "(attempts (generate_with_retry g ai prompt) \<noteq> []
       \<longrightarrow> fst (hd (attempts (generate_with_retry g ai prompt))) = current_key_index ai)
    \<and> (\<forall>i. Suc i < length (attempts (generate_with_retry g ai prompt))
            \<and> rate_limited (attempts (generate_with_retry g ai prompt) ! i)
         \<longrightarrow> fst (attempts (generate_with_retry g ai prompt) ! Suc i)
             = (fst (attempts (generate_with_retry g ai prompt) ! i) + 1)
                 mod length (gemini_models ai))
    \<and> (\<forall>i. Suc i < length (attempts (generate_with_retry g ai prompt))
            \<and> other_error (attempts (generate_with_retry g ai prompt) ! i)
         \<longrightarrow> fst (attempts (generate_with_retry g ai prompt) ! Suc i)
             = fst (attempts (generate_with_retry g ai prompt) ! i))
    \<and> distinct (map fst (filter rate_limited (attempts (generate_with_retry g ai prompt))))
    \<and> length (filter other_error (attempts (generate_with_retry g ai prompt))) \<le> 3
    \<and> length (sleeps (generate_with_retry g ai prompt)) \<le> 2
    \<and> (sleeps (generate_with_retry g ai prompt) \<noteq> []
         \<longrightarrow> hd (sleeps (generate_with_retry g ai prompt)) = 2)
    \<and> (\<forall>i. Suc i < length (sleeps (generate_with_retry g ai prompt))
         \<longrightarrow> sleeps (generate_with_retry g ai prompt) ! Suc i
             = 2 * sleeps (generate_with_retry g ai prompt) ! i)
    \<and> ((\<forall>k < length (gemini_models ai).
            k \<in> fst ` set (filter rate_limited (attempts (generate_with_retry g ai prompt))))
         \<longrightarrow> (\<forall>t. outcome (generate_with_retry g ai prompt) \<noteq> Response t))
    \<and> (\<forall>t. outcome (generate_with_retry g ai prompt) = Response t
         \<longrightarrow> attempts (generate_with_retry g ai prompt) \<noteq> []
           \<and> snd (last (attempts (generate_with_retry g ai prompt))) = Inr t)
    \<and> attempts (generate_with_retry g ai prompt) \<noteq> []
    \<and> (\<forall>i < length (attempts (generate_with_retry g ai prompt)).
          snd (attempts (generate_with_retry g ai prompt) ! i)
            = g i (gemini_models ai ! fst (attempts (generate_with_retry g ai prompt) ! i)) prompt)
    \<and> (\<forall>i < length (attempts (generate_with_retry g ai prompt)).
          rate_limited (attempts (generate_with_retry g ai prompt) ! i)
          \<and> length (filter rate_limited
                (take (Suc i) (attempts (generate_with_retry g ai prompt))))
               < length (gemini_models ai)
          \<longrightarrow> Suc i < length (attempts (generate_with_retry g ai prompt)))
    \<and> (\<forall>i < length (attempts (generate_with_retry g ai prompt)).
          other_error (attempts (generate_with_retry g ai prompt) ! i)
          \<and> length (filter other_error
                (take (Suc i) (attempts (generate_with_retry g ai prompt)))) < 3
          \<longrightarrow> Suc i < length (attempts (generate_with_retry g ai prompt)))
    \<and> length (sleeps (generate_with_retry g ai prompt))
        = length (filter other_error (butlast (attempts (generate_with_retry g ai prompt))))
    \<and> outcome (generate_with_retry g ai prompt)
        = final_outcome (length (gemini_models ai))
            (last (attempts (generate_with_retry g ai prompt)))
    \<and> (rate_limited (last (attempts (generate_with_retry g ai prompt)))
         \<longrightarrow> length (filter rate_limited (attempts (generate_with_retry g ai prompt)))
             = length (gemini_models ai))
    \<and> (other_error (last (attempts (generate_with_retry g ai prompt)))
         \<longrightarrow> length (filter other_error (attempts (generate_with_retry g ai prompt))) = 3)"
proof -
  let ?run = "retry_loop g prompt 3 ai 0 0 0"
  let ?T = "attempts ?run"
  let ?n = "length (gemini_models ai)"
  let ?RL = "filter rate_limited ?T"
  have run: "generate_with_retry g ai prompt = ?run"
    using assms(1) by (simp add: generate_with_retry_def)
  note ch = attempts_chain[of g prompt 3 ai 0 0 0]
  note rk = rate_limited_keys[OF assms(2), of g prompt 3 0 0 0]
  note os = other_errors_and_sleeps[of g prompt 3 ai 0 0 0]
  have c1: "?T \<noteq> [] \<longrightarrow> fst (hd ?T) = current_key_index ai" using ch by blast
  have c2: "\<forall>i. Suc i < length ?T \<and> rate_limited (?T ! i)
              \<longrightarrow> fst (?T ! Suc i) = (fst (?T ! i) + 1) mod ?n"
    using ch by (simp add: key_after_def)
  have oe: "\<And>a. other_error a \<Longrightarrow> \<not> rate_limited a"
    by (auto simp: other_error_def rate_limited_def split: sum.splits)
  have c3: "\<forall>i. Suc i < length ?T \<and> other_error (?T ! i) \<longrightarrow> fst (?T ! Suc i) = fst (?T ! i)"
    using ch oe by (simp add: key_after_def)
  have len: "length ?RL \<le> ?n" using rk by simp
  have keys: "map fst ?RL = map (\<lambda>j. (current_key_index ai + j) mod ?n) [0..<length ?RL]"
    using rk by blast
  have c4: "distinct (map fst ?RL)"
    using rotation_keys_distinct[OF len, of "current_key_index ai"] keys by simp
  have c5: "length (filter other_error ?T) \<le> 3" using os by simp
  have c6: "length (sleeps ?run) \<le> 2" using os by simp
  have sl: "sleeps ?run = map (\<lambda>k. 2 ^ k) [1..<Suc (length (sleeps ?run))]" using os by simp
  have c7: "sleeps ?run \<noteq> [] \<longrightarrow> hd (sleeps ?run) = 2"
    using doubling_delays[OF sl] by blast
  have c8: "\<forall>i. Suc i < length (sleeps ?run) \<longrightarrow> sleeps ?run ! Suc i = 2 * sleeps ?run ! i"
    using doubling_delays[OF sl] by blast
  have c9: "(\<forall>k < ?n. k \<in> fst ` set ?RL) \<longrightarrow> (\<forall>t. outcome ?run \<noteq> Response t)"
  proof
    assume a: "\<forall>k < ?n. k \<in> fst ` set ?RL"
    then have "{0..<?n} \<subseteq> set (map fst ?RL)" by auto
    then have "card {0..<?n} \<le> card (set (map fst ?RL))" by (intro card_mono) simp_all
    also have "\<dots> \<le> length (map fst ?RL)" by (rule card_length)
    finally have "?n \<le> length ?RL" by simp
    with len have "length ?RL = ?n - 0" by simp
    with rk show "\<forall>t. outcome ?run \<noteq> Response t" by simp
  qed
  have c10: "\<forall>t. outcome ?run = Response t \<longrightarrow> ?T \<noteq> [] \<and> snd (last ?T) = Inr t"
    using response_is_last_attempt[of g prompt 3 ai 0 0 0] by blast
  have pos: "0 < ?n" using assms(2) by linarith
  have three: "(0::nat) < 3" by simp
  have c11: "?T \<noteq> []" using assms three pos by (rule first_attempt_made)
  have c12: "\<forall>i < length ?T. snd (?T ! i) = g i (gemini_models ai ! fst (?T ! i)) prompt"
    using attempts_are_calls[OF assms, of g prompt 3 0 0 0] by simp
  have c13: "\<forall>i < length ?T. rate_limited (?T ! i)
               \<and> length (filter rate_limited (take (Suc i) ?T)) < ?n \<longrightarrow> Suc i < length ?T"
    using rotation_continues[OF assms, of g prompt 3 0 0 0] by simp
  have c14: "\<forall>i < length ?T. other_error (?T ! i)
               \<and> length (filter other_error (take (Suc i) ?T)) < 3 \<longrightarrow> Suc i < length ?T"
    using retry_continues[OF assms, of g prompt 3 0 0 0] by simp
  have c15: "length (sleeps ?run) = length (filter other_error (butlast ?T))"
    using assms by (rule sleeps_count)
  have c16: "outcome ?run = final_outcome ?n (last ?T)"
    using outcome_of_last_attempt[OF assms, of g prompt 3 0 0 0] c11 by blast
  have lastT: "?T ! (length ?T - 1) = last ?T" using c11 by (simp add: last_conv_nth)
  have li: "length ?T - 1 < length ?T" using c11 by simp
  have tk: "take (Suc (length ?T - 1)) ?T = ?T" using c11 by simp
  have sl': "\<not> Suc (length ?T - 1) < length ?T" by simp
  have c17: "rate_limited (last ?T) \<longrightarrow> length ?RL = ?n"
  proof
    assume "rate_limited (last ?T)"
    then have "rate_limited (?T ! (length ?T - 1))" by (simp only: lastT)
    with c13 li sl' have "\<not> length (filter rate_limited (take (Suc (length ?T - 1)) ?T)) < ?n"
      by blast
    then have "\<not> length ?RL < ?n" unfolding tk .
    with len show "length ?RL = ?n" by simp
  qed
  have c18: "other_error (last ?T) \<longrightarrow> length (filter other_error ?T) = 3"
  proof
    assume "other_error (last ?T)"
    then have "other_error (?T ! (length ?T - 1))" by (simp only: lastT)
    with c14 li sl' have "\<not> length (filter other_error (take (Suc (length ?T - 1)) ?T)) < 3"
      by blast
    then have "\<not> length (filter other_error ?T) < 3" unfolding tk .
    with c5 show "length (filter other_error ?T) = 3" by simp
  qed
  show ?thesis
    unfolding run
    apply (intro conjI)
    apply (rule c1)
    apply (rule c2)
    apply (rule c3)
    apply (rule c4)
    apply (rule c5)
    apply (rule c6)
    apply (rule c7)
    apply (rule c8)
    apply (rule c9)
    apply (rule c10)
    apply (rule c11)
    apply (rule c12)
    apply (rule c13)
    apply (rule c14)
    apply (rule c15)
    apply (rule c16)
    apply (rule c17)
    apply (rule c18)
    done
qed

lemma example_runs:
  "attempts (generate_with_retry example_provider example_ai ''prompt'')
     = [(0, Inl ''429 RATE_LIMIT_EXCEEDED''), (1, Inl ''503 unavailable''),
        (1, Inl ''503 unavailable''), (1, Inr ''generated text'')]"
  "sleeps (generate_with_retry example_provider example_ai ''prompt'') = [2, 4]"
  "outcome (generate_with_retry example_provider example_ai ''prompt'') = Response ''generated text''"
  "attempts (generate_with_retry always_rate_limited example_ai ''prompt'')
     = [(0, Inl ''429 RATE_LIMIT_EXCEEDED''), (1, Inl ''429 RATE_LIMIT_EXCEEDED'')]"
  "outcome (generate_with_retry always_rate_limited example_ai ''prompt'') = NoResponse"
  "attempts (generate_with_retry always_unavailable example_ai ''prompt'')
     = [(0, Inl ''503 unavailable''), (0, Inl ''503 unavailable''), (0, Inl ''503 unavailable'')]"
  "sleeps (generate_with_retry always_unavailable example_ai ''prompt'') = [2, 4]"
  "outcome (generate_with_retry always_unavailable example_ai ''prompt'') = Raised ''503 unavailable''"
  by code_simp+

theorem generate_with_retry_rotation_witness:
  "is_initialized example_ai \<and> current_key_index example_ai < length (gemini_models example_ai)
   \<and> attempts (generate_with_retry example_provider example_ai ''prompt'')
       = [(0, Inl ''429 RATE_LIMIT_EXCEEDED''), (1, Inl ''503 unavailable''),
          (1, Inl ''503 unavailable''), (1, Inr ''generated text'')]
   \<and> rate_limited (0, Inl ''429 RATE_LIMIT_EXCEEDED'')
   \<and> other_error (1, Inl ''503 unavailable'')
   \<and> sleeps (generate_with_retry example_provider example_ai ''prompt'') = [2, 4]
   \<and> outcome (generate_with_retry example_provider example_ai ''prompt'') = Response ''generated text''
   \<and> attempts (generate_with_retry always_rate_limited example_ai ''prompt'')
       = [(0, Inl ''429 RATE_LIMIT_EXCEEDED''), (1, Inl ''429 RATE_LIMIT_EXCEEDED'')]
   \<and> length (gemini_models example_ai) = 2
   \<and> fst ` set (filter rate_limited
                (attempts (generate_with_retry always_rate_limited example_ai ''prompt''))) = {0, 1}
   \<and> outcome (generate_with_retry always_rate_limited example_ai ''prompt'') = NoResponse
   \<and> attempts (generate_with_retry always_unavailable example_ai ''prompt'')
       = [(0, Inl ''503 unavailable''), (0, Inl ''503 unavailable''), (0, Inl ''503 unavailable'')]
   \<and> sleeps (generate_with_retry always_unavailable example_ai ''prompt'') = [2, 4]
   \<and> outcome (generate_with_retry always_unavailable example_ai ''prompt'')
       = Raised ''503 unavailable''"
proof -
  have h: "is_initialized example_ai" "current_key_index example_ai < length (gemini_models example_ai)"
    by (simp_all add: example_ai_def)
  have r: "rate_limited (0, Inl ''429 RATE_LIMIT_EXCEEDED'')" "other_error (1, Inl ''503 unavailable'')"
    by code_simp+
  have n: "length (gemini_models example_ai) = 2" by (simp add: example_ai_def)
  have b: "fst ` set (filter rate_limited
                (attempts (generate_with_retry always_rate_limited example_ai ''prompt''))) = {0, 1}"
    unfolding example_runs(4) using r(1) by (auto simp: rate_limited_def)
  from generate_with_retry_rotation[OF h, of example_provider "''prompt''"]
       generate_with_retry_rotation[OF h, of always_rate_limited "''prompt''"]
       generate_with_retry_rotation[OF h, of always_unavailable "''prompt''"]
       h r b n example_runs
  show ?thesis by simp
qed

section \<open>Properties of competitor finding\<close>


lemma scan_results_foreign:
  assumes "\<forall>u \<in> set (snd st). \<exists>r. u = ''https://'' @ registered_domain extract r
                                      \<and> registered_domain extract r \<noteq> own"
  shows "\<forall>u \<in> set (snd (scan_results extract own results st)).
           \<exists>r. u = ''https://'' @ registered_domain extract r \<and> registered_domain extract r \<noteq> own"
  using assms
proof (induction results arbitrary: st)
  case Nil
  then show ?case by simp
next
  case (Cons result results)
  let ?rd = "registered_domain extract result"
  let ?st = "(fst st @ [?rd], snd st @ [''https://'' @ ?rd])"
  show ?case
  proof (cases "?rd \<noteq> own \<and> ?rd \<notin> set (fst st)
            \<and> fst (extract result) \<noteq> [] \<and> snd (extract result) \<noteq> []")
    case True
    have inv: "\<forall>u \<in> set (snd ?st). \<exists>r. u = ''https://'' @ registered_domain extract r
                                      \<and> registered_domain extract r \<noteq> own"
      using Cons.prems True by auto
    show ?thesis
    proof (cases "length (snd ?st) \<ge> 3")
      case stop: True
      have "scan_results extract own (result # results) st = ?st"
        using True stop by (simp add: Let_def)
      with inv show ?thesis by (simp only:)
    next
      case go: False
      have "scan_results extract own (result # results) st = scan_results extract own results ?st"
        using True go by (simp add: Let_def)
      with Cons.IH[OF inv] show ?thesis by (simp only:)
    qed
  next
    case False
    then have "scan_results extract own (result # results) st = scan_results extract own results st"
      by (auto simp add: Let_def)
    with Cons.IH[OF Cons.prems] show ?thesis by (simp only:)
  qed
qed

lemma run_queries_foreign:
  assumes "\<forall>u \<in> set (snd st). \<exists>r. u = ''https://'' @ registered_domain (tld_extract f) r
                                      \<and> registered_domain (tld_extract f) r \<noteq> own"
  shows "\<forall>u \<in> set (snd (run_queries f own queries st)).
           \<exists>r. u = ''https://'' @ registered_domain (tld_extract f) r
               \<and> registered_domain (tld_extract f) r \<noteq> own"
  using assms
proof (induction queries arbitrary: st)
  case Nil
  then show ?case by simp
next
  case (Cons query queries)
  let ?st = "scan_results (tld_extract f) own (search f query) st"
  have inv: "\<forall>u \<in> set (snd ?st). \<exists>r. u = ''https://'' @ registered_domain (tld_extract f) r
                                      \<and> registered_domain (tld_extract f) r \<noteq> own"
    using Cons.prems by (rule scan_results_foreign)
  show ?case
  proof (cases "length (snd ?st) \<ge> 3")
    case True
    then have "run_queries f own (query # queries) st = ?st" by (simp add: Let_def)
    with inv show ?thesis by (simp only:)
  next
    case False
    then have "run_queries f own (query # queries) st = run_queries f own queries ?st"
      by (simp add: Let_def)
    with Cons.IH[OF inv] show ?thesis by (simp only:)
  qed
qed

lemma find_competitors_fallback_length: "length (find_competitors_fallback f domain) \<le> 3"
  by (simp add: find_competitors_fallback_def Let_def)

lemma find_competitors_fallback_foreign:
  "\<forall>u \<in> set (find_competitors_fallback f domain).
     \<exists>r. u = ''https://'' @ registered_domain (tld_extract f) r
         \<and> registered_domain (tld_extract f) r \<noteq> registered_domain (tld_extract f) domain"
proof (cases "GOOGLE_SEARCH_AVAILABLE f")
  case False
  then show ?thesis by (simp add: find_competitors_fallback_def)
next
  case True
  let ?own = "registered_domain (tld_extract f) domain"
  let ?qs = "take 2 [fst (tld_extract f domain) @ '' competitors'',
                     ''sites like '' @ fst (tld_extract f domain),
                     fst (tld_extract f domain) @ '' alternatives'']"
  have e: "find_competitors_fallback f domain = take 3 (snd (run_queries f ?own ?qs ([], [])))"
    using True by (simp add: find_competitors_fallback_def Let_def)
  have "\<forall>u \<in> set (snd (run_queries f ?own ?qs ([], []))).
           \<exists>r. u = ''https://'' @ registered_domain (tld_extract f) r
               \<and> registered_domain (tld_extract f) r \<noteq> ?own"
    by (rule run_queries_foreign) simp
  then show ?thesis unfolding e by (meson in_set_takeD)
qed

lemma find_competitors_with_gemini_length:
  "length (find_competitors_with_gemini g f ai website_url) \<le> 3"
  by (simp add: find_competitors_with_gemini_def find_competitors_fallback_length
        split: gen_result.splits option.splits)

text \<open>
  C7. Competitor finding returns at most 3 URLs on the AI path and on the search-fallback
  path; every URL of the fallback is \<open>https://\<close> followed by a registered domain other
  than the seed's own, so the seed's own domain is never returned, however many domains the
  search discovers; without the search library the fallback returns the empty list, and
  with neither the AI module initialised nor the search library the result is the empty
  list.
\<close>

theorem find_competitors_at_most_three:
  "length (find_competitors_with_gemini g f ai website_url) \<le> 3
   \<and> length (find_competitors_fallback f domain) \<le> 3
   \<and> (\<forall>u \<in> set (find_competitors_fallback f domain).
         \<exists>r. u = ''https://'' @ registered_domain (tld_extract f) r
             \<and> registered_domain (tld_extract f) r \<noteq> registered_domain (tld_extract f) domain)
   \<and> ''https://'' @ registered_domain (tld_extract f) domain
         \<notin> set (find_competitors_fallback f domain)
   \<and> (\<not> GOOGLE_SEARCH_AVAILABLE f \<longrightarrow> find_competitors_fallback f domain = [])
   \<and> (\<not> is_initialized ai \<and> \<not> GOOGLE_SEARCH_AVAILABLE f
        \<longrightarrow> find_competitors_with_gemini g f ai website_url = [])"
proof -
  note a = find_competitors_fallback_foreign[of f domain]
  have b: "''https://'' @ registered_domain (tld_extract f) domain
         \<notin> set (find_competitors_fallback f domain)"
  proof
    assume "''https://'' @ registered_domain (tld_extract f) domain
         \<in> set (find_competitors_fallback f domain)"
    with a obtain r where
      "''https://'' @ registered_domain (tld_extract f) domain
         = ''https://'' @ registered_domain (tld_extract f) r"
      and "registered_domain (tld_extract f) r \<noteq> registered_domain (tld_extract f) domain"
      by blast
    then show False by simp
  qed
  have c: "\<not> GOOGLE_SEARCH_AVAILABLE f \<longrightarrow> find_competitors_fallback f domain = []"
    by (simp add: find_competitors_fallback_def)
  have d: "\<not> is_initialized ai \<and> \<not> GOOGLE_SEARCH_AVAILABLE f
        \<longrightarrow> find_competitors_with_gemini g f ai website_url = []"
    by (simp add: find_competitors_with_gemini_def find_competitors_fallback_def)
  from find_competitors_with_gemini_length[of g f ai website_url]
       find_competitors_fallback_length[of f domain] a b c d
  show ?thesis by blast
qed

lemma example_competitors_found:
  "find_competitors_fallback example_finder ''https://www.acme.com''
     = [''https://example.org'', ''https://bolt.io'', ''https://nuts.com'']"
  "registered_domain (tld_extract example_finder) ''https://www.acme.com'' = ''acme.com''"
  "find_competitors_with_gemini example_provider
      (example_finder\<lparr>GOOGLE_SEARCH_AVAILABLE := False\<rparr>) example_uninitialised_ai
      ''https://www.acme.com'' = []"
  by code_simp+

theorem find_competitors_at_most_three_witness:
  "find_competitors_fallback example_finder ''https://www.acme.com''
     = [''https://example.org'', ''https://bolt.io'', ''https://nuts.com'']
   \<and> ''https://acme.com'' \<notin> set (find_competitors_fallback example_finder ''https://www.acme.com'')
   \<and> \<not> is_initialized example_uninitialised_ai
   \<and> \<not> GOOGLE_SEARCH_AVAILABLE (example_finder\<lparr>GOOGLE_SEARCH_AVAILABLE := False\<rparr>)
   \<and> find_competitors_with_gemini example_provider
        (example_finder\<lparr>GOOGLE_SEARCH_AVAILABLE := False\<rparr>) example_uninitialised_ai
        ''https://www.acme.com'' = []"
proof -
  have h: "\<not> is_initialized example_uninitialised_ai"
    "\<not> GOOGLE_SEARCH_AVAILABLE (example_finder\<lparr>GOOGLE_SEARCH_AVAILABLE := False\<rparr>)"
    by (simp_all add: example_uninitialised_ai_def)
  from find_competitors_at_most_three[of example_provider example_finder
          example_uninitialised_ai "''https://www.acme.com''" "''https://www.acme.com''"]
       find_competitors_at_most_three[of example_provider
          "example_finder\<lparr>GOOGLE_SEARCH_AVAILABLE := False\<rparr>"
          example_uninitialised_ai "''https://www.acme.com''" "''https://www.acme.com''"]
       h example_competitors_found
  show ?thesis by simp
qed


section \<open>Properties of the outreach template\<close>


lemma comp_scores_non_errored:
  "comp_scores competitor_data = map get_seo_score (non_errored competitor_data)"
  by (simp add: comp_scores_def non_errored_def)

lemma code_behind_iff:
  "(of_int (get_seo_score main_site_data) < avg_comp_score competitor_data)
     = (spec_behind main_site_data competitor_data
        \<or> (non_errored competitor_data = [] \<and> get_seo_score main_site_data < 0))"
  by (auto simp add: avg_comp_score_def comp_scores_non_errored spec_behind_def)

lemma opening_behind:
  "of_int (get_seo_score main_site_data) < avg_comp_score competitor_data \<Longrightarrow>
     py_startswith (generate_fallback_outreach netloc main_site_data competitor_data)
       ''Your competitors are outranking ''
     \<and> \<not> py_startswith (generate_fallback_outreach netloc main_site_data competitor_data) ''While ''"
  by (simp add: generate_fallback_outreach_def outreach_opening_def Let_def py_startswith_def)

lemma opening_ahead:
  "\<not> of_int (get_seo_score main_site_data) < avg_comp_score competitor_data \<Longrightarrow>
     py_startswith (generate_fallback_outreach netloc main_site_data competitor_data) ''While ''
     \<and> \<not> py_startswith (generate_fallback_outreach netloc main_site_data competitor_data)
           ''Your competitors are outranking ''"
  by (simp add: generate_fallback_outreach_def outreach_opening_def Let_def py_startswith_def)

lemma call_to_action_estimate: "py_in ''25-40%'' call_to_action"
  by code_simp

text \<open>
  C9. The template fallback for outreach is total: for every main-site result and every
  list of competitor results \<open>generate_fallback_outreach\<close> returns a non-empty message,
  made of an opening, at most 2 of the main site's issues (or a fixed phrase when it has
  none) and the fixed call to action with the estimate of 25-40 percent. For a main score
  that is not negative, the opening is the one for a site that is behind exactly when the
  main score is strictly below the average score of the competitors without an error, and
  the one for a site that is ahead otherwise, in particular when there is no such
  competitor.
\<close>

theorem generate_fallback_outreach_total:
  "generate_fallback_outreach netloc main_site_data competitor_data \<noteq> []
   \<and> generate_fallback_outreach netloc main_site_data competitor_data
       = outreach_opening netloc main_site_data competitor_data @ '' ''
         @ (if issues main_site_data \<noteq> []
            then ''Key issues: '' @ py_join '', '' (take 2 (issues main_site_data))
            else ''Several technical improvements needed'')
         @ call_to_action
   \<and> suffix call_to_action (generate_fallback_outreach netloc main_site_data competitor_data)
   \<and> py_in ''25-40%'' call_to_action
   \<and> (0 \<le> get_seo_score main_site_data \<longrightarrow>
        py_startswith (generate_fallback_outreach netloc main_site_data competitor_data)
            ''Your competitors are outranking ''
          = spec_behind main_site_data competitor_data
        \<and> py_startswith (generate_fallback_outreach netloc main_site_data competitor_data)
            ''While ''
          = (\<not> spec_behind main_site_data competitor_data))
   \<and> (0 \<le> get_seo_score main_site_data \<and> non_errored competitor_data = [] \<longrightarrow>
        py_startswith (generate_fallback_outreach netloc main_site_data competitor_data)
            ''While '')"
proof -
  let ?msg = "generate_fallback_outreach netloc main_site_data competitor_data"
  have cta: "call_to_action \<noteq> []" by (simp add: call_to_action_def)
  then have c1: "?msg \<noteq> []" by (simp add: generate_fallback_outreach_def)
  have c2: "?msg = outreach_opening netloc main_site_data competitor_data @ '' ''
         @ (if issues main_site_data \<noteq> []
            then ''Key issues: '' @ py_join '', '' (take 2 (issues main_site_data))
            else ''Several technical improvements needed'')
         @ call_to_action"
    by (simp add: generate_fallback_outreach_def outreach_issues_text_def)
  have "?msg = (outreach_opening netloc main_site_data competitor_data @ '' ''
       @ outreach_issues_text main_site_data) @ call_to_action"
    by (simp add: generate_fallback_outreach_def)
  then have c3: "suffix call_to_action ?msg" by (simp only: suffix_def) blast
  have c5: "0 \<le> get_seo_score main_site_data \<longrightarrow>
        py_startswith ?msg ''Your competitors are outranking '' = spec_behind main_site_data competitor_data
        \<and> py_startswith ?msg ''While '' = (\<not> spec_behind main_site_data competitor_data)"
  proof
    assume nn: "0 \<le> get_seo_score main_site_data"
    then have iff: "(of_int (get_seo_score main_site_data) < avg_comp_score competitor_data)
        = spec_behind main_site_data competitor_data"
      using code_behind_iff[of main_site_data competitor_data] by simp
    show "py_startswith ?msg ''Your competitors are outranking '' = spec_behind main_site_data competitor_data
        \<and> py_startswith ?msg ''While '' = (\<not> spec_behind main_site_data competitor_data)"
    proof (cases "spec_behind main_site_data competitor_data")
      case True
      with iff opening_behind[of main_site_data competitor_data netloc] show ?thesis by simp
    next
      case False
      with iff opening_ahead[of main_site_data competitor_data netloc] show ?thesis by simp
    qed
  qed
  have c6: "0 \<le> get_seo_score main_site_data \<and> non_errored competitor_data = [] \<longrightarrow>
        py_startswith ?msg ''While ''"
  proof
    assume a: "0 \<le> get_seo_score main_site_data \<and> non_errored competitor_data = []"
    then have "\<not> spec_behind main_site_data competitor_data" by (simp add: spec_behind_def)
    with c5 a show "py_startswith ?msg ''While ''" by simp
  qed
  from c1 c2 c3 call_to_action_estimate c5 c6 show ?thesis by blast
qed

lemma example_outreach:
  "generate_fallback_outreach (drop 8) example_main example_competitors
     = ''Your competitors are outranking acme.test with 10 points higher SEO scores. ''
       @ ''Key issues: Missing meta description, Missing H1 tag'' @ call_to_action"
  "generate_fallback_outreach (drop 8) example_main []
     = ''While acme.test performs well, there are opportunities to extend your lead. ''
       @ ''Key issues: Missing meta description, Missing H1 tag'' @ call_to_action"
  "spec_behind example_main example_competitors"
  "get_seo_score example_main = 60"
  "non_errored [] = []"
  by code_simp+

theorem generate_fallback_outreach_total_witness:
  "0 \<le> get_seo_score example_main
   \<and> spec_behind example_main example_competitors
   \<and> generate_fallback_outreach (drop 8) example_main example_competitors
       = ''Your competitors are outranking acme.test with 10 points higher SEO scores. ''
         @ ''Key issues: Missing meta description, Missing H1 tag'' @ call_to_action
   \<and> non_errored [] = []
   \<and> generate_fallback_outreach (drop 8) example_main []
       = ''While acme.test performs well, there are opportunities to extend your lead. ''
         @ ''Key issues: Missing meta description, Missing H1 tag'' @ call_to_action"
proof -
  have h: "0 \<le> get_seo_score example_main" by (simp add: example_outreach(4))
  from generate_fallback_outreach_total[of "drop 8" example_main example_competitors]
       generate_fallback_outreach_total[of "drop 8" example_main "[]"]
       h example_outreach
  show ?thesis by simp
qed


end
